(* ===== verification/Prelude.thy ===== *)
theory Prelude
  imports Main "HOL-Library.Word"
begin

text \<open>
  Shared vocabulary of the development: machine integers at their width, the
  little-endian memory image of an integer, \<^verbatim>\<open>memcmp\<close>, \<^verbatim>\<open>ntohl\<close>/\<^verbatim>\<open>htonl\<close>, bounded
  reads of a byte buffer, and the result type in which undefined behaviour of the C++
  source (an access outside a buffer, an over-long copy, a shift by the width, a null
  pointer) is a value. The host is a little-endian machine with 64 bit \<^verbatim>\<open>time_t\<close>, which is
  what \<^verbatim>\<open>send_open\<close>/\<^verbatim>\<open>decode_open\<close> assume of it.
\<close>

unbundle bit_operations_syntax

section \<open>Integers and results\<close>

type_synonym u8 = "8 word"
type_synonym u16 = "16 word"
type_synonym u32 = "32 word"
type_synonym u64 = "64 word"
type_synonym time_t = "64 word"
type_synonym bytes = "8 word list"

text \<open>Rewrite rules that evaluate the primitives on given arguments.\<close>

named_theorems byte_simps
named_theorems eval_simps

text \<open>
  The ways in which a run of the source can leave the defined behaviour of the language.
\<close>

datatype ub =
    Out_of_bounds      \<comment> \<open>a read outside an array or a heap block\<close>
  | Buffer_overflow    \<comment> \<open>a write past the object that receives it\<close>
  | Bad_shift          \<comment> \<open>a shift by a negative amount or by the width or more\<close>
  | Null_pointer       \<comment> \<open>a null pointer is dereferenced or made a string\<close>
  | Use_after_free     \<comment> \<open>an object is accessed after it was deleted\<close>

type_synonym 'a result = "ub + 'a"

definition rbind :: "'a result \<Rightarrow> ('a \<Rightarrow> 'b result) \<Rightarrow> 'b result" where
  "rbind m f = (case m of Inl e \<Rightarrow> Inl e | Inr x \<Rightarrow> f x)"

lemma rbind_simps [simp]:
  "rbind (Inl e) f = Inl e" "rbind (Inr x) f = f x"
  by (simp_all add: rbind_def)

lemma rbind_eq_Inr:
  "rbind m f = Inr y \<longleftrightarrow> (\<exists>x. m = Inr x \<and> f x = Inr y)"
  by (cases m) auto

lemma rbind_eq_Inl:
  "rbind m f = Inl e \<longleftrightarrow> m = Inl e \<or> (\<exists>x. m = Inr x \<and> f x = Inl e)"
  by (cases m) auto

lemma rbind_cong [fundef_cong]:
  "m = m' \<Longrightarrow> (\<And>x. m' = Inr x \<Longrightarrow> f x = f' x) \<Longrightarrow> rbind m f = rbind m' f'"
  by (cases m') auto

text \<open>A check that a run stays defined: \<open>Inr ()\<close> when the condition holds.\<close>

definition guard :: "ub \<Rightarrow> bool \<Rightarrow> unit result" where
  "guard e c = (if c then Inr () else Inl e)"

lemma guard_simps [simp]:
  "guard e True = Inr ()" "guard e False = Inl e"
  "guard e c = Inr u \<longleftrightarrow> c" "guard e c = Inl e' \<longleftrightarrow> \<not> c \<and> e' = e"
  by (auto simp: guard_def)

lemma option_eqI: "(\<And>v. x = Some v \<longleftrightarrow> y = Some v) \<Longrightarrow> x = y"
  by (cases x; cases y) auto

section \<open>Bytes in memory\<close>

text \<open>
  \<open>le_bytes n w\<close> is the memory image of the integer \<open>w\<close> of \<open>n\<close> bytes on a little-endian
  machine; \<open>word_of_le\<close> reads one back (\<^verbatim>\<open>memcpy\<close> into an integer).
\<close>

definition le_bytes :: "nat \<Rightarrow> 'a::len word \<Rightarrow> bytes" where
  "le_bytes n w = map (\<lambda>i. ucast (drop_bit (8 * i) w)) [0..<n]"

fun word_of_le :: "bytes \<Rightarrow> 'a::len word" where
  "word_of_le [] = 0"
| "word_of_le (b # bs) = ucast b OR push_bit 8 (word_of_le bs)"

lemma length_le_bytes [simp]: "length (le_bytes n w) = n"
  by (simp add: le_bytes_def)

lemma le_bytes_eq_Nil [simp]: "le_bytes n w = [] \<longleftrightarrow> n = 0"
  by (simp add: le_bytes_def)

lemma bit_word_of_le:
  "bit (word_of_le bs :: 'a::len word) n \<longleftrightarrow>
     n < LENGTH('a) \<and> n div 8 < length bs \<and> bit (bs ! (n div 8)) (n mod 8)"
proof (induction bs arbitrary: n)
  case Nil
  then show ?case by simp
next
  case (Cons b bs)
  show ?case
  proof (cases "n < 8")
    case True
    then show ?thesis
      by (auto simp: bit_or_iff bit_push_bit_iff bit_ucast_iff dest: bit_imp_le_length)
  next
    case False
    then have "n div 8 = Suc ((n - 8) div 8)" and "n mod 8 = (n - 8) mod 8"
      by (auto simp: le_div_geq le_mod_geq)
    moreover have "\<not> bit b n"
      using False by (auto dest: bit_imp_le_length)
    ultimately show ?thesis
      using False Cons.IH [of "n - 8"]
      by (auto simp: bit_or_iff bit_push_bit_iff bit_ucast_iff)
  qed
qed

text \<open>Writing an integer to memory and reading it back gives the integer.\<close>

lemma word_of_le_bytes:
  fixes w :: "'a::len word"
  assumes "LENGTH('a) \<le> 8 * n"
  shows "word_of_le (le_bytes n w) = w"
proof (rule bit_word_eqI)
  fix k assume k: "k < LENGTH('a)"
  then have "k div 8 < n" using assms by (simp add: less_mult_imp_div_less mult.commute)
  then show "bit (word_of_le (le_bytes n w) :: 'a word) k \<longleftrightarrow> bit w k"
    using k by (simp add: bit_word_of_le le_bytes_def bit_ucast_iff bit_drop_bit_eq)
qed

lemma word_of_le_bytes_simps [simp]:
  "word_of_le (le_bytes 1 (w8 :: u8)) = w8"
  "word_of_le (le_bytes (Suc 0) (w8 :: u8)) = w8"
  "word_of_le (le_bytes 2 (w16 :: u16)) = w16"
  "word_of_le (le_bytes 4 (w32 :: u32)) = w32"
  "word_of_le (le_bytes 8 (w64 :: u64)) = w64"
  by (simp_all add: word_of_le_bytes)

lemma le_bytes_inj:
  fixes v w :: "'a::len word"
  assumes "LENGTH('a) \<le> 8 * n"
  shows "le_bytes n v = le_bytes n w \<longleftrightarrow> v = w"
  using word_of_le_bytes [OF assms, of v] word_of_le_bytes [OF assms, of w] by metis

text \<open>Reading \<open>n\<close> bytes into an \<open>n\<close>-byte integer and looking at its memory gives the bytes.\<close>

lemma le_bytes_word_of_le:
  assumes "8 * length bs \<le> LENGTH('a::len)"
  shows "le_bytes (length bs) (word_of_le bs :: 'a word) = bs"
proof (rule nth_equalityI)
  fix i assume "i < length (le_bytes (length bs) (word_of_le bs :: 'a word))"
  then have i: "i < length bs" by simp
  show "le_bytes (length bs) (word_of_le bs :: 'a word) ! i = bs ! i"
  proof (rule bit_word_eqI)
    fix k assume k: "k < LENGTH(8)"
    then have "(8 * i + k) div 8 = i" "(8 * i + k) mod 8 = k" by auto
    then show "bit (le_bytes (length bs) (word_of_le bs :: 'a word) ! i) k \<longleftrightarrow> bit (bs ! i) k"
      using i k assms by (simp add: le_bytes_def bit_ucast_iff bit_drop_bit_eq bit_word_of_le)
  qed
qed simp

text \<open>Big-endian numbers, as the protocol has them on the wire.\<close>

fun be_nat :: "bytes \<Rightarrow> nat" where
  "be_nat [] = 0"
| "be_nat (b # bs) = unat b * 256 ^ length bs + be_nat bs"

definition word_of_be :: "bytes \<Rightarrow> 'a::len word" where
  "word_of_be bs = word_of_le (rev bs)"

definition be_bytes :: "nat \<Rightarrow> 'a::len word \<Rightarrow> bytes" where
  "be_bytes n w = rev (le_bytes n w)"

lemma length_be_bytes [simp]: "length (be_bytes n w) = n"
  by (simp add: be_bytes_def)

lemma word_of_be_bytes:
  "LENGTH('a) \<le> 8 * n \<Longrightarrow> word_of_be (be_bytes n (w :: 'a::len word)) = w"
  by (simp add: word_of_be_def be_bytes_def word_of_le_bytes)

lemma be_nat_less: "be_nat bs < 256 ^ length bs"
proof (induction bs)
  case (Cons b bs)
  have "unat b < 2 ^ LENGTH(8)" by (rule unsigned_less)
  then have "unat b \<le> 255" by simp
  then have "unat b * 256 ^ length bs \<le> 255 * 256 ^ length bs" by (rule mult_le_mono1)
  with Cons have "unat b * 256 ^ length bs + be_nat bs < 256 * 256 ^ length bs" by linarith
  then show ?case by simp
qed simp

text \<open>
  \<^verbatim>\<open>memcmp\<close>: the sign of the first difference, bytes compared as unsigned.
\<close>

fun memcmp :: "bytes \<Rightarrow> bytes \<Rightarrow> int" where
  "memcmp (x # xs) (y # ys) = (if x < y then -1 else if y < x then 1 else memcmp xs ys)"
| "memcmp _ _ = 0"

lemma be_nat_Cons_less:
  assumes "length xs = length ys" and "x < y"
  shows "be_nat (x # xs) < be_nat (y # ys)"
proof -
  from assms(2) have "unat x + 1 \<le> unat y" by (simp add: word_less_nat_alt)
  then have "(unat x + 1) * 256 ^ length xs \<le> unat y * 256 ^ length xs" by (rule mult_le_mono1)
  moreover have "be_nat xs < 256 ^ length xs" by (rule be_nat_less)
  ultimately show ?thesis using assms(1) by simp
qed

text \<open>On blocks of one length \<^verbatim>\<open>memcmp\<close> is the order of the big-endian numbers.\<close>

lemma memcmp_less_iff:
  "length xs = length ys \<Longrightarrow> memcmp xs ys < 0 \<longleftrightarrow> be_nat xs < be_nat ys"
proof (induction xs ys rule: memcmp.induct)
  case (1 x xs y ys)
  then show ?case
    using be_nat_Cons_less [of xs ys x y] be_nat_Cons_less [of ys xs y x]
    by (cases x y rule: linorder_cases) auto
qed auto

lemma memcmp_swap: "memcmp ys xs = - memcmp xs ys"
  by (induction xs ys rule: memcmp.induct) auto

lemma memcmp_eq_0_iff:
  "length xs = length ys \<Longrightarrow> memcmp xs ys = 0 \<longleftrightarrow> xs = ys"
  by (induction xs ys rule: memcmp.induct) auto

text \<open>
  \<^verbatim>\<open>ntohl\<close>/\<^verbatim>\<open>htonl\<close> of a little-endian host reverse the bytes. A \<^verbatim>\<open>uint32_t\<close> \<^emph>\<open>in network byte
  order\<close> is one whose memory image is the big-endian number; \<^verbatim>\<open>ntohl\<close> is that number.
\<close>

definition ntohl :: "u32 \<Rightarrow> u32" where
  "ntohl w = word_of_be (le_bytes 4 w)"

definition htonl :: "u32 \<Rightarrow> u32" where
  "htonl w = word_of_le (be_bytes 4 w)"

definition memcmp_u32 :: "u32 \<Rightarrow> u32 \<Rightarrow> int" where
  "memcmp_u32 a b = memcmp (le_bytes 4 a) (le_bytes 4 b)"

lemma le_bytes_htonl: "le_bytes 4 (htonl w) = be_bytes 4 w"
  using le_bytes_word_of_le [of "be_bytes 4 w", where 'a = 32] by (simp add: htonl_def)

lemma ntohl_htonl [simp]: "ntohl (htonl w) = w"
  by (simp add: ntohl_def le_bytes_htonl word_of_be_bytes)

lemma be_bytes_ntohl: "be_bytes 4 (ntohl w) = le_bytes 4 w"
  using le_bytes_word_of_le [of "rev (le_bytes 4 w)", where 'a = 32]
  by (simp add: ntohl_def word_of_be_def be_bytes_def rev_swap)

lemma htonl_ntohl [simp]: "htonl (ntohl w) = w"
  by (simp add: htonl_def be_bytes_ntohl)

lemma ntohl_inject [simp]: "ntohl a = ntohl b \<longleftrightarrow> a = b"
  by (metis htonl_ntohl)

lemma be_nat_append: "be_nat (xs @ [b]) = 256 * be_nat xs + unat b"
  by (induction xs) (simp_all add: algebra_simps)

lemma unat_word_of_le:
  "8 * length bs \<le> LENGTH('a::len) \<Longrightarrow> unat (word_of_le bs :: 'a word) = be_nat (rev bs)"
proof (induction bs)
  case (Cons b bs)
  let ?w = "word_of_le bs :: 'a word"
  have IH: "unat ?w = be_nat (rev bs)" using Cons by simp
  have len: "8 \<le> LENGTH('a)" using Cons.prems by simp
  have "(ucast b :: 'a word) AND push_bit 8 ?w = 0"
    by (rule bit_word_eqI) (auto simp: bit_and_iff bit_push_bit_iff bit_ucast_iff dest: bit_imp_le_length)
  then have sum: "(word_of_le (b # bs) :: 'a word) = ucast b + push_bit 8 ?w"
    by (simp add: disjunctive_add_eq_or)
  have nb: "unat (ucast b :: 'a word) = unat b"
  proof -
    have "unat b < 2 ^ LENGTH(8)" by (rule unsigned_less)
    also have "(2 :: nat) ^ LENGTH(8) \<le> 2 ^ LENGTH('a)" using len by (intro power_increasing) auto
    finally show ?thesis by (simp add: unsigned_ucast_eq take_bit_nat_eq_self)
  qed
  have "be_nat (rev (b # bs)) < 256 ^ length (rev (b # bs))" by (rule be_nat_less)
  also have "(256 :: nat) ^ length (rev (b # bs)) = 2 ^ (8 * length (b # bs))"
    by (simp add: power_mult power_add)
  also have "\<dots> \<le> 2 ^ LENGTH('a)" using Cons.prems by (intro power_increasing) auto
  finally have bound: "256 * be_nat (rev bs) + unat b < 2 ^ LENGTH('a)" by (simp add: be_nat_append)
  have "unat (push_bit 8 ?w) = 256 * be_nat (rev bs)"
    using bound by (simp only: unsigned_push_bit_eq IH) (simp add: take_bit_nat_eq_self push_bit_eq_mult mult.commute)
  then show ?case using bound by (simp only: sum unat_word_ariths nb be_nat_append rev.simps) simp
qed simp

lemma be_nat_le_bytes: "be_nat (le_bytes 4 w) = unat (ntohl w)"
  using unat_word_of_le [of "rev (le_bytes 4 w)", where 'a = 32]
  by (simp add: ntohl_def word_of_be_def)

text \<open>
  Comparing two addresses in network byte order by \<^verbatim>\<open>memcmp\<close> is comparing the addresses.
\<close>

lemma memcmp_u32_less [byte_simps]: "memcmp_u32 a b < 0 \<longleftrightarrow> ntohl a < ntohl b"
  by (simp add: memcmp_u32_def memcmp_less_iff be_nat_le_bytes word_less_nat_alt)

lemma memcmp_u32_eq_0 [byte_simps]: "memcmp_u32 a b = 0 \<longleftrightarrow> a = b"
  by (simp add: memcmp_u32_def memcmp_eq_0_iff le_bytes_inj)

lemma memcmp_u32_le [byte_simps]: "memcmp_u32 a b \<le> 0 \<longleftrightarrow> ntohl a \<le> ntohl b"
  using memcmp_u32_less [of a b] memcmp_u32_eq_0 [of a b]
  by (auto simp: order_le_less)

lemma memcmp_u32_ge [byte_simps]: "memcmp_u32 a b \<ge> 0 \<longleftrightarrow> ntohl b \<le> ntohl a"
  using memcmp_u32_less [of a b] by (auto simp: not_less [symmetric])

section \<open>Bounded reads\<close>

text \<open>
  \<open>rd buf i\<close> is \<^verbatim>\<open>buf[i]\<close> of a block of \<open>length buf\<close> bytes; \<open>rd_block buf i n\<close> are the
  \<open>n\<close> bytes a \<^verbatim>\<open>memcpy\<close> from \<^verbatim>\<open>&buf[i]\<close> reads.
\<close>

definition rd :: "bytes \<Rightarrow> nat \<Rightarrow> u8 result" where
  "rd buf i = (if i < length buf then Inr (buf ! i) else Inl Out_of_bounds)"

definition rd_block :: "bytes \<Rightarrow> nat \<Rightarrow> nat \<Rightarrow> bytes result" where
  "rd_block buf i n =
     (if i + n \<le> length buf then Inr (take n (drop i buf)) else Inl Out_of_bounds)"

text \<open>\<^verbatim>\<open>(buf[i] << 8) + buf[i + 1]\<close> and its four-byte form, as the code reads numbers.\<close>

definition be16 :: "u8 \<Rightarrow> u8 \<Rightarrow> u16" where
  "be16 a b = push_bit 8 (ucast a) + ucast b"

definition be32 :: "u8 \<Rightarrow> u8 \<Rightarrow> u8 \<Rightarrow> u8 \<Rightarrow> u32" where
  "be32 a b c d = push_bit 24 (ucast a) + push_bit 16 (ucast b) + push_bit 8 (ucast c) + ucast d"

definition rd16 :: "bytes \<Rightarrow> nat \<Rightarrow> u16 result" where
  "rd16 buf i = rbind (rd buf i) (\<lambda>a. rbind (rd buf (i + 1)) (\<lambda>b. Inr (be16 a b)))"

definition rd32 :: "bytes \<Rightarrow> nat \<Rightarrow> u32 result" where
  "rd32 buf i =
     rbind (rd buf i) (\<lambda>a. rbind (rd buf (i + 1)) (\<lambda>b.
     rbind (rd buf (i + 2)) (\<lambda>c. rbind (rd buf (i + 3)) (\<lambda>d. Inr (be32 a b c d)))))"

text \<open>
  \<^verbatim>\<open>memcpy(&field, src, n)\<close> into a \<^verbatim>\<open>uint32_t\<close>: the first bytes of its memory are replaced; more
  than four overrun it.
\<close>

definition memcpy_u32 :: "u32 \<Rightarrow> bytes \<Rightarrow> u32 result" where
  "memcpy_u32 old bs =
     (if length bs \<le> 4 then Inr (word_of_le (bs @ drop (length bs) (le_bytes 4 old)))
      else Inl Buffer_overflow)"

lemma memcpy_u32_le_bytes [simp]: "memcpy_u32 old (le_bytes 4 w) = Inr w"
  by (simp add: memcpy_u32_def)

lemma rd_drop: "drop i p = xs \<Longrightarrow> k < length xs \<Longrightarrow> rd p (i + k) = Inr (xs ! k)"
  by (auto simp: rd_def)

lemma rd_drop_0: "drop i p = x # xs \<Longrightarrow> rd p i = Inr x"
  using rd_drop [of i p "x # xs" 0] by simp

lemma rd_block_drop: "drop i p = xs @ ys \<Longrightarrow> xs \<noteq> [] \<Longrightarrow> rd_block p i (length xs) = Inr xs"
  using length_drop [of i p] by (cases xs) (auto simp: rd_block_def)

lemma drop_append_shift: "drop i p = xs @ ys \<Longrightarrow> drop (i + length xs) p = ys"
  by (metis add.commute append_eq_conv_conj drop_drop)

lemma rd_Inr_less: "rd p i = Inr x \<Longrightarrow> i < length p"
  by (auto simp: rd_def split: if_splits)

lemma replicate_numeral [eval_simps]: "replicate (numeral k) x = x # replicate (pred_numeral k) x"
  by (simp add: numeral_eq_Suc)

lemma le_bytes_evals [eval_simps]:
  "le_bytes 1 w = [ucast w]" "le_bytes 2 w = [ucast w, ucast (drop_bit 8 w)]"
  "le_bytes 4 w = [ucast w, ucast (drop_bit 8 w), ucast (drop_bit 16 w), ucast (drop_bit 24 w)]"
  by (simp_all add: le_bytes_def upt_rec)

lemma be_bytes_2: "be_bytes 2 w = [ucast (drop_bit 8 w), ucast w]"
  by (simp add: be_bytes_def le_bytes_def upt_rec)

lemma be_bytes_4:
  "be_bytes 4 w = [ucast (drop_bit 24 w), ucast (drop_bit 16 w), ucast (drop_bit 8 w), ucast w]"
  by (simp add: be_bytes_def le_bytes_def upt_rec)

lemma be16_bytes [simp]: "be16 (ucast (drop_bit 8 w)) (ucast w) = w"
proof -
  have "push_bit 8 (ucast (ucast (drop_bit 8 w) :: u8)) AND (ucast (ucast w :: u8) :: u16) = 0"
    by (rule bit_word_eqI) (auto simp: bit_simps)
  then show ?thesis
    unfolding be16_def
    by (subst disjunctive_add_eq_or) (auto intro!: bit_word_eqI simp: bit_simps)
qed

lemma be32_bytes [simp]:
  "be32 (ucast (drop_bit 24 w)) (ucast (drop_bit 16 w)) (ucast (drop_bit 8 w)) (ucast w) = w"
proof -
  let ?f = "\<lambda>k. push_bit k (ucast (ucast (drop_bit k w) :: u8) :: u32)"
  have "?f 24 AND ?f 16 = 0" "(?f 24 OR ?f 16) AND ?f 8 = 0"
    "((?f 24 OR ?f 16) OR ?f 8) AND ucast (ucast w :: u8) = 0"
    by (rule bit_word_eqI, auto simp: bit_simps)+
  then have eq: "be32 (ucast (drop_bit 24 w)) (ucast (drop_bit 16 w)) (ucast (drop_bit 8 w)) (ucast w)
      = ((?f 24 OR ?f 16) OR ?f 8) OR ucast (ucast w :: u8)"
    by (simp add: be32_def disjunctive_add_eq_or)
  show ?thesis unfolding eq
  proof (rule bit_word_eqI)
    fix n assume "n < LENGTH(32)"
    then consider "n < 8" | "8 \<le> n" "n < 16" | "16 \<le> n" "n < 24" | "24 \<le> n" "n < 32"
      by fastforce
    then show "bit (((?f 24 OR ?f 16) OR ?f 8) OR ucast (ucast w :: u8)) n \<longleftrightarrow> bit w n"
      by cases (simp_all add: bit_simps less_diff_conv2)
  qed
qed

lemma rd16_be: "drop i p = be_bytes 2 w @ xs \<Longrightarrow> rd16 p i = Inr w"
  using rd_drop [of i p "be_bytes 2 w @ xs" 1]
  by (auto simp: rd16_def be_bytes_2 rd_drop_0)

lemma rd32_be: "drop i p = be_bytes 4 w @ xs \<Longrightarrow> rd32 p i = Inr w"
  using rd_drop [of i p "be_bytes 4 w @ xs" 1] rd_drop [of i p "be_bytes 4 w @ xs" 2]
    rd_drop [of i p "be_bytes 4 w @ xs" 3]
  by (auto simp: rd32_def be_bytes_4 rd_drop_0)

text \<open>The words \<^verbatim>\<open>a[0]\<close> to \<^verbatim>\<open>a[n - 1]\<close> of an array that may be a null pointer.\<close>

definition array_read :: "nat \<Rightarrow> 'a list option \<Rightarrow> 'a list result" where
  "array_read n a =
     (if n = 0 then Inr []
      else case a of
             None \<Rightarrow> Inl Null_pointer
           | Some xs \<Rightarrow> if n \<le> length xs then Inr (take n xs) else Inl Out_of_bounds)"

lemma array_read_full: "length xs = n \<Longrightarrow> array_read n (Some xs) = Inr xs"
  by (cases "n = 0") (simp_all add: array_read_def)

lemma array_read_0 [simp]: "array_read 0 a = Inr []"
  by (simp add: array_read_def)

section \<open>Lists of results and of texts\<close>

fun rmap :: "('a \<Rightarrow> 'b result) \<Rightarrow> 'a list \<Rightarrow> 'b list result" where
  "rmap f [] = Inr []"
| "rmap f (x # xs) = rbind (f x) (\<lambda>y. rbind (rmap f xs) (\<lambda>ys. Inr (y # ys)))"

lemma rmap_Inr [simp]: "rmap (\<lambda>x. Inr (f x)) xs = Inr (map f xs)"
  by (induction xs) simp_all

lemma rmap_cong [fundef_cong]: "xs = ys \<Longrightarrow> (\<And>x. x \<in> set ys \<Longrightarrow> f x = g x) \<Longrightarrow> rmap f xs = rmap g ys"
  by (induction ys arbitrary: xs) auto

lemma rmap_defined: "(\<exists>ys. rmap f xs = Inr ys) \<longleftrightarrow> (\<forall>x \<in> set xs. \<exists>y. f x = Inr y)"
  by (induction xs) (auto simp: rbind_eq_Inr)

text \<open>A loop that writes a separator after every element but the last.\<close>

fun join :: "string \<Rightarrow> string list \<Rightarrow> string" where
  "join sep [] = []"
| "join sep [x] = x"
| "join sep (x # y # xs) = x @ sep @ join sep (y # xs)"

end
