(* ===== verification/Tcp_Client.thy ===== *)
theory Tcp_Client
  imports Prelude
begin

text \<open>
  The connection of \<^verbatim>\<open>include/tcp_client.h\<close> and \<^verbatim>\<open>src/tcp_client.cpp\<close>. A \<^verbatim>\<open>FILE *\<close> is an
  option; the receiving stream is the bytes that will still arrive before the remote end
  closes, with its end-of-file indicator, the sending stream the bytes written and not yet
  flushed. What the operating system answers (addresses, sockets, \<^verbatim>\<open>fdopen\<close>, \<^verbatim>\<open>setvbuf\<close>,
  \<^verbatim>\<open>setsockopt\<close>) is an argument. The operations work on every extension of the record, as
  the class is inherited by \<^verbatim>\<open>bgp_peer\<close>.
\<close>

record rx_stream =
  rx_data :: bytes
  rx_eof :: bool

record tcp_client =
  tcp_socket :: int
  tcp_rx_socket_buffer_size :: int
  tcp_tx_socket_buffer_size :: int
  bgp_tx_buffer_size :: int
  bgp_rx_buffer_size :: int
  tx :: "bytes option"
  rx :: "rx_stream option"
  sent :: bytes   \<comment> \<open>what has been handed to the network\<close>

definition DEFAULT_TCP_BUFFER_SIZE :: int where "DEFAULT_TCP_BUFFER_SIZE = 14600"
definition DEFAULT_BGP_BUFFER_SIZE :: int where "DEFAULT_BGP_BUFFER_SIZE = 4096"

definition new_tcp_client :: tcp_client where
  "new_tcp_client = \<lparr>tcp_socket = 0,
     tcp_rx_socket_buffer_size = DEFAULT_TCP_BUFFER_SIZE,
     tcp_tx_socket_buffer_size = DEFAULT_TCP_BUFFER_SIZE,
     bgp_tx_buffer_size = DEFAULT_BGP_BUFFER_SIZE,
     bgp_rx_buffer_size = DEFAULT_BGP_BUFFER_SIZE,
     tx = None, rx = None, sent = []\<rparr>"

section \<open>Connecting\<close>

text \<open>
  What the system answers to one attempt: the addresses of \<^verbatim>\<open>getaddrinfo\<close> (\<open>None\<close> when it
  fails), for each the descriptor \<^verbatim>\<open>socket\<close> returns and whether \<^verbatim>\<open>::connect\<close> succeeds, the two
  \<^verbatim>\<open>fdopen\<close> calls, and the bytes the remote end sends on this connection.
\<close>

record connect_env =
  env_addrs :: "(int \<times> bool) list option"
  env_fdopen_tx :: bool
  env_fdopen_rx :: bool
  env_data :: bytes

text \<open>The loop over the addresses: the last value of \<^verbatim>\<open>tcp_socket\<close> and whether one connected.\<close>

fun connect_loop :: "(int \<times> bool) list \<Rightarrow> int \<Rightarrow> int \<times> bool" where
  "connect_loop [] sock = (sock, False)"
| "connect_loop ((fd, ok) # addrs) sock =
     (if fd = -1 then connect_loop addrs fd
      else if ok then (fd, True)
      else connect_loop addrs fd)"

definition connect :: "connect_env \<Rightarrow> 'a tcp_client_scheme \<Rightarrow> bool \<times> 'a tcp_client_scheme" where
  "connect env c =
     (case env_addrs env of
        None \<Rightarrow> (False, c)
      | Some addrs \<Rightarrow>
          if addrs = [] then (False, c)
          else
            (let (sock, rc) = connect_loop addrs (tcp_socket c); c1 = c\<lparr>tcp_socket := sock\<rparr>
             in if \<not> rc then (False, c1)
                else (True, c1\<lparr>
                  tx := (if env_fdopen_tx env then Some [] else None),
                  rx := (if env_fdopen_rx env then Some \<lparr>rx_data = env_data env, rx_eof = False\<rparr>
                         else None)\<rparr>)))"

text \<open>
  The descriptor is closed before \<^verbatim>\<open>fclose\<close>, so what was written and not flushed is lost.
\<close>

definition disconnect :: "'a tcp_client_scheme \<Rightarrow> 'a tcp_client_scheme" where
  "disconnect c = c\<lparr>tx := None, rx := None\<rparr>"

definition connected :: "'a tcp_client_scheme \<Rightarrow> bool" where
  "connected c \<longleftrightarrow>
     (case rx c of None \<Rightarrow> False | Some r \<Rightarrow> tx c \<noteq> None \<and> tcp_socket c > 0 \<and> \<not> rx_eof r)"

section \<open>Buffer sizes\<close>

text \<open>\<^verbatim>\<open>setvbuf\<close> of a null stream is undefined; \<open>ok\<close> is whether the call succeeds.\<close>

definition set_bgp_tx_buffer_size :: "bool \<Rightarrow> int \<Rightarrow> 'a tcp_client_scheme \<Rightarrow> (bool \<times> 'a tcp_client_scheme) result" where
  "set_bgp_tx_buffer_size ok n c =
     rbind (guard Null_pointer (tx c \<noteq> None)) (\<lambda>_. Inr (ok, c\<lparr>bgp_tx_buffer_size := n\<rparr>))"

definition set_bgp_rx_buffer_size :: "bool \<Rightarrow> int \<Rightarrow> 'a tcp_client_scheme \<Rightarrow> (bool \<times> 'a tcp_client_scheme) result" where
  "set_bgp_rx_buffer_size ok n c =
     rbind (guard Null_pointer (rx c \<noteq> None)) (\<lambda>_. Inr (ok, c\<lparr>bgp_rx_buffer_size := n\<rparr>))"

definition set_tcp_tx_buffer_size :: "bool \<Rightarrow> int \<Rightarrow> 'a tcp_client_scheme \<Rightarrow> bool \<times> 'a tcp_client_scheme" where
  "set_tcp_tx_buffer_size ok n c = (ok, c\<lparr>tcp_tx_socket_buffer_size := n\<rparr>)"

definition set_tcp_rx_buffer_size :: "bool \<Rightarrow> int \<Rightarrow> 'a tcp_client_scheme \<Rightarrow> bool \<times> 'a tcp_client_scheme" where
  "set_tcp_rx_buffer_size ok n c = (ok, c\<lparr>tcp_rx_socket_buffer_size := n\<rparr>)"

text \<open>The combined setters: the result of \<^verbatim>\<open>setsockopt\<close> is overwritten by that of \<^verbatim>\<open>setvbuf\<close>.\<close>

definition set_tcp_bgp_rx_buffer_size ::
    "bool \<Rightarrow> bool \<Rightarrow> int \<Rightarrow> int \<Rightarrow> 'a tcp_client_scheme \<Rightarrow> (bool \<times> 'a tcp_client_scheme) result" where
  "set_tcp_bgp_rx_buffer_size sock_ok buf_ok tcp_size bgp_size c =
     rbind (guard Null_pointer (rx c \<noteq> None)) (\<lambda>_.
       Inr (buf_ok, c\<lparr>tcp_rx_socket_buffer_size := tcp_size, bgp_rx_buffer_size := bgp_size\<rparr>))"

definition set_tcp_bgp_tx_buffer_size ::
    "bool \<Rightarrow> bool \<Rightarrow> int \<Rightarrow> int \<Rightarrow> 'a tcp_client_scheme \<Rightarrow> (bool \<times> 'a tcp_client_scheme) result" where
  "set_tcp_bgp_tx_buffer_size sock_ok buf_ok tcp_size bgp_size c =
     rbind (guard Null_pointer (tx c \<noteq> None)) (\<lambda>_.
       Inr (buf_ok, c\<lparr>tcp_tx_socket_buffer_size := tcp_size, bgp_tx_buffer_size := bgp_size\<rparr>))"

section \<open>Input and output\<close>

text \<open>
  \<^verbatim>\<open>read(data, 1, n)\<close>: \<open>None\<close> is the \<^verbatim>\<open>(size_t) -1\<close> of a connection that is down, otherwise
  the bytes \<^verbatim>\<open>fread\<close> stores.
\<close>

definition tcp_read :: "nat \<Rightarrow> 'a tcp_client_scheme \<Rightarrow> bytes option \<times> 'a tcp_client_scheme" where
  "tcp_read n c =
     (if connected c then
        (case rx c of
           None \<Rightarrow> (None, c)
         | Some r \<Rightarrow>
             (let bs = take n (rx_data r)
              in (Some bs, c\<lparr>rx := Some \<lparr>rx_data = drop n (rx_data r), rx_eof = (length bs < n)\<rparr>\<rparr>)))
      else (None, c))"

definition read_char :: "'a tcp_client_scheme \<Rightarrow> u8 option \<times> 'a tcp_client_scheme" where
  "read_char c =
     (case tcp_read 1 c of
        (None, c') \<Rightarrow> (None, c')
      | (Some bs, c') \<Rightarrow> (case bs of [] \<Rightarrow> (None, c') | b # _ \<Rightarrow> (Some b, c')))"

definition tcp_write :: "bytes \<Rightarrow> 'a tcp_client_scheme \<Rightarrow> 'a tcp_client_scheme" where
  "tcp_write bs c = (if connected c then c\<lparr>tx := map_option (\<lambda>p. p @ bs) (tx c)\<rparr> else c)"

text \<open>\<^verbatim>\<open>write_formated("%c%c", a, b)\<close>: \<^verbatim>\<open>%c\<close> writes its argument as an \<^verbatim>\<open>unsigned char\<close>.\<close>

definition write_formated :: "32 word \<Rightarrow> 32 word \<Rightarrow> 'a tcp_client_scheme \<Rightarrow> 'a tcp_client_scheme" where
  "write_formated a b c = tcp_write [ucast a, ucast b] c"

text \<open>\<^verbatim>\<open>fflush\<close>; of a null pointer it flushes the other streams and nothing of this one.\<close>

definition tx_flush :: "'a tcp_client_scheme \<Rightarrow> 'a tcp_client_scheme" where
  "tx_flush c =
     (case tx c of None \<Rightarrow> c | Some p \<Rightarrow> c\<lparr>sent := sent c @ p, tx := Some []\<rparr>)"

section \<open>Facts\<close>

lemma connected_disconnect [simp]: "\<not> connected (disconnect c)"
  by (simp add: connected_def disconnect_def)

lemma connected_tx: "connected c \<Longrightarrow> \<exists>p. tx c = Some p"
  by (auto simp: connected_def split: option.splits)

lemma connected_write [simp]: "connected (tcp_write bs c) = connected c"
  by (simp add: tcp_write_def connected_def split: option.splits)

lemma connected_tx_flush [simp]: "connected (tx_flush c) = connected c"
  by (simp add: tx_flush_def connected_def split: option.splits)

lemma write_write: "connected c \<Longrightarrow> tcp_write bs' (tcp_write bs c) = tcp_write (bs @ bs') c"
  by (auto simp: tcp_write_def connected_def split: option.splits)

lemma sent_write_flush:
  "connected c \<Longrightarrow> tx c = Some [] \<Longrightarrow>
     tx_flush (tcp_write bs c) = c\<lparr>sent := sent c @ bs\<rparr>"
  by (simp add: tcp_write_def tx_flush_def)

lemma write_not_connected [simp]: "\<not> connected c \<Longrightarrow> tcp_write bs c = c"
  by (simp add: tcp_write_def)

text \<open>
  A successful connection has a socket, but its streams only when \<^verbatim>\<open>fdopen\<close> gave them: a failure
  of \<^verbatim>\<open>fdopen\<close> is reported as success, because \<^verbatim>\<open>rc\<close> is already true.
\<close>

lemma connect_loop_True: "connect_loop addrs sock = (fd, True) \<Longrightarrow> (fd, True) \<in> set addrs \<and> fd \<noteq> -1"
  by (induction addrs sock rule: connect_loop.induct) (auto split: if_splits)

lemma connect_True:
  "connect env c = (True, c') \<Longrightarrow>
     \<exists>addrs. env_addrs env = Some addrs \<and> (tcp_socket c', True) \<in> set addrs
       \<and> (rx c' \<noteq> None \<longleftrightarrow> env_fdopen_rx env) \<and> (tx c' \<noteq> None \<longleftrightarrow> env_fdopen_tx env)"
  by (auto simp: connect_def Let_def split: option.splits if_splits prod.splits dest: connect_loop_True)

end
