(* ===== verification/Ipv4.thy ===== *)
theory Ipv4
  imports Prelude
begin

text \<open>
  Addresses and prefix ranges: \<^verbatim>\<open>get_ipv4_high_range\<close> of \<^verbatim>\<open>src/bgp_update.cpp\<close>, the range test
  by \<^verbatim>\<open>memcmp\<close> with which the CLI and the API look a prefix up, and the proof that on a
  canonical prefix the test is membership in the CIDR block. Addresses are \<^verbatim>\<open>uint32_t\<close> in
  network byte order.
\<close>

text \<open>The address \<open>a.b.c.d\<close> in network byte order: its memory image is the four octets.\<close>

definition quad :: "u8 \<Rightarrow> u8 \<Rightarrow> u8 \<Rightarrow> u8 \<Rightarrow> u32" where
  "quad a b c d = word_of_le [a, b, c, d]"

text \<open>
  \<^verbatim>\<open>0xFFFFFFFF << (32 - length)\<close> is defined for shift amounts 0 to 31 only.
\<close>

definition get_ipv4_high_range :: "u32 \<Rightarrow> u8 \<Rightarrow> u32 result" where
  "get_ipv4_high_range pfx len =
     (let shift = 32 - int (unat len) in
      if 0 \<le> shift \<and> shift < 32 then
        (let net_mask = push_bit (nat shift) (0xFFFFFFFF :: u32);
             temp_range = ntohl pfx OR NOT net_mask
         in Inr (htonl temp_range))
      else Inl Bad_shift)"

text \<open>\<^verbatim>\<open>memcmp(&prefix, &ip, 4) <= 0 && memcmp(&prefix_highest, &ip, 4) >= 0\<close>\<close>

definition in_prefix_range :: "u32 \<Rightarrow> u32 \<Rightarrow> u32 \<Rightarrow> bool" where
  "in_prefix_range pfx highest ip \<longleftrightarrow> memcmp_u32 pfx ip \<le> 0 \<and> memcmp_u32 highest ip \<ge> 0"

text \<open>The network part of an address, and prefixes whose host part is zero.\<close>

definition network_part :: "u8 \<Rightarrow> u32 \<Rightarrow> u32" where
  "network_part len a = drop_bit (32 - unat len) (ntohl a)"

definition canonical_prefix :: "u32 \<Rightarrow> u8 \<Rightarrow> bool" where
  "canonical_prefix pfx len \<longleftrightarrow> take_bit (32 - unat len) (ntohl pfx) = 0"

section \<open>The range of a prefix\<close>

lemma get_ipv4_high_range_eq:
  "get_ipv4_high_range pfx len =
     (if 1 \<le> unat len \<and> unat len \<le> 32
      then Inr (htonl (ntohl pfx OR mask (32 - unat len))) else Inl Bad_shift)"
proof -
  have "NOT (push_bit k (0xFFFFFFFF :: u32)) = mask k" for k
  proof (rule bit_word_eqI)
    fix n assume n: "n < LENGTH(32)"
    have "bit (0xFFFFFFFF :: u32) m" if "m < 32" for m
    proof -
      have "(0xFFFFFFFF :: u32) = mask 32" by (simp add: mask_eq_exp_minus_1)
      moreover have "bit (mask 32 :: u32) m" using that by (simp only: bit_mask_iff) simp
      ultimately show ?thesis by simp
    qed
    then show "bit (NOT (push_bit k (0xFFFFFFFF :: u32))) n \<longleftrightarrow> bit (mask k :: u32) n"
      using n by (auto simp: bit_not_iff bit_push_bit_iff bit_mask_iff)
  qed
  moreover have "nat (32 - int n) = 32 - n"
    "0 \<le> 32 - int n \<and> 32 - int n < 32 \<longleftrightarrow> 1 \<le> n \<and> n \<le> 32" for n by auto
  ultimately show ?thesis by (simp only: get_ipv4_high_range_def Let_def)
qed

lemma unat_drop_bit: "unat (drop_bit k (w :: u32)) = unat w div 2 ^ k"
  unfolding unat_drop_bit_eq by (simp add: drop_bit_eq_div)

lemma unat_take_bit: "unat (take_bit k (w :: u32)) = unat w mod 2 ^ k"
  unfolding unsigned_take_bit_eq by (simp add: take_bit_eq_mod)

lemma drop_bit_mono: "a \<le> b \<Longrightarrow> drop_bit k (a :: u32) \<le> drop_bit k b"
  by (simp only: word_le_nat_alt unat_drop_bit div_le_mono)

lemma drop_bit_or_mask: "drop_bit k (a OR mask k :: u32) = drop_bit k a"
  by (rule bit_word_eqI) (auto simp: bit_drop_bit_eq bit_or_iff bit_mask_iff)

lemma take_bit_or_mask: "take_bit k (a OR mask k :: u32) = mask k"
  by (rule bit_word_eqI) (auto simp: bit_take_bit_iff bit_or_iff bit_mask_iff)

lemma in_prefix_range_iff:
  "in_prefix_range pfx highest ip \<longleftrightarrow> ntohl pfx \<le> ntohl ip \<and> ntohl ip \<le> ntohl highest"
  by (simp add: in_prefix_range_def byte_simps)

lemma range_network_part:
  assumes "P \<le> X" and "X \<le> P OR mask k"
  shows "drop_bit k X = drop_bit k (P :: u32)"
  using drop_bit_mono [OF assms(1), of k] drop_bit_mono [OF assms(2), of k, unfolded drop_bit_or_mask]
  by (rule order.antisym [rotated])

lemma network_part_range:
  assumes k: "k < 32" and low: "take_bit k (P :: u32) = 0" and eq: "drop_bit k X = drop_bit k P"
  shows "P \<le> X" and "X \<le> P OR mask k"
proof -
  have split: "unat w = unat (drop_bit k w) * 2 ^ k + unat (take_bit k w)" for w :: u32
    by (simp only: unat_drop_bit unat_take_bit div_mult_mod_eq)
  show "P \<le> X"
    using split [of P] split [of X] low eq by (simp add: word_le_nat_alt)
  have "unat (take_bit k X) < 2 ^ k"
    by (simp only: unat_take_bit) simp
  moreover have "unat (mask k :: u32) = 2 ^ k - 1"
  proof -
    have "unat (mask k :: u32) = mask k"
      using k by (intro bit_eqI) (auto simp: bit_unsigned_iff bit_mask_iff)
    then show ?thesis by (simp add: mask_eq_exp_minus_1)
  qed
  ultimately show "X \<le> P OR mask k"
    using split [of "P OR mask k"] split [of X]
    by (simp only: word_le_nat_alt drop_bit_or_mask take_bit_or_mask eq)
qed

text \<open>An address the range test accepts lies in the block.\<close>

lemma high_range_sound:
  assumes "get_ipv4_high_range pfx len = Inr highest" and "in_prefix_range pfx highest ip"
  shows "network_part len ip = network_part len pfx"
  using assms range_network_part
  by (auto simp: get_ipv4_high_range_eq in_prefix_range_iff network_part_def split: if_splits)

text \<open>On a canonical prefix the test accepts the whole block and nothing else.\<close>

lemma high_range_exact:
  assumes "get_ipv4_high_range pfx len = Inr highest" and "canonical_prefix pfx len"
  shows "in_prefix_range pfx highest ip \<longleftrightarrow> network_part len ip = network_part len pfx"
proof -
  from assms(1) have len: "1 \<le> unat len" "unat len \<le> 32"
    and h: "highest = htonl (ntohl pfx OR mask (32 - unat len))"
    by (auto simp: get_ipv4_high_range_eq split: if_splits)
  define k where "k = 32 - unat len"
  have k: "k < 32" using len by (simp add: k_def)
  have low: "take_bit k (ntohl pfx) = 0" using assms(2) by (simp add: canonical_prefix_def k_def)
  have "ntohl pfx \<le> ntohl ip \<and> ntohl ip \<le> ntohl pfx OR mask k
      \<longleftrightarrow> drop_bit k (ntohl ip) = drop_bit k (ntohl pfx)"
    using range_network_part [of "ntohl pfx" "ntohl ip" k] network_part_range [OF k low] by blast
  then show ?thesis by (simp only: in_prefix_range_iff network_part_def h ntohl_htonl k_def)
qed

lemma high_range_defined:
  "(\<exists>h. get_ipv4_high_range pfx len = Inr h) \<longleftrightarrow> 1 \<le> unat len \<and> unat len \<le> 32"
  by (simp add: get_ipv4_high_range_eq)

end
