(* ===== verification/Bgp_Msg.thy ===== *)
theory Bgp_Msg
  imports Prelude
begin

text \<open>
  The data of \<^verbatim>\<open>include/bgp_msg.h\<close> and the tables of \<^verbatim>\<open>include/bgp_msg_text.h\<close>: message,
  attribute and error codes, the NLRI and UPDATE structures with their constructors, the
  deep copy \<^verbatim>\<open>bgp_update::assign\<close>, and the comparison operators. A pointer is an option
  (\<open>None\<close> is \<^verbatim>\<open>nullptr\<close>), an array of \<open>n\<close> words a list.
\<close>

section \<open>Codes\<close>

datatype bgp_msg_type = Msg_open | Msg_update | Msg_notification | Msg_keepalive | Msg_routerefresh

fun msg_type_code :: "bgp_msg_type \<Rightarrow> u8" where
  "msg_type_code Msg_open = 1"
| "msg_type_code Msg_update = 2"
| "msg_type_code Msg_notification = 3"
| "msg_type_code Msg_keepalive = 4"
| "msg_type_code Msg_routerefresh = 5"

text \<open>The cast of a byte to the enumeration; \<open>None\<close> is a value without an enumerator.\<close>

definition msg_type_of :: "u8 \<Rightarrow> bgp_msg_type option" where
  "msg_type_of c =
     (if c = 1 then Some Msg_open else if c = 2 then Some Msg_update
      else if c = 3 then Some Msg_notification else if c = 4 then Some Msg_keepalive
      else if c = 5 then Some Msg_routerefresh else None)"

lemma msg_type_of_code [simp]: "msg_type_of (msg_type_code t) = Some t"
  by (cases t) (simp_all add: msg_type_of_def)

datatype bgp_path_attrib =
    Attr_bgp_id | Attr_origin | Attr_as_path | Attr_next_hop | Attr_multi_exit_disc
  | Attr_local_pref | Attr_atomic_aggregate | Attr_aggregator | Attr_community
  | Attr_originator | Attr_cluster_list | Attr_mp_reach_nlri | Attr_mp_unreach_nlri
  | Attr_as4_path | Attr_as4_aggregator

fun path_attrib_code :: "bgp_path_attrib \<Rightarrow> u8" where
  "path_attrib_code Attr_bgp_id = 0x00"
| "path_attrib_code Attr_origin = 0x01"
| "path_attrib_code Attr_as_path = 0x02"
| "path_attrib_code Attr_next_hop = 0x03"
| "path_attrib_code Attr_multi_exit_disc = 0x04"
| "path_attrib_code Attr_local_pref = 0x05"
| "path_attrib_code Attr_atomic_aggregate = 0x06"
| "path_attrib_code Attr_aggregator = 0x07"
| "path_attrib_code Attr_community = 0x08"
| "path_attrib_code Attr_originator = 0x09"
| "path_attrib_code Attr_cluster_list = 0x0A"
| "path_attrib_code Attr_mp_reach_nlri = 0x0E"
| "path_attrib_code Attr_mp_unreach_nlri = 0x0F"
| "path_attrib_code Attr_as4_path = 0x11"
| "path_attrib_code Attr_as4_aggregator = 0x12"

definition path_attribs :: "bgp_path_attrib list" where
  "path_attribs =
     [Attr_bgp_id, Attr_origin, Attr_as_path, Attr_next_hop, Attr_multi_exit_disc,
      Attr_local_pref, Attr_atomic_aggregate, Attr_aggregator, Attr_community,
      Attr_originator, Attr_cluster_list, Attr_mp_reach_nlri, Attr_mp_unreach_nlri,
      Attr_as4_path, Attr_as4_aggregator]"

definition path_attrib_of :: "u8 \<Rightarrow> bgp_path_attrib option" where
  "path_attrib_of c = find (\<lambda>a. path_attrib_code a = c) path_attribs"

lemma path_attrib_of_code [simp]: "path_attrib_of (path_attrib_code a) = Some a"
  by (cases a) (simp_all add: path_attrib_of_def path_attribs_def)

lemma path_attrib_code_inject: "path_attrib_code a = path_attrib_code b \<longleftrightarrow> a = b"
  by (metis option.inject path_attrib_of_code)

lemma path_attrib_of_Some: "path_attrib_of c = Some a \<Longrightarrow> path_attrib_code a = c"
  by (auto simp: path_attrib_of_def find_Some_iff)

text \<open>The enumeration is ordered by its values, as \<^verbatim>\<open>a.code < b.code\<close> compares it.\<close>

instantiation bgp_path_attrib :: linorder
begin

definition less_eq_bgp_path_attrib :: "bgp_path_attrib \<Rightarrow> bgp_path_attrib \<Rightarrow> bool" where
  "less_eq_bgp_path_attrib a b \<longleftrightarrow> path_attrib_code a \<le> path_attrib_code b"

definition less_bgp_path_attrib :: "bgp_path_attrib \<Rightarrow> bgp_path_attrib \<Rightarrow> bool" where
  "less_bgp_path_attrib a b \<longleftrightarrow> path_attrib_code a < path_attrib_code b"

instance
  by standard
    (auto simp: less_eq_bgp_path_attrib_def less_bgp_path_attrib_def path_attrib_code_inject
      order.strict_iff_order dest: order.antisym)

end

definition as_set :: u8 where "as_set = 0x01"
definition as_sequence :: u8 where "as_sequence = 0x02"

datatype bgp_error_code =
  Err_msg_head | Err_open_msg | Err_update_msg | Err_hold_time_expired | Err_finite_state_mach | Err_cease

fun error_code :: "bgp_error_code \<Rightarrow> u8" where
  "error_code Err_msg_head = 1"
| "error_code Err_open_msg = 2"
| "error_code Err_update_msg = 3"
| "error_code Err_hold_time_expired = 4"
| "error_code Err_finite_state_mach = 5"
| "error_code Err_cease = 6"

datatype bgp_error_subcode =
  Sub_zero | Sub_connection_not_sync | Sub_bad_msg_len | Sub_bad_msg_type

fun error_subcode :: "bgp_error_subcode \<Rightarrow> u8" where
  "error_subcode Sub_zero = 0"
| "error_subcode Sub_connection_not_sync = 1"
| "error_subcode Sub_bad_msg_len = 2"
| "error_subcode Sub_bad_msg_type = 3"

datatype bgp_open_error_subcode =
  Osub_unsup_ver_num | Osub_bad_peer_as | Osub_bad_bgp_id | Osub_unsup_opt_param
| Osub_unacpt_hold_time | Osub_unsup_cap

fun open_error_subcode :: "bgp_open_error_subcode \<Rightarrow> u8" where
  "open_error_subcode Osub_unsup_ver_num = 1"
| "open_error_subcode Osub_bad_peer_as = 2"
| "open_error_subcode Osub_bad_bgp_id = 3"
| "open_error_subcode Osub_unsup_opt_param = 4"
| "open_error_subcode Osub_unacpt_hold_time = 6"
| "open_error_subcode Osub_unsup_cap = 7"

section \<open>Texts\<close>

text \<open>Tables of C strings; \<open>None\<close> is a \<^verbatim>\<open>NULL\<close> entry.\<close>

definition peer_state_text :: "string list" where
  "peer_state_text =
     [''Idle'', ''Connect'', ''Active'', ''Open Sent'', ''Open Confirm'', ''Established'',
      ''Deleted'', ''Clearing'']"

definition bgp_error_codes :: "string option list" where
  "bgp_error_codes =
     [None, Some ''message header error, '', Some ''open message error, '',
      Some ''update message error, '', Some ''hold timer expired'',
      Some ''finite state machine error'', Some ''(cease)'']"

definition bgp_error_sub_header :: "string option list" where
  "bgp_error_sub_header =
     [None, Some ''connection not synchronized'', Some ''bad message length'',
      Some ''bad message type'']"

definition bgp_error_sub_open :: "string option list" where
  "bgp_error_sub_open =
     [None, Some ''unsupported version number'', Some ''bad peer AS'',
      Some ''bad BGP identifier'', Some ''unsupported optional parameter'', None,
      Some ''unacceptable hold-timer'', Some ''unsupported capability'']"

definition bgp_error_sub_update :: "string option list" where
  "bgp_error_sub_update =
     [None, Some ''malformed attribute list'', Some ''unrecognized well-known attribute'',
      Some ''missing well-known attribute'', Some ''attribute flags error'',
      Some ''attribute length error'', Some ''invalid origin attribute'',
      Some ''AS routing Loop'', Some ''invalid NEXT_HOP attribute'',
      Some ''optional attribute error'', Some ''invalid network field'',
      Some ''malformed AS_PATH'']"

definition bgp_origin_code_text :: "string list" where
  "bgp_origin_code_text = [''i'', ''e'', ''?'']"

text \<open>\<^verbatim>\<open>std::string(table[i])\<close>: an index past the table or a \<^verbatim>\<open>NULL\<close> entry is no string.\<close>

definition table_string :: "string option list \<Rightarrow> u8 \<Rightarrow> string result" where
  "table_string t i =
     (if unat i < length t then
        (case t ! unat i of None \<Rightarrow> Inl Null_pointer | Some s \<Rightarrow> Inr s)
      else Inl Out_of_bounds)"

section \<open>NLRI and UPDATE\<close>

record as_path_segment =
  seg_type :: u8
  seg_length :: u8
  seg_value :: "u32 list option"

record aggregator_segment =
  aggr_as :: u32
  aggr_origin :: u32

record community_segment =
  comm_as :: u32
  comm_value :: u32

record bgp_nlri =
  nlri_bgp_id :: u32
  prefix :: u32
  prefix_highest :: u32
  subnet_mask :: u32
  prefix_length :: u8
  withdrawn :: u16
  received :: u16
  age :: time_t
  last_withdraw_time :: time_t

definition new_nlri :: bgp_nlri where
  "new_nlri = \<lparr>nlri_bgp_id = 0, prefix = 0, prefix_highest = 0, subnet_mask = 0,
     prefix_length = 0, withdrawn = 0, received = 0, age = 0, last_withdraw_time = 0\<rparr>"

datatype nlri_parse = Nlri_update | Nlri_withdraw

record bgp_update =
  flags :: u8
  origin :: u8
  as_path :: "as_path_segment option"
  as4_path :: "as_path_segment option"
  ipv4_next_hop :: u32
  med :: u32
  local_pref :: u32
  atomic_aggregate :: u8
  aggregator :: "aggregator_segment option"
  as4_aggregator :: "aggregator_segment option"
  com_seg_length :: u8
  community :: "community_segment list option"
  addr_family :: u16
  addr_family_id :: u8
  mp_nlri_nh_len :: u8
  subnetwork_points_of_attachment :: u8
  nlri :: bgp_nlri

text \<open>The default constructor.\<close>

definition new_update :: bgp_update where
  "new_update = \<lparr>flags = 0, origin = 0, as_path = None, as4_path = None, ipv4_next_hop = 0,
     med = 0, local_pref = 0, atomic_aggregate = 0, aggregator = None, as4_aggregator = None,
     com_seg_length = 0, community = None, addr_family = 0, addr_family_id = 0,
     mp_nlri_nh_len = 0, subnetwork_points_of_attachment = 0, nlri = new_nlri\<rparr>"

text \<open>
  \<^verbatim>\<open>assign\<close>: a fresh segment gets the type and the length, and an array of \<open>length\<close> words
  only when the length is positive (a fresh segment has \<open>seg_value = nullptr\<close>).
\<close>

definition copy_segment :: "as_path_segment \<Rightarrow> as_path_segment" where
  "copy_segment s = \<lparr>seg_type = seg_type s, seg_length = seg_length s,
     seg_value = (if seg_length s > 0
                  then map_option (take (unat (seg_length s))) (seg_value s) else None)\<rparr>"

definition assign :: "bgp_update \<Rightarrow> bgp_update \<Rightarrow> bgp_update" where
  "assign this orig = this\<lparr>
     flags := flags orig,
     origin := origin orig,
     ipv4_next_hop := ipv4_next_hop orig,
     med := med orig,
     local_pref := local_pref orig,
     atomic_aggregate := atomic_aggregate orig,
     com_seg_length := com_seg_length orig,
     addr_family := addr_family orig,
     addr_family_id := addr_family_id orig,
     mp_nlri_nh_len := mp_nlri_nh_len orig,
     subnetwork_points_of_attachment := subnetwork_points_of_attachment orig,
     as4_path := map_option copy_segment (as4_path orig),
     as_path := map_option copy_segment (as_path orig),
     aggregator := aggregator orig,
     as4_aggregator := as4_aggregator orig,
     community := (case community orig of
                     None \<Rightarrow> None
                   | Some cs \<Rightarrow> if com_seg_length orig > 0
                                then Some (take (unat (com_seg_length orig)) cs) else None),
     nlri := nlri orig\<rparr>"

definition free_all :: "bgp_update \<Rightarrow> bgp_update" where
  "free_all u = u\<lparr>aggregator := None, as4_aggregator := None, as4_path := None,
     as_path := None, community := None\<rparr>"

text \<open>The copy constructor and \<^verbatim>\<open>operator=\<close> (of two different objects).\<close>

definition copy_update :: "bgp_update \<Rightarrow> bgp_update" where
  "copy_update orig = assign new_update orig"

definition update_op_assign :: "bgp_update \<Rightarrow> bgp_update \<Rightarrow> bgp_update" where
  "update_op_assign this orig = assign (free_all this) orig"

definition update_eq_update :: "bgp_update \<Rightarrow> bgp_update \<Rightarrow> bool" where
  "update_eq_update this u =
     (if prefix (nlri u) = 0 then nlri_bgp_id (nlri this) = nlri_bgp_id (nlri u)
      else memcmp_u32 (ipv4_next_hop this) (ipv4_next_hop u) = 0
         \<and> memcmp_u32 (prefix (nlri this)) (prefix (nlri u)) = 0)"

definition update_eq_nlri :: "bgp_update \<Rightarrow> bgp_nlri \<Rightarrow> bool" where
  "update_eq_nlri this n \<longleftrightarrow>
     memcmp_u32 (nlri_bgp_id (nlri this)) (nlri_bgp_id n) = 0
     \<and> memcmp_u32 (prefix (nlri this)) (prefix n) = 0"

definition update_less_update :: "bgp_update \<Rightarrow> bgp_update \<Rightarrow> bool" where
  "update_less_update this u \<longleftrightarrow> memcmp_u32 (prefix (nlri this)) (prefix (nlri u)) < 0"

text \<open>
  In \<^verbatim>\<open>operator<(const bgp_nlri &update)\<close> the name \<^verbatim>\<open>nlri\<close> is the member, not the argument.
\<close>

definition update_less_nlri :: "bgp_update \<Rightarrow> bgp_nlri \<Rightarrow> bool" where
  "update_less_nlri this n \<longleftrightarrow> memcmp_u32 (prefix (nlri this)) (prefix (nlri this)) < 0"

section \<open>Well-formed updates\<close>

text \<open>
  Arrays have the length their length field says, or are absent when it is 0; this is what
  the parser, the copy and the event database keep, and what makes every read of
  \<^verbatim>\<open>seg_value[i]\<close>, \<^verbatim>\<open>i < length\<close>, one inside the array.
\<close>

definition seg_wf :: "as_path_segment \<Rightarrow> bool" where
  "seg_wf s \<longleftrightarrow> (case seg_value s of
       None \<Rightarrow> seg_length s = 0
     | Some xs \<Rightarrow> length xs = unat (seg_length s))"

definition update_wf :: "bgp_update \<Rightarrow> bool" where
  "update_wf u \<longleftrightarrow>
     pred_option seg_wf (as_path u) \<and> pred_option seg_wf (as4_path u)
     \<and> (case community u of
          None \<Rightarrow> com_seg_length u = 0
        | Some cs \<Rightarrow> length cs = unat (com_seg_length u))"

text \<open>The values an observer reads through a segment or a community list.\<close>

definition seg_list :: "as_path_segment \<Rightarrow> u32 list" where
  "seg_list s = (case seg_value s of None \<Rightarrow> [] | Some xs \<Rightarrow> xs)"

definition comm_list :: "bgp_update \<Rightarrow> community_segment list" where
  "comm_list u = (case community u of None \<Rightarrow> [] | Some cs \<Rightarrow> cs)"

lemma copy_segment_sel [simp]:
  "seg_type (copy_segment s) = seg_type s" "seg_length (copy_segment s) = seg_length s"
  by (simp_all add: copy_segment_def)

lemma copy_segment_wf [simp]: "seg_wf s \<Longrightarrow> seg_wf (copy_segment s)"
  by (auto simp: seg_wf_def copy_segment_def word_gt_0 split: option.splits)

lemma copy_segment_list [simp]: "seg_wf s \<Longrightarrow> seg_list (copy_segment s) = seg_list s"
  by (auto simp: seg_wf_def seg_list_def copy_segment_def word_gt_0 split: option.splits)

lemma copy_segment_idem [simp]: "copy_segment (copy_segment s) = copy_segment s"
  by (cases "seg_value s") (simp_all add: copy_segment_def)

lemma copy_update_sel [simp]:
  "flags (copy_update u) = flags u" "origin (copy_update u) = origin u"
  "ipv4_next_hop (copy_update u) = ipv4_next_hop u" "med (copy_update u) = med u"
  "local_pref (copy_update u) = local_pref u" "atomic_aggregate (copy_update u) = atomic_aggregate u"
  "aggregator (copy_update u) = aggregator u" "as4_aggregator (copy_update u) = as4_aggregator u"
  "com_seg_length (copy_update u) = com_seg_length u"
  "addr_family (copy_update u) = addr_family u" "addr_family_id (copy_update u) = addr_family_id u"
  "nlri (copy_update u) = nlri u"
  "as_path (copy_update u) = map_option copy_segment (as_path u)"
  "as4_path (copy_update u) = map_option copy_segment (as4_path u)"
  by (simp_all add: copy_update_def assign_def)

lemma community_copy_update:
  "community (copy_update u) =
     (if com_seg_length u > 0 then map_option (take (unat (com_seg_length u))) (community u) else None)"
  by (cases "community u") (simp_all add: copy_update_def assign_def)

lemma copy_update_idem [simp]: "copy_update (copy_update u) = copy_update u"
  by (cases "community u") (auto simp: copy_update_def assign_def option.map_comp comp_def)

lemma copy_update_wf [simp]: "update_wf u \<Longrightarrow> update_wf (copy_update u)"
  by (auto simp: update_wf_def community_copy_update pred_option_def word_gt_0 split: option.splits)

lemma comm_list_copy_update [simp]: "update_wf u \<Longrightarrow> comm_list (copy_update u) = comm_list u"
  by (auto simp: update_wf_def comm_list_def community_copy_update word_gt_0 split: option.splits)

text \<open>Assigning over any object leaves a copy of the source; nothing of the target survives.\<close>

lemma update_op_assign_copy [simp]: "update_op_assign this orig = copy_update orig"
  by (simp add: update_op_assign_def copy_update_def assign_def free_all_def)

end
