(* ===== verification/Bgp_Update.thy ===== *)
theory Bgp_Update
  imports Ipv4 Bgp_Msg
begin

text \<open>
  The UPDATE parser of \<^verbatim>\<open>src/bgp_update.cpp\<close>: one pass of the loop of \<^verbatim>\<open>proc_in_q\<close> over a queued
  message, with \<^verbatim>\<open>parse_as_path\<close>, \<^verbatim>\<open>parse_as4_path\<close>, \<^verbatim>\<open>parse_community\<close> and \<^verbatim>\<open>parse_nlri\<close>. The
  packet is a heap block of \<^verbatim>\<open>p_len + 5\<close> bytes whose last five are zero; every access of the
  code to it is a bounded read. The updates pushed to the two queues of the RIB are the
  result, in the order of the pushes. \<open>now\<close> is the value of \<^verbatim>\<open>time(NULL)\<close> during the pass.
\<close>

section \<open>Path attributes\<close>

text \<open>The loop of \<^verbatim>\<open>parse_as_path\<close>: \<open>n\<close> two-byte numbers after \<open>packet[off]\<close>.\<close>

fun parse_as_values :: "bytes \<Rightarrow> nat \<Rightarrow> nat \<Rightarrow> u32 list result" where
  "parse_as_values packet off 0 = Inr []"
| "parse_as_values packet off (Suc n) =
     rbind (rd16 packet (off + 1)) (\<lambda>v.
     rbind (parse_as_values packet (off + 2) n) (\<lambda>vs. Inr (ucast v # vs)))"

definition parse_as_path :: "bytes \<Rightarrow> nat \<Rightarrow> bgp_update \<Rightarrow> bgp_update result" where
  "parse_as_path packet off u =
     rbind (rd packet (off + 1)) (\<lambda>ty.
     rbind (rd packet (off + 2)) (\<lambda>len.
     rbind (parse_as_values packet (off + 2) (unat len)) (\<lambda>vs.
     Inr (u\<lparr>as_path := Some \<lparr>seg_type = ty, seg_length = len, seg_value = Some vs\<rparr>\<rparr>))))"

text \<open>The loop of \<^verbatim>\<open>parse_as4_path\<close>: \<open>n\<close> four-byte numbers.\<close>

fun parse_as4_values :: "bytes \<Rightarrow> nat \<Rightarrow> nat \<Rightarrow> u32 list result" where
  "parse_as4_values packet off 0 = Inr []"
| "parse_as4_values packet off (Suc n) =
     rbind (rd32 packet (off + 1)) (\<lambda>v.
     rbind (parse_as4_values packet (off + 4) n) (\<lambda>vs. Inr (v # vs)))"

definition parse_as4_path :: "bytes \<Rightarrow> nat \<Rightarrow> bgp_update \<Rightarrow> bgp_update result" where
  "parse_as4_path packet off u =
     rbind (rd packet (off + 1)) (\<lambda>ty.
     rbind (rd packet (off + 2)) (\<lambda>len.
     rbind (parse_as4_values packet (off + 2) (unat len)) (\<lambda>vs.
     Inr (u\<lparr>as4_path := Some \<lparr>seg_type = ty, seg_length = len, seg_value = Some vs\<rparr>\<rparr>))))"

fun parse_comm_values :: "bytes \<Rightarrow> nat \<Rightarrow> nat \<Rightarrow> community_segment list result" where
  "parse_comm_values packet off 0 = Inr []"
| "parse_comm_values packet off (Suc n) =
     rbind (rd16 packet (off + 1)) (\<lambda>a.
     rbind (rd16 packet (off + 3)) (\<lambda>v.
     rbind (parse_comm_values packet (off + 4) n) (\<lambda>cs.
     Inr (\<lparr>comm_as = ucast a, comm_value = ucast v\<rparr> # cs))))"

definition parse_community :: "bytes \<Rightarrow> nat \<Rightarrow> u8 \<Rightarrow> bgp_update \<Rightarrow> bgp_update result" where
  "parse_community packet off len u =
     rbind (parse_comm_values packet off (unat len div 4)) (\<lambda>cs.
     Inr (u\<lparr>com_seg_length := len div 4, community := Some cs\<rparr>))"

text \<open>
  The two aggregator attributes: \<^verbatim>\<open>memcpy(&origin, &packet[...], length - k)\<close> copies a
  negative, that is enormous, number of bytes when the attribute is shorter than \<open>k\<close>.
\<close>

definition parse_aggr_origin :: "bytes \<Rightarrow> nat \<Rightarrow> nat \<Rightarrow> nat \<Rightarrow> u32 result" where
  "parse_aggr_origin packet i len k =
     rbind (guard Buffer_overflow (k \<le> len)) (\<lambda>_.
     rbind (guard Buffer_overflow (len - k \<le> 4)) (\<lambda>_.
     rbind (rd_block packet i (len - k)) (memcpy_u32 0)))"

text \<open>
  The body of the \<^verbatim>\<open>switch\<close>: \<open>i\<close> is the index of the attribute's length byte, the result
  the update and the number of payload bytes by which \<^verbatim>\<open>i\<close> and \<^verbatim>\<open>read_len\<close> advance.
\<close>

definition parse_attrib_value ::
    "bytes \<Rightarrow> nat \<Rightarrow> bgp_path_attrib option \<Rightarrow> u8 \<Rightarrow> bgp_update \<Rightarrow> (nat \<times> bgp_update) result" where
  "parse_attrib_value packet i ty len u =
    (case ty of
       Some Attr_origin \<Rightarrow>
         if len = 0 then Inr (0, u)
         else rbind (rd packet (i + 1)) (\<lambda>b. Inr (1, u\<lparr>origin := b\<rparr>))
     | Some Attr_as_path \<Rightarrow>
         if len = 0 then Inr (0, u)
         else rbind (parse_as_path packet i u) (\<lambda>u'. Inr (unat len, u'))
     | Some Attr_next_hop \<Rightarrow>
         if len = 0 then Inr (0, u)
         else rbind (guard Buffer_overflow (len \<le> 4)) (\<lambda>_.
              rbind (rd_block packet (i + 1) (unat len)) (\<lambda>bs.
              rbind (memcpy_u32 (ipv4_next_hop u) bs) (\<lambda>nh.
              Inr (unat len, u\<lparr>ipv4_next_hop := nh\<rparr>))))
     | Some Attr_multi_exit_disc \<Rightarrow>
         if len = 0 then Inr (0, u)
         else rbind (rd32 packet (i + 1)) (\<lambda>v. Inr (unat len, u\<lparr>med := v\<rparr>))
     | Some Attr_local_pref \<Rightarrow>
         if len = 0 then Inr (0, u)
         else rbind (rd32 packet (i + 1)) (\<lambda>v. Inr (unat len, u\<lparr>local_pref := v\<rparr>))
     | Some Attr_atomic_aggregate \<Rightarrow> Inr (0, u\<lparr>atomic_aggregate := 1\<rparr>)
     | Some Attr_aggregator \<Rightarrow>
         if len = 0 then Inr (0, u)
         else rbind (rd16 packet (i + 1)) (\<lambda>a.
              rbind (parse_aggr_origin packet (i + 3) (unat len) 2) (\<lambda>ip.
              Inr (unat len, u\<lparr>aggregator := Some \<lparr>aggr_as = ucast a, aggr_origin = ip\<rparr>\<rparr>)))
     | Some Attr_community \<Rightarrow>
         if len = 0 then Inr (0, u)
         else rbind (parse_community packet i len u) (\<lambda>u'. Inr (unat len, u'))
     | Some Attr_originator \<Rightarrow> if len = 0 then Inr (0, u) else Inr (unat len, u)
     | Some Attr_cluster_list \<Rightarrow> if len = 0 then Inr (0, u) else Inr (unat len, u)
     | Some Attr_mp_reach_nlri \<Rightarrow> if len = 0 then Inr (0, u) else Inr (unat len, u)
     | Some Attr_mp_unreach_nlri \<Rightarrow> if len = 0 then Inr (0, u) else Inr (unat len, u)
     | Some Attr_as4_path \<Rightarrow>
         if len = 0 then Inr (0, u)
         else rbind (parse_as4_path packet i u) (\<lambda>u'. Inr (unat len, u'))
     | Some Attr_as4_aggregator \<Rightarrow>
         if len = 0 then Inr (0, u)
         else rbind (rd32 packet (i + 1)) (\<lambda>a.
              rbind (parse_aggr_origin packet (i + 5) (unat len) 4) (\<lambda>ip.
              Inr (unat len, u\<lparr>as4_aggregator := Some \<lparr>aggr_as = a, aggr_origin = ip\<rparr>\<rparr>)))
     | _ \<Rightarrow> Inr (unat len, u))"

text \<open>One pass of the attribute loop: flags, type and length, then the value.\<close>

definition parse_attrib :: "bytes \<Rightarrow> nat \<Rightarrow> u16 \<Rightarrow> bgp_update \<Rightarrow> (nat \<times> u16 \<times> bgp_update) result" where
  "parse_attrib packet i read_len u =
     rbind (rd packet (i + 1)) (\<lambda>attr_flags.
     rbind (rd packet (i + 2)) (\<lambda>ty.
     rbind (rd packet (i + 3)) (\<lambda>len.
     rbind (parse_attrib_value packet (i + 3) (path_attrib_of ty) len u) (\<lambda>(n, u').
     Inr (i + 3 + n, read_len + 3 + of_nat n, u')))))"

lemma parse_attrib_advances:
  "parse_attrib packet i read_len u = Inr (i', read_len', u') \<Longrightarrow> i < length packet \<and> i < i'"
  by (auto simp: parse_attrib_def rbind_eq_Inr dest!: rd_Inr_less)

function parse_attribs :: "bytes \<Rightarrow> u16 \<Rightarrow> nat \<Rightarrow> u16 \<Rightarrow> bgp_update \<Rightarrow> bgp_update result" where
  "parse_attribs packet path_attrib_len i read_len u =
     (if read_len < path_attrib_len then
        rbind (parse_attrib packet i read_len u) (\<lambda>(i', read_len', u').
          parse_attribs packet path_attrib_len i' read_len' u')
      else Inr u)"
  by pat_completeness auto
termination
  by (relation "measure (\<lambda>(packet, path_attrib_len, i, read_len, u). length packet - i)")
    (auto dest!: parse_attrib_advances)

declare parse_attribs.simps [simp del]

section \<open>NLRI\<close>

text \<open>\<^verbatim>\<open>byte_length\<close>: a prefix of \<open>len\<close> bits takes this many bytes.\<close>

definition nlri_byte_length :: "u8 \<Rightarrow> nat" where
  "nlri_byte_length len = unat len div 8 + (if unat len mod 8 \<noteq> 0 then 1 else 0)"

definition nlri_stamp :: "nlri_parse \<Rightarrow> time_t \<Rightarrow> bgp_nlri \<Rightarrow> bgp_nlri" where
  "nlri_stamp flag now n =
     (case flag of Nlri_update \<Rightarrow> n\<lparr>age := now\<rparr> | Nlri_withdraw \<Rightarrow> n\<lparr>last_withdraw_time := now\<rparr>)"

text \<open>One pass of the NLRI loop, from the byte that holds the prefix length.\<close>

definition parse_nlri_entry ::
    "time_t \<Rightarrow> u32 \<Rightarrow> bgp_update \<Rightarrow> nat \<Rightarrow> bytes \<Rightarrow> nlri_parse \<Rightarrow> u8 \<Rightarrow> bgp_update result" where
  "parse_nlri_entry now peer_bgp_id u off packet flag len =
     rbind (guard Buffer_overflow (nlri_byte_length len \<le> 4)) (\<lambda>_.
     rbind (rd_block packet (off + 1) (nlri_byte_length len)) (\<lambda>bs.
     rbind (memcpy_u32 0 bs) (\<lambda>pfx.
     rbind (get_ipv4_high_range pfx len) (\<lambda>highest.
     Inr (u\<lparr>nlri := nlri_stamp flag now (new_nlri\<lparr>prefix_length := len, prefix := pfx,
            prefix_highest := highest, nlri_bgp_id := peer_bgp_id\<rparr>)\<rparr>)))))"

function parse_nlri ::
    "time_t \<Rightarrow> u32 \<Rightarrow> bgp_update \<Rightarrow> nat \<Rightarrow> bytes \<Rightarrow> nlri_parse \<Rightarrow> bgp_update list result" where
  "parse_nlri now peer_bgp_id u off packet flag =
     rbind (rd packet off) (\<lambda>len.
       if len = 0 then Inr []
       else rbind (parse_nlri_entry now peer_bgp_id u off packet flag len) (\<lambda>u'.
            rbind (parse_nlri now peer_bgp_id u' (off + 1 + nlri_byte_length len) packet flag)
              (\<lambda>pushed. Inr (copy_update u' # pushed))))"
  by pat_completeness auto
termination
  by (relation "measure (\<lambda>(now, i, u, off, packet, flag). length packet - off)")
    (auto dest!: rd_Inr_less)

declare parse_nlri.simps [simp del]

section \<open>A queued message\<close>

record queue_data =
  q_length :: u16
  q_packet :: bytes   \<comment> \<open>the initialised part of \<^verbatim>\<open>packet[4096]\<close>; the rest is zero\<close>

text \<open>\<^verbatim>\<open>memcpy(packet, front().packet, p_len)\<close> into a block of \<^verbatim>\<open>p_len + 5\<close> zero bytes.\<close>

definition packet_block :: "queue_data \<Rightarrow> bytes result" where
  "packet_block q =
     (if unat (q_length q) \<le> 4096 then
        Inr (map (\<lambda>k. if k < length (q_packet q) then q_packet q ! k else 0) [0..<unat (q_length q)]
             @ [0, 0, 0, 0, 0])
      else Inl Out_of_bounds)"

definition AF_INET :: u16 where "AF_INET = 2"

text \<open>The updates for the RIB and the withdraws, in this order, that one message gives.\<close>

definition proc_packet ::
    "time_t \<Rightarrow> u32 \<Rightarrow> queue_data \<Rightarrow> (bgp_update list \<times> bgp_update list) result" where
  "proc_packet now peer_bgp_id q =
     rbind (packet_block q) (\<lambda>packet.
     rbind (rd16 packet 0) (\<lambda>unfeasable_routes_len.
     if unfeasable_routes_len \<noteq> 0 then
       rbind (parse_nlri now peer_bgp_id new_update 2 packet Nlri_withdraw) (\<lambda>ws. Inr ([], ws))
     else
       rbind (rd16 packet 2) (\<lambda>path_attrib_len.
       rbind (parse_attribs packet path_attrib_len 3 0 new_update) (\<lambda>u.
       rbind (parse_nlri now peer_bgp_id (u\<lparr>addr_family := AF_INET\<rparr>)
                (unat path_attrib_len + 4) packet Nlri_update) (\<lambda>us. Inr (us, []))))))"

end
