(* ===== verification/Libc.thy ===== *)
theory Libc
  imports Prelude
begin

text \<open>
  What the program uses of the C and C++ libraries on text: decimal numbers as a stream prints
  them, \<^verbatim>\<open>setw\<close> with a fill of zeros, \<^verbatim>\<open>inet_ntoa\<close> and \<^verbatim>\<open>inet_aton\<close>, the extraction of an
  unsigned number from a stream, \<^verbatim>\<open>atoi\<close>, the words of a line, and calendar times.
\<close>

section \<open>Printing numbers\<close>

definition digit :: "nat \<Rightarrow> char" where
  "digit d = char_of (48 + d)"

fun show_nat :: "nat \<Rightarrow> string" where
  "show_nat n = (if n < 10 then [digit n] else show_nat (n div 10) @ [digit (n mod 10)])"

declare show_nat.simps [simp del]

definition setw :: "nat \<Rightarrow> string \<Rightarrow> string" where
  "setw w s = replicate (w - length s) (CHR ''0'') @ s"

text \<open>The value of a string of digits.\<close>

definition digit_val :: "char \<Rightarrow> nat" where
  "digit_val c = of_char c - 48"

definition digits_val :: "string \<Rightarrow> nat" where
  "digits_val s = foldl (\<lambda>n c. 10 * n + digit_val c) 0 s"

definition is_digit :: "char \<Rightarrow> bool" where
  "is_digit c \<longleftrightarrow> 48 \<le> (of_char c :: nat) \<and> (of_char c :: nat) \<le> 57"

lemma digit_chars [eval_simps]:
  "digit 0 = CHR ''0''" "digit 1 = CHR ''1''" "digit 2 = CHR ''2''" "digit 3 = CHR ''3''" "digit 4 = CHR ''4''"
  "digit 5 = CHR ''5''" "digit 6 = CHR ''6''" "digit 7 = CHR ''7''" "digit 8 = CHR ''8''" "digit 9 = CHR ''9''"
  "digit (Suc 0) = CHR ''1''"
  by (simp_all add: digit_def char_of_eq_iff)

lemma digit_val_digit [simp]: "d < 10 \<Longrightarrow> digit_val (digit d) = d"
  by (simp add: digit_val_def digit_def)

lemma is_digit_digit [simp]: "d < 10 \<Longrightarrow> is_digit (digit d)"
  by (simp add: is_digit_def digit_def)

lemma digits_val_append: "digits_val (s @ [c]) = 10 * digits_val s + digit_val c"
  by (simp add: digits_val_def)

lemma digits_val_show [simp]: "digits_val (show_nat n) = n"
proof (induction n rule: show_nat.induct)
  case (1 n)
  then show ?case
    by (subst show_nat.simps) (auto simp: digits_val_append digits_val_def)
qed

lemma show_nat_digits: "c \<in> set (show_nat n) \<Longrightarrow> is_digit c"
proof (induction n rule: show_nat.induct)
  case (1 n)
  then show ?case by (subst (asm) (2) show_nat.simps) (auto split: if_splits)
qed

lemma show_nat_not_Nil [simp]: "show_nat n \<noteq> []"
  by (subst show_nat.simps) simp

lemma show_nat_inject [simp]: "show_nat m = show_nat n \<longleftrightarrow> m = n"
  by (metis digits_val_show)

lemma digits_val_setw [simp]: "digits_val (setw w s) = digits_val s"
proof -
  have "foldl (\<lambda>n c. 10 * n + digit_val c) 0 (replicate k (CHR ''0'') @ s) =
      foldl (\<lambda>n c. 10 * n + digit_val c) 0 s" for k
    by (induction k) (simp_all add: digit_val_def)
  then show ?thesis by (simp add: setw_def digits_val_def)
qed

lemma length_show_nat: "n < 10 ^ k \<Longrightarrow> k > 0 \<Longrightarrow> length (show_nat n) \<le> k"
proof (induction k arbitrary: n)
  case (Suc k)
  show ?case
  proof (cases "n < 10")
    case False
    with Suc.prems have "n div 10 < 10 ^ k" "k > 0" by (auto simp: less_mult_imp_div_less intro: gr0I)
    with Suc.IH [of "n div 10"] False show ?thesis by (subst show_nat.simps) simp
  qed (simp add: show_nat.simps)
qed simp

section \<open>Printing addresses\<close>

definition inet_ntoa :: "u32 \<Rightarrow> string" where
  "inet_ntoa ip =
     (case map (\<lambda>b. show_nat (unat b)) (le_bytes 4 ip) of
        [a, b, c, d] \<Rightarrow> a @ ''.'' @ b @ ''.'' @ c @ ''.'' @ d
      | _ \<Rightarrow> [])"

lemma digits_then_dot_inject:
  assumes "\<forall>c \<in> set a. is_digit c" and "\<forall>c \<in> set b. is_digit c"
  shows "a @ CHR ''.'' # s = b @ CHR ''.'' # t \<longleftrightarrow> a = b \<and> s = t"
  using assms
proof (induction a arbitrary: b)
  case Nil
  then show ?case by (cases b) (auto simp: is_digit_def)
next
  case (Cons x a)
  then show ?case by (cases b) (auto simp: is_digit_def)
qed

lemma dotted_inject:
  "show_nat a @ CHR ''.'' # s = show_nat b @ CHR ''.'' # t \<longleftrightarrow> a = b \<and> s = t"
  using digits_then_dot_inject [of "show_nat a" "show_nat b" s t] show_nat_digits by auto

section \<open>Scanning\<close>

definition is_space :: "char \<Rightarrow> bool" where
  "is_space c \<longleftrightarrow> c = CHR '' '' \<or> 9 \<le> (of_char c :: nat) \<and> (of_char c :: nat) \<le> 13"

text \<open>The words of a stream, as \<^verbatim>\<open>std::istream_iterator<std::string>\<close> gives them.\<close>

function words :: "string \<Rightarrow> string list" where
  "words s =
     (let t = dropWhile is_space s
      in if t = [] then []
         else takeWhile (\<lambda>c. \<not> is_space c) t # words (dropWhile (\<lambda>c. \<not> is_space c) t))"
  by pat_completeness auto
termination
proof (relation "measure length", simp, goal_cases)
  case (1 s x)
  then obtain c t where t: "dropWhile is_space s = c # t" and c: "\<not> is_space c"
    by (cases "dropWhile is_space s") (auto simp: dropWhile_eq_Cons_conv)
  have "length (dropWhile (\<lambda>c. \<not> is_space c) (c # t)) \<le> length t"
    using c length_dropWhile_le [of _ t] by simp
  moreover have "length (c # t) \<le> length s"
    using length_dropWhile_le [of is_space s] t by simp
  ultimately show ?case using 1 t by simp
qed

declare words.simps [simp del]

text \<open>An optional sign and the digits after leading white space.\<close>

definition scan_int :: "string \<Rightarrow> bool \<times> string" where
  "scan_int s =
     (case dropWhile is_space s of
        [] \<Rightarrow> (False, [])
      | c # t \<Rightarrow>
          if c = CHR ''-'' then (True, takeWhile is_digit t)
          else if c = CHR ''+'' then (False, takeWhile is_digit t)
          else (False, takeWhile is_digit (c # t)))"

text \<open>
  \<^verbatim>\<open>stream >> n\<close> for an unsigned \<open>n\<close>: no digits, or a magnitude that does not fit, is a failure;
  a minus sign negates modulo the width.
\<close>

definition stream_uint :: "string \<Rightarrow> 'a::len word option" where
  "stream_uint s =
     (let (neg, ds) = scan_int s
      in if ds = [] \<or> 2 ^ LENGTH('a) \<le> digits_val ds then None
         else Some (if neg then - of_nat (digits_val ds) else of_nat (digits_val ds)))"

text \<open>\<^verbatim>\<open>atoi\<close>, which is \<^verbatim>\<open>(int) strtol(s, NULL, 10)\<close>.\<close>

definition atoi :: "string \<Rightarrow> int" where
  "atoi s =
     (let (neg, ds) = scan_int s; v = (if neg then - int (digits_val ds) else int (digits_val ds))
      in signed_take_bit 31 (max (- (2 ^ 63)) (min (2 ^ 63 - 1) v)))"

section \<open>Reading addresses\<close>

fun split_on :: "char \<Rightarrow> string \<Rightarrow> string list" where
  "split_on d [] = [[]]"
| "split_on d (c # s) =
     (if c = d then [] # split_on d s
      else case split_on d s of [] \<Rightarrow> [[c]] | w # ws \<Rightarrow> (c # w) # ws)"

text \<open>The value of a hexadecimal digit, 16 for another character.\<close>

definition hex_val :: "char \<Rightarrow> nat" where
  "hex_val c =
     (let n = of_char c :: nat
      in if 48 \<le> n \<and> n \<le> 57 then n - 48
         else if 65 \<le> n \<and> n \<le> 70 then n - 55
         else if 97 \<le> n \<and> n \<le> 102 then n - 87
         else 16)"

definition based :: "nat \<Rightarrow> string \<Rightarrow> nat option" where
  "based b s =
     (if s \<noteq> [] \<and> list_all (\<lambda>c. hex_val c < b) s then Some (foldl (\<lambda>n c. b * n + hex_val c) 0 s)
      else None)"

text \<open>A number of a dotted address: hexadecimal after \<^verbatim>\<open>0x\<close>, octal after \<^verbatim>\<open>0\<close>, else decimal.\<close>

definition c_number :: "string \<Rightarrow> nat option" where
  "c_number s =
     (case s of
        c # x # ds \<Rightarrow>
          if c = CHR ''0'' then
            (if x = CHR ''x'' \<or> x = CHR ''X'' then based 16 ds else based 8 (x # ds))
          else based 10 s
      | _ \<Rightarrow> based 10 s)"

text \<open>
  \<^verbatim>\<open>inet_aton\<close>: up to four numbers, of which the last fills the bytes that are left; \<open>None\<close> is
  the result 0, after which the address is not set.
\<close>

definition inet_aton :: "string \<Rightarrow> u32 option" where
  "inet_aton s =
     (case map c_number (split_on (CHR ''.'') (takeWhile (\<lambda>c. \<not> is_space c) s)) of
        [Some a] \<Rightarrow> if a < 2 ^ 32 then Some (htonl (of_nat a)) else None
      | [Some a, Some b] \<Rightarrow>
          if a < 256 \<and> b < 2 ^ 24 then Some (htonl (of_nat (a * 2 ^ 24 + b))) else None
      | [Some a, Some b, Some c] \<Rightarrow>
          if a < 256 \<and> b < 256 \<and> c < 2 ^ 16
          then Some (htonl (of_nat (a * 2 ^ 24 + b * 2 ^ 16 + c))) else None
      | [Some a, Some b, Some c, Some d] \<Rightarrow>
          if a < 256 \<and> b < 256 \<and> c < 256 \<and> d < 256
          then Some (htonl (of_nat (a * 2 ^ 24 + b * 2 ^ 16 + c * 2 ^ 8 + d))) else None
      | _ \<Rightarrow> None)"

text \<open>
  \<^verbatim>\<open>inet_pton(AF_INET, ...)\<close> takes four decimal numbers of one to three digits, without a leading
  zero.
\<close>

definition pton_number :: "string \<Rightarrow> nat option" where
  "pton_number s =
     (if s \<noteq> [] \<and> list_all is_digit s \<and> (hd s = CHR ''0'' \<longrightarrow> length s = 1) \<and> digits_val s < 256
      then Some (digits_val s) else None)"

definition inet_pton :: "string \<Rightarrow> u32 option" where
  "inet_pton s =
     (case map pton_number (split_on (CHR ''.'') s) of
        [Some a, Some b, Some c, Some d] \<Rightarrow>
          Some (htonl (of_nat (a * 2 ^ 24 + b * 2 ^ 16 + c * 2 ^ 8 + d)))
      | _ \<Rightarrow> None)"

section \<open>Reading back what was printed\<close>

lemma is_digit_not_space: "is_digit c \<Longrightarrow> \<not> is_space c"
  by (auto simp: is_digit_def is_space_def)

lemma is_digit_hex: "is_digit c \<Longrightarrow> hex_val c = digit_val c \<and> digit_val c < 10"
  by (auto simp: is_digit_def hex_val_def digit_val_def Let_def)

lemma is_digit_not_sign: "is_digit c \<Longrightarrow> c \<noteq> CHR ''-'' \<and> c \<noteq> CHR ''+'' \<and> c \<noteq> CHR ''.''
    \<and> c \<noteq> CHR ''x'' \<and> c \<noteq> CHR ''X''"
  by (auto simp: is_digit_def)

lemma takeWhile_show_nat [simp]:
  "takeWhile is_digit (show_nat n) = show_nat n"
  "takeWhile (\<lambda>c. \<not> is_space c) (show_nat n) = show_nat n"
  by (auto simp: takeWhile_eq_all_conv dest: show_nat_digits is_digit_not_space)

lemma show_nat_Cons: obtains c t where "show_nat n = c # t" and "is_digit c"
  using show_nat_digits [of _ n] by (cases "show_nat n") auto

lemma scan_int_show_nat [simp]: "scan_int (show_nat n) = (False, show_nat n)"
proof (rule show_nat_Cons [of n])
  fix c t assume t: "show_nat n = c # t" "is_digit c"
  with takeWhile_show_nat(1) [of n] is_digit_not_sign [OF t(2)] is_digit_not_space [OF t(2)] show ?thesis
    by (simp add: scan_int_def)
qed

lemma stream_uint_show_nat: "n < 2 ^ LENGTH('a) \<Longrightarrow> stream_uint (show_nat n) = Some (of_nat n :: 'a::len word)"
  by (simp add: stream_uint_def)

lemma stream_uint_show_word [simp]: "stream_uint (show_nat (unat w)) = Some (w :: 'a::len word)"
  by (simp add: stream_uint_show_nat)

lemma atoi_show_nat: "n < 2 ^ 31 \<Longrightarrow> atoi (show_nat n) = int n"
  by (simp add: atoi_def signed_take_bit_int_eq_self)

lemma hd_show_nat: "0 < n \<Longrightarrow> hd (show_nat n) \<noteq> CHR ''0''"
proof (induction n rule: show_nat.induct)
  case (1 n)
  show ?case
  proof (cases "n < 10")
    case True
    have "digit n \<noteq> CHR ''0''" using digit_val_digit [of n] True \<open>0 < n\<close> by (auto simp: digit_val_def)
    with True show ?thesis by (simp add: show_nat.simps)
  next
    case False
    with 1 show ?thesis by (subst show_nat.simps) simp
  qed
qed

lemma foldl_hex_val: "\<forall>c \<in> set s. is_digit c \<Longrightarrow>
    foldl (\<lambda>n c. 10 * n + hex_val c) a s = foldl (\<lambda>n c. 10 * n + digit_val c) a s"
  by (induction s arbitrary: a) (auto simp: is_digit_hex)

lemma based_show_nat: "based 10 (show_nat n) = Some n"
proof -
  have "foldl (\<lambda>m c. 10 * m + hex_val c) 0 (show_nat n) = n"
    using foldl_hex_val [of "show_nat n" 0] show_nat_digits digits_val_show [of n]
    by (auto simp: digits_val_def)
  then show ?thesis
    by (auto simp: based_def list_all_iff is_digit_hex dest!: show_nat_digits)
qed

lemma show_nat_0 [simp]: "show_nat 0 = ''0''"
  by (simp add: show_nat.simps digit_def char_of_eq_iff)

lemma c_number_show_nat [simp]: "c_number (show_nat n) = Some n"
proof (cases "n = 0")
  case True
  then show ?thesis using based_show_nat [of 0] by (simp add: c_number_def)
next
  case False
  have "c_number s = based 10 s" if "s \<noteq> []" "hd s \<noteq> CHR ''0''" for s
    using that by (auto simp: c_number_def split: list.splits)
  with False hd_show_nat [of n] show ?thesis by (simp add: based_show_nat)
qed

lemma pton_number_show_nat [simp]: "n < 256 \<Longrightarrow> pton_number (show_nat n) = Some n"
  using hd_show_nat [of n] show_nat_digits [of _ n] digits_val_show [of n]
  by (cases "n = 0") (auto simp: pton_number_def list_all_iff simp del: digits_val_show)

lemma split_on_append: "d \<notin> set a \<Longrightarrow> split_on d (a @ d # s) = a # split_on d s"
  by (induction a) auto

lemma split_on_none: "d \<notin> set a \<Longrightarrow> split_on d a = [a]"
  by (induction a) auto

lemma dot_not_in_show_nat [simp]: "CHR ''.'' \<notin> set (show_nat n)"
  using show_nat_digits [of "CHR ''.''" n] by (auto simp: is_digit_def)

text \<open>The address whose memory is four octets.\<close>

lemma octets_address:
  fixes w :: u32
  shows "htonl (of_nat (unat (ucast w :: u8) * 2 ^ 24 + unat (ucast (drop_bit 8 w) :: u8) * 2 ^ 16
    + unat (ucast (drop_bit 16 w) :: u8) * 2 ^ 8 + unat (ucast (drop_bit 24 w) :: u8))) = w"
proof -
  let ?n = "unat (ucast w :: u8) * 2 ^ 24 + unat (ucast (drop_bit 8 w) :: u8) * 2 ^ 16
    + unat (ucast (drop_bit 16 w) :: u8) * 2 ^ 8 + unat (ucast (drop_bit 24 w) :: u8)"
  have "be_nat (le_bytes 4 w) = ?n" by (simp add: le_bytes_evals)
  then have "unat (ntohl w) = ?n" by (simp add: be_nat_le_bytes)
  then have "of_nat ?n = (of_nat (unat (ntohl w)) :: u32)" by (simp only:)
  also have "\<dots> = ntohl w" by simp
  finally show ?thesis by (simp only: htonl_ntohl)
qed

lemma unat_u8_less: "unat (b :: u8) < 256"
  using unsigned_less [of b] by simp

lemma inet_ntoa_octets:
  "inet_ntoa w = show_nat (unat (ucast w :: u8)) @ CHR ''.'' # show_nat (unat (ucast (drop_bit 8 w) :: u8))
     @ CHR ''.'' # show_nat (unat (ucast (drop_bit 16 w) :: u8)) @ CHR ''.'' # show_nat (unat (ucast (drop_bit 24 w) :: u8))"
  by (simp add: inet_ntoa_def le_bytes_evals)

lemma length_inet_ntoa: "length (inet_ntoa w) \<le> 15"
proof -
  have "length (show_nat (unat v)) \<le> 3" for v :: u8
    using unat_u8_less [of v] by (simp add: show_nat.simps [of "unat v"] show_nat.simps [of "unat v div 10"]
        show_nat.simps [of "unat v div 100"] div_mult2_eq [symmetric])
  from this [of "ucast w"] this [of "ucast (drop_bit 8 w)"] this [of "ucast (drop_bit 16 w)"]
    this [of "ucast (drop_bit 24 w)"]
  show ?thesis by (simp add: inet_ntoa_octets)
qed

lemma inet_ntoa_no_space: "c \<in> set (inet_ntoa w) \<Longrightarrow> \<not> is_space c"
  by (auto simp: inet_ntoa_octets is_digit_not_space dest!: show_nat_digits) (simp_all add: is_space_def)

lemma inet_aton_ntoa [simp]: "inet_aton (inet_ntoa w) = Some w"
proof -
  have "takeWhile (\<lambda>c. \<not> is_space c) (inet_ntoa w) = inet_ntoa w"
    using inet_ntoa_no_space by (simp add: takeWhile_eq_all_conv)
  then show ?thesis
    using octets_address [of w]
    by (simp add: inet_aton_def inet_ntoa_octets split_on_append split_on_none unat_u8_less)
qed

lemma inet_pton_ntoa [simp]: "inet_pton (inet_ntoa w) = Some w"
  using octets_address [of w]
  by (simp add: inet_pton_def inet_ntoa_octets split_on_append split_on_none unat_u8_less)

section \<open>Words of a line\<close>

text \<open>A token as a user types it: not empty and without white space.\<close>

definition is_token :: "string \<Rightarrow> bool" where
  "is_token w \<longleftrightarrow> w \<noteq> [] \<and> (\<forall>c \<in> set w. \<not> is_space c)"

fun unwords :: "string list \<Rightarrow> string" where
  "unwords [] = []"
| "unwords [w] = w"
| "unwords (w # v # ws) = w @ CHR '' '' # unwords (v # ws)"

lemma words_Nil [simp]: "words [] = []"
  by (simp add: words.simps)

lemma is_space_blank [simp]: "is_space (CHR '' '')"
  by (simp add: is_space_def)

lemma words_space: "is_space c \<Longrightarrow> words (c # s) = words s"
  by (simp add: words.simps [of "c # s"] words.simps [of s])

lemma words_token:
  assumes "is_token w" and "s = [] \<or> is_space (hd s)"
  shows "words (w @ s) = w # words s"
proof -
  from assms(1) obtain c v where w: "w = c # v" "\<not> is_space c" by (cases w) (auto simp: is_token_def)
  have "takeWhile (\<lambda>c. \<not> is_space c) (w @ s) = w" "dropWhile (\<lambda>c. \<not> is_space c) (w @ s) = s"
    using assms by (cases s; simp add: is_token_def takeWhile_append dropWhile_append)+
  moreover have "dropWhile is_space (w @ s) = w @ s" using w by simp
  ultimately show ?thesis using w by (subst words.simps) simp
qed

lemma words_unwords: "\<forall>w \<in> set ws. is_token w \<Longrightarrow> words (unwords ws) = ws"
proof (induction ws rule: unwords.induct)
  case (2 w)
  then show ?case using words_token [of w "[]"] by simp
next
  case (3 w v ws)
  then show ?case by (simp add: words_token words_space)
qed simp

lemma show_nat_token [simp]: "is_token (show_nat n)"
  by (auto simp: is_token_def dest: show_nat_digits is_digit_not_space)

lemma inet_ntoa_token [simp]: "is_token (inet_ntoa w)"
  using inet_ntoa_no_space by (auto simp: is_token_def inet_ntoa_octets)

section \<open>Calendar times\<close>

text \<open>\<^verbatim>\<open>gmtime\<close> for times from the epoch on, and the formats of \<^verbatim>\<open>strftime\<close> the program uses.\<close>

definition leap :: "nat \<Rightarrow> bool" where
  "leap y \<longleftrightarrow> y mod 4 = 0 \<and> (y mod 100 \<noteq> 0 \<or> y mod 400 = 0)"

definition year_days :: "nat \<Rightarrow> nat" where
  "year_days y = (if leap y then 366 else 365)"

definition month_lengths :: "nat \<Rightarrow> nat list" where
  "month_lengths y = [31, if leap y then 29 else 28, 31, 30, 31, 30, 31, 31, 30, 31, 30, 31]"

text \<open>The year and the day in it of the day \<open>d\<close> counted from the first of January of \<open>y\<close>.\<close>

function civil_year :: "nat \<Rightarrow> nat \<Rightarrow> nat \<times> nat" where
  "civil_year y d = (if d < year_days y then (y, d) else civil_year (y + 1) (d - year_days y))"
  by pat_completeness auto
termination
  by (relation "measure snd") (auto simp: year_days_def)

declare civil_year.simps [simp del]

fun civil_month :: "nat list \<Rightarrow> nat \<Rightarrow> nat \<times> nat" where
  "civil_month [] d = (0, d)"
| "civil_month (n # ns) d =
     (if d < n then (0, d) else let (m, e) = civil_month ns (d - n) in (Suc m, e))"

record tm =
  tm_year :: nat
  tm_mon :: nat    \<comment> \<open>0 is January\<close>
  tm_mday :: nat   \<comment> \<open>1 is the first day\<close>
  tm_hour :: nat
  tm_min :: nat
  tm_sec :: nat
  tm_wday :: nat   \<comment> \<open>0 is Sunday\<close>

definition gmtime :: "time_t \<Rightarrow> tm" where
  "gmtime t =
     (let s = unat t; days = s div 86400; (y, yd) = civil_year 1970 days;
          (m, d) = civil_month (month_lengths y) yd
      in \<lparr>tm_year = y, tm_mon = m, tm_mday = d + 1, tm_hour = s mod 86400 div 3600,
          tm_min = s mod 3600 div 60, tm_sec = s mod 60, tm_wday = (days + 4) mod 7\<rparr>)"

definition hms :: "tm \<Rightarrow> string" where
  "hms t = setw 2 (show_nat (tm_hour t)) @ '':'' @ setw 2 (show_nat (tm_min t)) @ '':''
     @ setw 2 (show_nat (tm_sec t))"

text \<open>\<^verbatim>\<open>%m-%d-%Y %H:%M:%S\<close>, \<^verbatim>\<open>%F %T\<close> and \<^verbatim>\<open>%c\<close> in the C locale.\<close>

definition strftime_mdy :: "tm \<Rightarrow> string" where
  "strftime_mdy t = setw 2 (show_nat (tm_mon t + 1)) @ ''-'' @ setw 2 (show_nat (tm_mday t)) @ ''-''
     @ show_nat (tm_year t) @ '' '' @ hms t"

definition strftime_FT :: "tm \<Rightarrow> string" where
  "strftime_FT t = show_nat (tm_year t) @ ''-'' @ setw 2 (show_nat (tm_mon t + 1)) @ ''-''
     @ setw 2 (show_nat (tm_mday t)) @ '' '' @ hms t"

definition day_names :: "string list" where
  "day_names = [''Sun'', ''Mon'', ''Tue'', ''Wed'', ''Thu'', ''Fri'', ''Sat'']"

definition month_names :: "string list" where
  "month_names = [''Jan'', ''Feb'', ''Mar'', ''Apr'', ''May'', ''Jun'', ''Jul'', ''Aug'', ''Sep'',
     ''Oct'', ''Nov'', ''Dec'']"

definition strftime_c :: "tm \<Rightarrow> string" where
  "strftime_c t = day_names ! tm_wday t @ '' '' @ month_names ! tm_mon t @ '' ''
     @ (let d = show_nat (tm_mday t) in replicate (2 - length d) (CHR '' '') @ d) @ '' '' @ hms t @ '' ''
     @ show_nat (tm_year t)"

lemma civil_year_sum:
  "civil_year y d = (y', d') \<Longrightarrow> y \<le> y' \<and> d = sum year_days {y..<y'} + d' \<and> d' < year_days y'"
proof (induction y d rule: civil_year.induct)
  case (1 y d)
  show ?case
  proof (cases "d < year_days y")
    case False
    with 1 have "y + 1 \<le> y'" "d - year_days y = sum year_days {y + 1..<y'} + d'" "d' < year_days y'"
      by (auto simp: civil_year.simps [of y d])
    moreover have "sum year_days {y..<y'} = year_days y + sum year_days {y + 1..<y'}"
      using \<open>y + 1 \<le> y'\<close> by (simp add: sum.atLeast_Suc_lessThan)
    ultimately show ?thesis using False by simp
  qed (use 1 in \<open>auto simp: civil_year.simps [of y d]\<close>)
qed

lemma civil_month_sum:
  "d < sum_list ns \<Longrightarrow> civil_month ns d = (m, e) \<Longrightarrow>
     m < length ns \<and> d = sum_list (take m ns) + e \<and> e < ns ! m"
proof (induction ns arbitrary: d m e)
  case (Cons n ns)
  show ?case
  proof (cases "d < n")
    case False
    obtain m' e' where r: "civil_month ns (d - n) = (m', e')" by fastforce
    with Cons.prems False have me: "m = Suc m'" "e = e'" and less: "d - n < sum_list ns" by auto
    from Cons.IH [OF less r] have "m' < length ns" "d - n = sum_list (take m' ns) + e'" "e' < ns ! m'" by auto
    moreover from this(2) False have "d = n + (sum_list (take m' ns) + e')" by linarith
    ultimately show ?thesis by (simp add: me)
  qed (use Cons.prems in auto)
qed simp

lemma sum_month_lengths: "sum_list (month_lengths y) = year_days y"
  by (simp add: month_lengths_def year_days_def)

text \<open>A calendar time names its second: the fields are in range and give the time back.\<close>

lemma gmtime_exact:
  assumes "gmtime t = tm"
  shows "unat t = (sum year_days {1970..<tm_year tm} + sum_list (take (tm_mon tm) (month_lengths (tm_year tm)))
      + (tm_mday tm - 1)) * 86400 + tm_hour tm * 3600 + tm_min tm * 60 + tm_sec tm"
    and "tm_mon tm < 12" and "1 \<le> tm_mday tm" and "tm_mday tm \<le> month_lengths (tm_year tm) ! tm_mon tm"
    and "tm_hour tm < 24" and "tm_min tm < 60" and "tm_sec tm < 60" and "tm_wday tm < 7"
proof -
  let ?s = "unat t"
  obtain y yd where y: "civil_year 1970 (?s div 86400) = (y, yd)" by fastforce
  obtain m d where m: "civil_month (month_lengths y) yd = (m, d)" by fastforce
  note y' = civil_year_sum [OF y]
  then have m': "m < 12" "yd = sum_list (take m (month_lengths y)) + d" "d < month_lengths y ! m"
    using civil_month_sum [OF _ m] by (simp_all add: sum_month_lengths) (simp_all add: month_lengths_def)
  have tm: "tm = \<lparr>tm_year = y, tm_mon = m, tm_mday = d + 1, tm_hour = ?s mod 86400 div 3600,
      tm_min = ?s mod 3600 div 60, tm_sec = ?s mod 60, tm_wday = (?s div 86400 + 4) mod 7\<rparr>"
    using assms by (auto simp: gmtime_def Let_def y m)
  have "?s mod 86400 mod 3600 = ?s mod 3600" "?s mod 3600 mod 60 = ?s mod 60"
    by (simp_all add: mod_mod_cancel)
  then have "?s = ?s div 86400 * 86400 + ?s mod 86400 div 3600 * 3600 + ?s mod 3600 div 60 * 60 + ?s mod 60"
    using div_mult_mod_eq [of ?s 86400] div_mult_mod_eq [of "?s mod 86400" 3600]
      div_mult_mod_eq [of "?s mod 3600" 60]
    by linarith
  then show "?s = (sum year_days {1970..<tm_year tm} + sum_list (take (tm_mon tm) (month_lengths (tm_year tm)))
      + (tm_mday tm - 1)) * 86400 + tm_hour tm * 3600 + tm_min tm * 60 + tm_sec tm"
    using y' m' by (simp add: tm)
  show "tm_mon tm < 12" "1 \<le> tm_mday tm" "tm_mday tm \<le> month_lengths (tm_year tm) ! tm_mon tm"
    using m' by (simp_all add: tm)
  show "tm_hour tm < 24" "tm_min tm < 60" "tm_sec tm < 60" "tm_wday tm < 7"
    by (simp_all add: tm less_mult_imp_div_less)
qed

end
