(* ===== verification/Misc.thy ===== *)
theory Misc
  imports Libc "HOL-Library.Signed_Division"
begin

text \<open>
  The helpers of \<^verbatim>\<open>src/misc.cpp\<close>: numbers, addresses, durations and times as text, and the
  conversions from text. The two functions under \<^verbatim>\<open>USE_CLI\<close>, which nothing defines, are left out.
\<close>

section \<open>Numbers\<close>

definition int_to_string :: "int \<Rightarrow> string" where
  "int_to_string i = (if i < 0 then ''-'' @ show_nat (nat (- i)) else show_nat (nat i))"

section \<open>Durations\<close>

text \<open>\<^verbatim>\<open>hours\<close> is an \<^verbatim>\<open>int\<close>; C++ division and remainder round towards zero.\<close>

definition time_hh_mm_ss :: "time_t \<Rightarrow> string" where
  "time_hh_mm_ss t =
     (let sec = sint t;
          hours = signed_take_bit 31 (sec sdiv 3600);
          sec1 = sec smod 3600;
          mins = sec1 sdiv 60;
          secs = sec1 smod 60
      in setw 4 (int_to_string hours) @ '':'' @ setw 2 (int_to_string mins) @ '':''
         @ setw 2 (int_to_string secs))"

section \<open>Times\<close>

definition time_stamp :: "time_t \<Rightarrow> string" where
  "time_stamp now = strftime_mdy (gmtime now)"

section \<open>From text\<close>

text \<open>
  \<^verbatim>\<open>inet_aton\<close> returns 0 or 1, never -1: for text that is no address the function returns the
  variable it never set, \<open>junk\<close> below.
\<close>

definition string_to_ip :: "u32 \<Rightarrow> string \<Rightarrow> u32" where
  "string_to_ip junk ip =
     (if ip = [] then 0 else case inet_aton ip of Some a \<Rightarrow> a | None \<Rightarrow> junk)"

text \<open>Extracting a \<^verbatim>\<open>uint8_t\<close>, which is a character type, reads one character.\<close>

definition string_to_uint8_t :: "string \<Rightarrow> u8" where
  "string_to_uint8_t s = (case dropWhile is_space s of [] \<Rightarrow> 0 | c # _ \<Rightarrow> of_nat (of_char c))"

definition string_to_uint16_t :: "string \<Rightarrow> u16" where
  "string_to_uint16_t s = (case stream_uint s of Some v \<Rightarrow> v | None \<Rightarrow> 0)"

definition string_to_uint32_t :: "string \<Rightarrow> u32" where
  "string_to_uint32_t s = (case stream_uint s of Some v \<Rightarrow> v | None \<Rightarrow> 0)"

lemma int_to_string_uint [simp]: "int_to_string (uint w) = show_nat (unat w)"
  by (simp add: int_to_string_def)

lemma string_to_uint_show [simp]:
  "string_to_uint16_t (show_nat (unat n)) = n" "string_to_uint32_t (show_nat (unat m)) = m"
  by (simp_all add: string_to_uint16_t_def string_to_uint32_t_def)

text \<open>A one-byte number is not read as a number: the digit \<open>n\<close> gives its character code.\<close>

lemma string_to_uint8_t_digit: "n < 10 \<Longrightarrow> string_to_uint8_t (show_nat n) = of_nat n + 48"
  by (simp add: show_nat.simps string_to_uint8_t_def digit_def is_digit_not_space is_digit_def)

section \<open>Addresses\<close>

definition ip_to_string :: "u32 \<Rightarrow> string" where
  "ip_to_string ip = inet_ntoa ip"

text \<open>
  Two different addresses never have the same text, so the text of a neighbour or of a
  prefix identifies it.
\<close>

lemma ip_to_string_inject: "ip_to_string x = ip_to_string y \<longleftrightarrow> x = y"
proof
  assume "ip_to_string x = ip_to_string y"
  then have "le_bytes 4 x = le_bytes 4 y"
    by (simp add: ip_to_string_def inet_ntoa_def le_bytes_evals dotted_inject word_unat_eq_iff
        unsigned_ucast_eq)
  then show "x = y" by (simp add: le_bytes_inj)
qed simp

text \<open>
  a duration below ten thousand hours is shown as four digits of hours, two of minutes and
  two of seconds, and these are the duration.
\<close>

theorem time_hh_mm_ss_exact:
  assumes "sint t = int n" and "n < 10000 * 3600"
  shows "\<exists>hh mm ss. time_hh_mm_ss t = hh @ '':'' @ mm @ '':'' @ ss
     \<and> length hh = 4 \<and> length mm = 2 \<and> length ss = 2
     \<and> digits_val mm < 60 \<and> digits_val ss < 60
     \<and> n = 3600 * digits_val hh + 60 * digits_val mm + digits_val ss"
proof -
  have h: "n div 3600 < 10 ^ 4" using assms(2) by (simp add: less_mult_imp_div_less)
  have m: "n mod 3600 div 60 < 60" "n mod 3600 div 60 < 10 ^ 2" "n mod 3600 mod 60 < 10 ^ 2"
    by (auto simp: less_mult_imp_div_less intro: less_trans [of _ 60])
  have eq: "n = 3600 * (n div 3600) + 60 * (n mod 3600 div 60) + n mod 3600 mod 60"
    by (metis div_mult_mod_eq add.assoc mult.commute)
  have sdiv: "int i sdiv 3600 = int (i div 3600)" "int i sdiv 60 = int (i div 60)" for i
    by (cases "i = 0"; simp add: signed_divide_int_def zdiv_int)+
  have smod: "int i smod 3600 = int (i mod 3600)" "int i smod 60 = int (i mod 60)" for i
    by (cases "i = 0"; simp add: signed_modulo_int_def zmod_int)+
  have hours: "signed_take_bit 31 (int (n div 3600)) = int (n div 3600)"
    using h by (simp add: signed_take_bit_int_eq_self)
  have "time_hh_mm_ss t = setw 4 (show_nat (n div 3600)) @ '':''
      @ setw 2 (show_nat (n mod 3600 div 60)) @ '':'' @ setw 2 (show_nat (n mod 3600 mod 60))"
    unfolding time_hh_mm_ss_def Let_def assms(1) sdiv smod hours by (simp add: int_to_string_def)
  moreover have "length (setw k (show_nat i)) = k" if "i < 10 ^ k" "k > 0" for i k
    using length_show_nat [OF that] by (simp add: setw_def)
  ultimately show ?thesis
    using h m eq by (intro exI) auto
qed

theorem time_hh_mm_ss_exact_witness:
  "\<exists>hh mm ss. time_hh_mm_ss 3725 = hh @ '':'' @ mm @ '':'' @ ss
     \<and> length hh = 4 \<and> length mm = 2 \<and> length ss = 2
     \<and> digits_val mm < 60 \<and> digits_val ss < 60
     \<and> (3725 :: nat) = 3600 * digits_val hh + 60 * digits_val mm + digits_val ss"
  by (rule time_hh_mm_ss_exact) simp_all

text \<open>
  The text of an address and of a number is read back as that address and that number, so
  what the program prints can be typed into its commands.
\<close>

theorem text_roundtrip:
  "string_to_ip junk (ip_to_string ip) = ip
   \<and> string_to_uint32_t (int_to_string (uint n)) = n
   \<and> string_to_uint16_t (int_to_string (uint m)) = m"
proof -
  have "inet_ntoa ip \<noteq> []" using inet_ntoa_token [of ip] by (simp add: is_token_def)
  then show ?thesis by (simp add: string_to_ip_def ip_to_string_def)
qed

section \<open>Memory\<close>

text \<open>
  Whether an address is on the stack of the thread, which the system gives as its start and size,
  and a copy of a text on the heap with the zero byte that ends it.
\<close>

definition is_stack :: "u64 \<Rightarrow> u64 \<Rightarrow> u64 \<Rightarrow> bool" where
  "is_stack stack stacksize ptr \<longleftrightarrow> stack \<le> ptr \<and> ptr < stack + stacksize"

definition alloc_output :: "string \<Rightarrow> bytes" where
  "alloc_output output =
     (let buffer = replicate (length output + 1) 0
      in map (\<lambda>c. of_nat (of_char c)) output @ drop (length output) buffer)"

lemma is_stack_range:
  assumes "unat stack + unat stacksize < 2 ^ 64"
  shows "is_stack stack stacksize ptr \<longleftrightarrow> unat ptr \<in> {unat stack ..< unat stack + unat stacksize}"
  using assms by (simp add: is_stack_def word_le_nat_alt word_less_nat_alt unat_word_ariths)

lemma alloc_output_text:
  assumes "CHR 0x00 \<notin> set output"
  shows "map (\<lambda>b. char_of (unat b)) (takeWhile (\<lambda>b. b \<noteq> 0) (alloc_output output)) = output"
proof -
  have byte: "unat (of_nat (of_char c) :: u8) = of_char c" for c
    by (simp add: unat_of_nat)
  have "(of_nat (of_char c) :: u8) \<noteq> 0" if "c \<in> set output" for c
  proof
    assume "(of_nat (of_char c) :: u8) = 0"
    then have "(of_char c :: nat) = of_char (CHR 0x00)" using byte [of c] by simp
    with that assms show False by (simp only: of_char_eq_iff)
  qed
  moreover have "alloc_output output = map (\<lambda>c. of_nat (of_char c)) output @ [0]"
    using drop_replicate [of "length output" "length output + 1" "0 :: u8"] by (simp add: alloc_output_def)
  ultimately have "takeWhile (\<lambda>b. b \<noteq> 0) (alloc_output output) = map (\<lambda>c. of_nat (of_char c)) output"
    using takeWhile_append2 [of "map (\<lambda>c. of_nat (of_char c)) output" "\<lambda>b. b \<noteq> (0 :: u8)" "[0]"] by fastforce
  then show ?thesis by (simp add: byte comp_def map_idI)
qed

end
