(* ===== verification/Bgp_Peer.thy ===== *)
theory Bgp_Peer
  imports Tcp_Client Bgp_Update Misc
begin

text \<open>
  A neighbour: \<^verbatim>\<open>include/bgp_peer.h\<close> and \<^verbatim>\<open>src/bgp_peer.cpp\<close>. The record extends the connection,
  as the class inherits it. Mutexes, the thread handle and the unused update timer carry no
  data; every operation below runs under the lock its caller takes.
\<close>

section \<open>Data\<close>

datatype bgp_peer_state = Idle | Connect | Active | Opensent | Openconfirm | Established | Deleted | Clearing

fun peer_state_code :: "bgp_peer_state \<Rightarrow> u8" where
  "peer_state_code Idle = 0"
| "peer_state_code Connect = 1"
| "peer_state_code Active = 2"
| "peer_state_code Opensent = 3"
| "peer_state_code Openconfirm = 4"
| "peer_state_code Established = 5"
| "peer_state_code Deleted = 6"
| "peer_state_code Clearing = 7"

record byte_tx_rx_current =
  cur_tx :: u32
  cur_rx :: u32

record bytes_tx_rx =
  cnt_tx :: u32
  cnt_rx :: u32
  current :: byte_tx_rx_current
  last_rx :: time_t
  last_tx :: time_t
  cnt_withdrawn :: u32

record connect_stat =
  estab :: u32
  droped :: u32
  last_reset :: u32

record read_write =
  last_read :: time_t
  last_write :: time_t

record translate_attribs_base =
  tr_code :: bgp_path_attrib
  tr_value :: u32
  printable_attrib :: string

record bgp_peer = tcp_client +
  ipv4 :: u32
  p_bgp_id :: u32
  update_src_ip :: u32
  p_version :: u16
  p_hold_time :: u16
  min_hold_time :: u16
  keep_alive :: u16
  update_freq :: u16
  p_AS :: u16
  opt_param_len :: u32
  capabilities_advertisement :: u32
  p_table_version :: u16
  in_q :: u16
  out_q :: u16
  up_since :: time_t
  p_ip :: string
  p_b_ip :: string
  opens :: bytes_tx_rx
  notify :: bytes_tx_rx
  update_cnt :: bytes_tx_rx
  keepaliv :: bytes_tx_rx
  routeref :: bytes_tx_rx
  prefixes :: bytes_tx_rx
  tx_rx :: bytes_tx_rx
  connect_stats :: connect_stat
  implicit_withdraw :: byte_tx_rx_current
  explicit_withdraw :: byte_tx_rx_current
  state :: bgp_peer_state
  last_IO :: read_write
  p_addr_family :: u16
  in_queue :: "queue_data list"
  out_queue :: "queue_data list"
  translate_attribs :: "translate_attribs_base list"
  is_aliasing :: bool

section \<open>Construction\<close>

definition zero_current :: byte_tx_rx_current where
  "zero_current = \<lparr>cur_tx = 0, cur_rx = 0\<rparr>"

text \<open>\<^verbatim>\<open>last_rx\<close> and \<^verbatim>\<open>last_tx\<close> are not set by the constructor; \<^verbatim>\<open>bgp_peer()\<close> zeroes those it uses.\<close>

definition zero_counter :: bytes_tx_rx where
  "zero_counter = \<lparr>cnt_tx = 0, cnt_rx = 0, current = zero_current, last_rx = 0, last_tx = 0,
     cnt_withdrawn = 0\<rparr>"

text \<open>
  The default constructor; \<open>ip\<close> and \<open>bip\<close> are what the two character arrays, which it does not
  initialise, happen to hold.
\<close>

definition new_peer :: "string \<Rightarrow> string \<Rightarrow> bgp_peer" where
  "new_peer ip bip = tcp_client.extend new_tcp_client
     (bgp_peer.fields 0 0 0 4 180 0 60 1 0 0 0 0 0 0 0 ip bip
       zero_counter zero_counter zero_counter zero_counter zero_counter zero_counter zero_counter
       \<lparr>estab = 0, droped = 0, last_reset = 0\<rparr> zero_current zero_current Idle
       \<lparr>last_read = 0, last_write = 0\<rparr> 0 [] [] [] False)"

text \<open>
  The copy constructor takes the AS, the address family and the printable address
  (\<^verbatim>\<open>INET_ADDRSTRLEN\<close> bytes); the binary address stays 0.
\<close>

definition copy_peer :: "string \<Rightarrow> bgp_peer \<Rightarrow> bgp_peer" where
  "copy_peer bip orig = (new_peer [] bip)\<lparr>p_AS := p_AS orig, p_addr_family := p_addr_family orig,
     p_ip := take 16 (p_ip orig)\<rparr>"

section \<open>Counters\<close>

definition count_rx :: "time_t \<Rightarrow> bytes_tx_rx \<Rightarrow> bytes_tx_rx" where
  "count_rx now c = c\<lparr>cnt_rx := cnt_rx c + 1, last_rx := now\<rparr>"

definition count_tx :: "time_t \<Rightarrow> bytes_tx_rx \<Rightarrow> bytes_tx_rx" where
  "count_tx now c = c\<lparr>cnt_tx := cnt_tx c + 1, last_tx := now\<rparr>"

text \<open>The number of routes the peer is counted with, and changing it.\<close>

definition current_rx :: "bgp_peer \<Rightarrow> u32" where
  "current_rx p = cur_rx (current (prefixes p))"

definition add_current_rx :: "u32 \<Rightarrow> bgp_peer \<Rightarrow> bgp_peer" where
  "add_current_rx d p = p\<lparr>prefixes := (prefixes p)\<lparr>current := (current (prefixes p))
     \<lparr>cur_rx := cur_rx (current (prefixes p)) + d\<rparr>\<rparr>\<rparr>"

lemma current_rx_add [simp]: "current_rx (add_current_rx d p) = current_rx p + d"
  by (simp add: current_rx_def add_current_rx_def)

lemma add_current_rx_sel [simp]:
  "p_bgp_id (add_current_rx d p) = p_bgp_id p" "state (add_current_rx d p) = state p"
  "in_queue (add_current_rx d p) = in_queue p" "p_ip (add_current_rx d p) = p_ip p"
  by (simp_all add: add_current_rx_def)

lemma add_current_rx_add [simp]: "add_current_rx d (add_current_rx e p) = add_current_rx (e + d) p"
  by (simp add: add_current_rx_def add.assoc)

lemma add_current_rx_0 [simp]: "add_current_rx 0 p = p"
  by (simp add: add_current_rx_def)

section \<open>Attribute aliases\<close>

definition alias_matches :: "bgp_path_attrib \<Rightarrow> u32 \<Rightarrow> translate_attribs_base \<Rightarrow> bool" where
  "alias_matches code v t \<longleftrightarrow> tr_code t = code \<and> tr_value t = v"

text \<open>
  The loop of \<^verbatim>\<open>set_translation\<close> over a size taken before it: \<open>n\<close> passes are left and \<open>i\<close> is the
  index. An erase makes the vector shorter, the bound stays.
\<close>

fun alias_loop :: "nat \<Rightarrow> nat \<Rightarrow> bgp_path_attrib \<Rightarrow> u32 \<Rightarrow> translate_attribs_base list \<Rightarrow> translate_attribs_base list result" where
  "alias_loop 0 i code v ts = Inr ts"
| "alias_loop (Suc n) i code v ts =
     (if i < length ts then
        alias_loop n (i + 1) code v
          (if alias_matches code v (ts ! i) then take i ts @ drop (i + 1) ts else ts)
      else Inl Out_of_bounds)"

text \<open>\<^verbatim>\<open>std::sort\<close> with \<^verbatim>\<open>alias_sort\<close>; aliases of one attribute keep their order.\<close>

definition alias_sort :: "translate_attribs_base list \<Rightarrow> translate_attribs_base list" where
  "alias_sort ts = sort_key tr_code ts"

definition set_translation :: "bgp_path_attrib \<Rightarrow> u32 \<Rightarrow> string \<Rightarrow> bgp_peer \<Rightarrow> bgp_peer result" where
  "set_translation code match_value new_value p =
     (let ts = translate_attribs p in
      rbind (alias_loop (length ts) 0 code match_value ts) (\<lambda>ts'.
      Inr (p\<lparr>translate_attribs :=
               alias_sort (ts' @ [\<lparr>tr_code = code, tr_value = match_value, printable_attrib = new_value\<rparr>]),
             is_aliasing := True\<rparr>)))"

lemma set_translation_keeps:
  "set_translation code v new p = Inr p' \<Longrightarrow> \<exists>ts. p' = p\<lparr>translate_attribs := ts, is_aliasing := True\<rparr>"
  by (auto simp: set_translation_def Let_def rbind_eq_Inr)

lemma alias_loop_no_match:
  "\<forall>t \<in> set ts. \<not> alias_matches code v t \<Longrightarrow> i + n \<le> length ts \<Longrightarrow> alias_loop n i code v ts = Inr ts"
  by (induction n arbitrary: i) auto

lemma alias_loop_short: "length ts < i + n \<Longrightarrow> 0 < n \<Longrightarrow> i \<le> length ts \<Longrightarrow> alias_loop n i code v ts = Inl Out_of_bounds"
proof (induction n arbitrary: i ts)
  case (Suc n)
  show ?case
  proof (cases "i < length ts")
    case True
    let ?ts = "if alias_matches code v (ts ! i) then take i ts @ drop (i + 1) ts else ts"
    have "length ?ts \<le> length ts" "length ts \<le> length ?ts + 1" by auto
    with Suc.prems True have "length ?ts < (i + 1) + n" "0 < n" by auto
    show ?thesis
    proof (cases "i + 1 \<le> length ?ts")
      case le: True
      with Suc.IH [of ?ts "i + 1"] \<open>length ?ts < (i + 1) + n\<close> \<open>0 < n\<close> True show ?thesis by simp
    next
      case False
      with \<open>0 < n\<close> True show ?thesis by (cases n) simp_all
    qed
  qed simp
qed simp

lemma alias_loop_match:
  assumes "\<exists>t \<in> set (drop i ts). alias_matches code v t" and "i + n = length ts"
  shows "alias_loop n i code v ts = Inl Out_of_bounds \<or>
    (n > 0 \<and> alias_matches code v (last ts) \<and> alias_loop n i code v ts = Inr (butlast ts))"
  using assms
proof (induction n arbitrary: i)
  case (Suc n)
  then have i: "i < length ts" by simp
  then have d: "drop i ts = ts ! i # drop (Suc i) ts" by (simp add: Cons_nth_drop_Suc)
  show ?case
  proof (cases "alias_matches code v (ts ! i)")
    case True
    let ?ts = "take i ts @ drop (i + 1) ts"
    show ?thesis
    proof (cases n)
      case 0
      then have "last ts = ts ! i" "butlast ts = ?ts"
      proof -
        have "ts \<noteq> []" "i = length ts - 1" using 0 Suc.prems(2) by auto
        then show "last ts = ts ! i" "butlast ts = ?ts"
          by (simp_all add: last_conv_nth butlast_conv_take)
      qed
      with 0 True i show ?thesis by simp
    next
      case (Suc m)
      have "alias_loop n (i + 1) code v ?ts = Inl Out_of_bounds"
        using Suc Suc.prems(2) i by (intro alias_loop_short) auto
      with True i show ?thesis by simp
    qed
  next
    case False
    with Suc.prems d have "\<exists>t \<in> set (drop (i + 1) ts). alias_matches code v t" "(i + 1) + n = length ts" by auto
    from Suc.IH [OF this] False i show ?thesis
      by (cases n) auto
  qed
qed simp

text \<open>
  setting an alias for an attribute value that has none yet: nothing of the old table is
  lost, the table stays ordered by attribute and the peer is marked as aliasing.
\<close>

theorem set_translation_new:
  assumes "\<forall>t \<in> set (translate_attribs p). \<not> alias_matches code v t"
  shows "\<exists>ts. set_translation code v new p = Inr (p\<lparr>translate_attribs := ts, is_aliasing := True\<rparr>)
     \<and> sorted (map tr_code ts)
     \<and> set ts = insert \<lparr>tr_code = code, tr_value = v, printable_attrib = new\<rparr> (set (translate_attribs p))
     \<and> length ts = length (translate_attribs p) + 1"
  using alias_loop_no_match [OF assms, of 0 "length (translate_attribs p)"]
  by (intro exI [of _ "alias_sort (translate_attribs p
        @ [\<lparr>tr_code = code, tr_value = v, printable_attrib = new\<rparr>])"])
    (simp add: set_translation_def alias_sort_def)

theorem set_translation_new_witness:
  "\<exists>ts. set_translation Attr_origin 0 ''igp'' (new_peer [] []) =
       Inr ((new_peer [] [])\<lparr>translate_attribs := ts, is_aliasing := True\<rparr>)
     \<and> sorted (map tr_code ts)
     \<and> set ts = insert \<lparr>tr_code = Attr_origin, tr_value = 0, printable_attrib = ''igp''\<rparr>
                  (set (translate_attribs (new_peer [] [])))
     \<and> length ts = length (translate_attribs (new_peer [] [])) + 1"
  by (rule set_translation_new) (simp add: new_peer_def bgp_peer.defs tcp_client.defs new_tcp_client_def)

text \<open>
  changing an alias that is set already. The loop erases the old entry but keeps the bound
  it computed before, so unless the old entry is the last of the table the loop goes on to
  read an element past the end of the vector.
\<close>

theorem set_translation_again:
  assumes "\<exists>t \<in> set (translate_attribs p). alias_matches code v t"
    and "\<not> alias_matches code v (last (translate_attribs p))"
  shows "set_translation code v new p = Inl Out_of_bounds"
  using alias_loop_match [of 0 "translate_attribs p" code v "length (translate_attribs p)"] assms
  by (simp add: set_translation_def)

theorem set_translation_again_witness:
  "set_translation Attr_origin 0 ''b'' ((new_peer [] [])\<lparr>translate_attribs :=
      [\<lparr>tr_code = Attr_origin, tr_value = 0, printable_attrib = ''a''\<rparr>,
       \<lparr>tr_code = Attr_local_pref, tr_value = 100, printable_attrib = ''low''\<rparr>]\<rparr>) = Inl Out_of_bounds"
  by (rule set_translation_again) (simp_all add: alias_matches_def)

end
