(* ===== verification/Thread_Mgr.thy ===== *)
theory Thread_Mgr
  imports Bgp_Peer
begin

text \<open>
  The neighbour table of \<^verbatim>\<open>include/bgp_thread-mgr.h\<close> and \<^verbatim>\<open>src/bgp_thread-mgr.cpp\<close>. The vector
  of \<^verbatim>\<open>shared_ptr<bgp_peer>\<close> is a list of peers (none of its pointers is ever null), a
  \<^verbatim>\<open>bgp_peer *\<close> into it the index of the peer. A client is promised what the locale
  \<open>peer_table\<close> says.
\<close>

type_synonym thread_q = "bgp_peer list"

text \<open>
  \<^verbatim>\<open>start_peer\<close>: a copy of the parameters is appended, and its thread started. \<open>bip\<close> is what the
  uninitialised array of the new object holds.
\<close>

definition start_peer :: "string \<Rightarrow> bgp_peer \<Rightarrow> thread_q \<Rightarrow> thread_q" where
  "start_peer bip params q = q @ [copy_peer bip params]"

definition peer_count :: "thread_q \<Rightarrow> nat" where
  "peer_count q = length q"

text \<open>\<^verbatim>\<open>at\<close> throws for an index outside the vector.\<close>

definition peer_at :: "nat \<Rightarrow> thread_q \<Rightarrow> bgp_peer option" where
  "peer_at i q = (if i < length q then Some (q ! i) else None)"

text \<open>
  The loop of \<^verbatim>\<open>delete_peer\<close>, with its eight bit index. \<open>self\<close> is where the peer is in the
  vector: once it is erased the object is gone, and the log line after the erase reads its
  address.
\<close>

partial_function (option) delete_loop :: "u32 \<Rightarrow> nat \<Rightarrow> u8 \<Rightarrow> thread_q \<Rightarrow> thread_q result option" where
  "delete_loop bid self i q =
     (if unat i < length q then
        (if p_bgp_id (q ! unat i) = bid then
           (if unat i = self then Some (Inl Use_after_free)
            else delete_loop bid (if unat i < self then self - 1 else self) (i + 1)
                   (take (unat i) q @ drop (unat i + 1) q))
         else delete_loop bid self (i + 1) q)
      else Some (Inr q))"

definition delete_peer :: "nat option \<Rightarrow> thread_q \<Rightarrow> (int \<times> thread_q) result option" where
  "delete_peer peer q =
     (case peer of
        None \<Rightarrow> Some (Inr (-1, q))
      | Some k \<Rightarrow> map_option (\<lambda>r. rbind r (\<lambda>q'. Inr (0, q'))) (delete_loop (p_bgp_id (q ! k)) k 0 q))"

text \<open>
  \<^verbatim>\<open>peer_exists(const bgp_peer *)\<close>: the loop with the eight bit index sees the first 256 peers,
  and does not end (\<open>None\<close>) when there are more than 255 and none of those it sees matches.
\<close>

definition peer_exists :: "bgp_peer option \<Rightarrow> thread_q \<Rightarrow> bool option" where
  "peer_exists peer q =
     (case peer of
        None \<Rightarrow> Some False
      | Some p \<Rightarrow>
          if list_ex (\<lambda>x. p_addr_family p = AF_INET \<and> ipv4 x = ipv4 p) (take 256 q) then Some True
          else if length q \<le> 255 then Some False
          else None)"

definition peer_exists_str :: "string \<Rightarrow> thread_q \<Rightarrow> bool" where
  "peer_exists_str ip q = (if ip = [] then False else list_ex (\<lambda>x. ip = p_ip x) q)"

text \<open>The index of the first peer with a property.\<close>

fun find_index :: "('a \<Rightarrow> bool) \<Rightarrow> 'a list \<Rightarrow> nat option" where
  "find_index P [] = None"
| "find_index P (x # xs) = (if P x then Some 0 else map_option Suc (find_index P xs))"

definition get_peer_by_str_ip :: "string \<Rightarrow> thread_q \<Rightarrow> nat option" where
  "get_peer_by_str_ip ip q = (if ip = [] then None else find_index (\<lambda>x. ip = p_ip x) q)"

definition get_peer_by_bgp_id :: "u32 \<Rightarrow> thread_q \<Rightarrow> nat option" where
  "get_peer_by_bgp_id i q = find_index (\<lambda>x. p_bgp_id x = i) q"

text \<open>The loop leaves after the first peer, whatever its id is.\<close>

definition peer_doing_alias :: "u32 \<Rightarrow> thread_q \<Rightarrow> bool" where
  "peer_doing_alias i q = (case q of [] \<Rightarrow> False | p # _ \<Rightarrow> is_aliasing p)"

section \<open>Lookup\<close>

lemma find_index_Some:
  "find_index P xs = Some i \<longleftrightarrow> i < length xs \<and> P (xs ! i) \<and> (\<forall>j < i. \<not> P (xs ! j))"
proof (induction xs arbitrary: i)
  case (Cons x xs)
  then show ?case by (cases i) (auto simp: less_Suc_eq_0_disj)
qed simp

lemma find_index_None: "find_index P xs = None \<longleftrightarrow> (\<forall>x \<in> set xs. \<not> P x)"
  by (induction xs) auto

lemma find_index_append:
  "find_index P (xs @ ys) =
     (case find_index P xs of Some i \<Rightarrow> Some i | None \<Rightarrow> map_option (\<lambda>i. length xs + i) (find_index P ys))"
proof (induction xs)
  case Nil
  show ?case by (cases "find_index P ys") auto
next
  case (Cons x xs)
  then show ?case by (cases "find_index P xs"; cases "find_index P ys") auto
qed

text \<open>Updating a peer in place does not change which index a lookup gives when the key stays.\<close>

lemma find_index_update:
  "k < length xs \<Longrightarrow> P y = P (xs ! k) \<Longrightarrow> find_index P (xs[k := y]) = find_index P xs"
proof (induction xs arbitrary: k)
  case (Cons x xs)
  then show ?case by (cases k) auto
qed simp

text \<open>What a client of a table of peers with keys relies on.\<close>

locale peer_table =
  fixes key :: "'p \<Rightarrow> 'k"
    and valid :: "'k \<Rightarrow> bool"
    and look :: "'k \<Rightarrow> 'p list \<Rightarrow> nat option"
  assumes look_Some: "look k q = Some i \<Longrightarrow> i < length q \<and> key (q ! i) = k"
    and look_None: "look k q = None \<Longrightarrow> valid k \<Longrightarrow> i < length q \<Longrightarrow> key (q ! i) \<noteq> k"
begin

lemma look_distinct:
  assumes "distinct (map key q)" and "i < length q" and "valid (key (q ! i))"
  shows "look (key (q ! i)) q = Some i"
proof (cases "look (key (q ! i)) q")
  case None
  from look_None [OF None assms(3,2)] show ?thesis by simp
next
  case (Some j)
  from look_Some [OF this] assms(1,2) show ?thesis
    by (auto simp: Some distinct_conv_nth)
qed

text \<open>A peer changed in place is found where it was, as long as its key stays.\<close>

lemma look_update_key:
  assumes "distinct (map key q)" and "i < length q" and "key p = key (q ! i)" and "valid k"
  shows "look k (q[i := p]) = look k q"
proof -
  have keys: "map key (q[i := p]) = map key q"
    using assms(2,3) by (simp add: map_update list_update_same_conv)
  then have nth: "key (q[i := p] ! j) = key (q ! j)" if "j < length q" for j
    using that by (metis length_list_update nth_map)
  show ?thesis
  proof (cases "look k q")
    case None
    then show ?thesis
      using look_None [OF None assms(4)] look_Some [of k "q[i := p]"] nth
      by (cases "look k (q[i := p])") (simp, metis length_list_update option.distinct(1))
  next
    case (Some j)
    then have j: "j < length q" "key (q ! j) = k" using look_Some by auto
    with look_distinct [of "q[i := p]" j] nth [OF j(1)] assms(1,4) keys Some show ?thesis by simp
  qed
qed

end

interpretation by_id: peer_table p_bgp_id "\<lambda>_. True" get_peer_by_bgp_id
  by unfold_locales (auto simp: get_peer_by_bgp_id_def find_index_Some find_index_None)

interpretation by_ip: peer_table p_ip "\<lambda>ip. ip \<noteq> []" get_peer_by_str_ip
  by unfold_locales
    (auto simp: get_peer_by_str_ip_def find_index_Some find_index_None split: if_splits)

section \<open>Starting and deleting neighbours\<close>

text \<open>
  a neighbour that was started is found by its address, unless one with that address was
  there before, and every other neighbour is found where it was.
\<close>

theorem start_peer_found:
  assumes "p_ip params \<noteq> []" and "length (p_ip params) \<le> 15"
    and "\<not> peer_exists_str (p_ip params) q"
  shows "get_peer_by_str_ip (p_ip params) (start_peer bip params q) = Some (length q)
    \<and> peer_exists_str (p_ip params) (start_peer bip params q)
    \<and> (\<forall>ip. ip \<noteq> p_ip params \<longrightarrow> get_peer_by_str_ip ip (start_peer bip params q) = get_peer_by_str_ip ip q)"
proof -
  let ?q = "start_peer bip params q"
  have new: "p_ip (copy_peer bip params) = p_ip params" using assms(2) by (simp add: copy_peer_def)
  have "find_index (\<lambda>x. p_ip params = p_ip x) q = None"
    using assms(1,3) by (simp add: find_index_None peer_exists_str_def list_ex_iff)
  then have "get_peer_by_str_ip (p_ip params) ?q = Some (length q)"
    using assms(1) new by (simp add: get_peer_by_str_ip_def start_peer_def find_index_append)
  moreover have "get_peer_by_str_ip ip ?q = get_peer_by_str_ip ip q" if "ip \<noteq> p_ip params" for ip
    using that new
    by (cases "find_index (\<lambda>x. ip = p_ip x) q")
      (simp_all add: get_peer_by_str_ip_def start_peer_def find_index_append)
  ultimately show ?thesis
    using assms(1) new by (simp add: peer_exists_str_def start_peer_def)
qed

theorem start_peer_found_witness:
  "get_peer_by_str_ip ''10.0.0.1'' (start_peer [] ((new_peer [] [])\<lparr>p_ip := ''10.0.0.1''\<rparr>) []) = Some 0"
  using start_peer_found [of "(new_peer [] [])\<lparr>p_ip := ''10.0.0.1''\<rparr>" "[]" "[]"]
  by (simp add: peer_exists_str_def)

text \<open>
  The check for an existing neighbour by its binary address cannot find one that was
  started: the copy constructor does not copy the address, so it is 0 in the table.
\<close>

lemma peer_exists_never:
  assumes "ipv4 p \<noteq> 0" and "\<forall>x \<in> set q. \<exists>bip params. x = copy_peer bip params" and "length q \<le> 255"
  shows "peer_exists (Some p) q = Some False"
proof -
  have "ipv4 (copy_peer bip params) = 0" for bip params
    by (simp add: copy_peer_def new_peer_def bgp_peer.defs tcp_client.defs new_tcp_client_def)
  then have "ipv4 x \<noteq> ipv4 p" if "x \<in> set (take 256 q)" for x
    using assms(1,2) that by (metis in_set_takeD)
  with assms(3) show ?thesis by (auto simp: peer_exists_def list_ex_iff)
qed

lemma delete_loop_self:
  assumes "\<forall>j < length q. p_bgp_id (q ! j) = bid \<longrightarrow> j = self"
    and "self < length q" and "p_bgp_id (q ! self) = bid" and "length q \<le> 255" and "unat i \<le> self"
  shows "delete_loop bid self i q = Some (Inl Use_after_free)"
  using assms(5)
proof (induction "self - unat i" arbitrary: i)
  case 0
  then have "unat i = self" by simp
  with assms(2,3) show ?case by (subst delete_loop.simps) simp
next
  case (Suc n)
  then have less: "unat i < self" by simp
  with assms(2,4) have "unat i + 1 < 2 ^ LENGTH(8)" by simp
  then have step: "unat (i + 1) = unat i + 1"
    by (simp add: unat_word_ariths)
  have "p_bgp_id (q ! unat i) \<noteq> bid" using assms(1,2) less by (metis less_trans nat_neq_iff)
  then have "delete_loop bid self i q = delete_loop bid self (i + 1) q"
    using less assms(2) by (subst delete_loop.simps) simp
  also have "\<dots> = Some (Inl Use_after_free)"
    using Suc step less by (intro Suc.hyps(1)) simp_all
  finally show ?case .
qed

text \<open>
  removing a neighbour deletes the object its thread still uses. When no other neighbour
  has its id, the scan reaches the peer's own entry, erases the last reference to it, and
  then logs the address of the deleted object.
\<close>

theorem delete_peer_use_after_free:
  assumes "k < length q" and "length q \<le> 255" and "distinct (map p_bgp_id q)"
  shows "delete_peer (Some k) q = Some (Inl Use_after_free)"
proof -
  have "\<forall>j < length q. p_bgp_id (q ! j) = p_bgp_id (q ! k) \<longrightarrow> j = k"
    using assms(1,3) by (auto simp: distinct_conv_nth)
  from delete_loop_self [OF this assms(1) refl assms(2), of 0] show ?thesis
    by (simp add: delete_peer_def)
qed

theorem delete_peer_use_after_free_witness:
  "delete_peer (Some 0) [new_peer [] []] = Some (Inl Use_after_free)"
  by (rule delete_peer_use_after_free) simp_all

end
