(* ===== verification/Bgp_Session.thy ===== *)
theory Bgp_Session
  imports Thread_Mgr
begin

text \<open>
  The session of one neighbour: \<^verbatim>\<open>src/bgp_send.cpp\<close>, \<^verbatim>\<open>src/bgp_open.cpp\<close>,
  \<^verbatim>\<open>src/bgp_notification.cpp\<close> and, of \<^verbatim>\<open>src/bgp.cpp\<close>, the connection attempts of
  \<^verbatim>\<open>init_peer_states\<close>, the loop of \<^verbatim>\<open>peer_established\<close> over the messages of a session and
  \<^verbatim>\<open>hold_timer_expired\<close>. The operations take the time \<^verbatim>\<open>time(NULL)\<close> returns and give back the
  peer and what was logged. Allocations succeed; the debug messages are left out.
\<close>

section \<open>The local side\<close>

record bgp_params =
  stop_and_exit_instance :: bool
  my_bgp_id :: u32
  my_hold_time :: u16
  my_AS :: u16
  my_port :: u8
  my_version :: u8
  my_b_ip :: string

datatype log_event =
    Adjchange string string       \<comment> \<open>\<^verbatim>\<open>BGP_5_ADJCHANGE\<close>: neighbour and text\<close>
  | Notice string string          \<comment> \<open>\<^verbatim>\<open>BGP_3_NOTIFICATION\<close>: code and subcode text\<close>

text \<open>\<^verbatim>\<open>set_id\<close>\<close>

definition set_id :: "u32 \<Rightarrow> 'a bgp_params_scheme \<Rightarrow> 'a bgp_params_scheme" where
  "set_id ip b = b\<lparr>my_bgp_id := ip, my_b_ip := inet_ntoa ip\<rparr>"

section \<open>Sending\<close>

definition count_sent :: "bgp_msg_type \<Rightarrow> time_t \<Rightarrow> bgp_peer \<Rightarrow> bgp_peer" where
  "count_sent msg_type now p =
     (case msg_type of
        Msg_open \<Rightarrow> p\<lparr>opens := count_tx now (opens p)\<rparr>
      | Msg_update \<Rightarrow> p\<lparr>update_cnt := count_tx now (update_cnt p)\<rparr>
      | Msg_notification \<Rightarrow> p\<lparr>notify := count_tx now (notify p)\<rparr>
      | Msg_keepalive \<Rightarrow> p\<lparr>keepaliv := count_tx now (keepaliv p)\<rparr>
      | Msg_routerefresh \<Rightarrow> p\<lparr>routeref := count_tx now (routeref p)\<rparr>)"

definition send_packet :: "time_t \<Rightarrow> bgp_peer \<Rightarrow> bytes \<Rightarrow> bgp_msg_type \<Rightarrow> u16 \<times> bgp_peer" where
  "send_packet now p payload msg_type =
     (if state p = Idle then (0, p)
      else if msg_type = Msg_update then (0, p)
      else
        (let len = of_nat (length payload) + 19 :: u16;
             p1 = tcp_write (replicate 16 0xFF) p;
             p2 = write_formated (ucast (drop_bit 8 len)) (ucast (len AND 0xFF)) p1;
             p3 = tcp_write [msg_type_code msg_type] p2;
             p4 = tcp_write payload p3;
             p5 = tx_flush p4;
             p6 = p5\<lparr>tx_rx := (tx_rx p5)\<lparr>cnt_tx := cnt_tx (tx_rx p5) + ucast len\<rparr>,
                     last_IO := (last_IO p5)\<lparr>last_write := now\<rparr>\<rparr>
         in (len, count_sent msg_type now p6)))"

definition send_open :: "'a bgp_params_scheme \<Rightarrow> time_t \<Rightarrow> bgp_peer \<Rightarrow> bgp_peer" where
  "send_open b now p =
     (let open_message =
            [my_version b,
             ucast (drop_bit 8 (my_AS b)), ucast (my_AS b AND 0xFF),
             ucast (drop_bit 8 (my_hold_time b)), ucast (my_hold_time b AND 0xFF),
             ucast (my_bgp_id b AND 0xFF), ucast (drop_bit 8 (my_bgp_id b)),
             ucast (drop_bit 16 (my_bgp_id b)), ucast (drop_bit 24 (my_bgp_id b)),
             0];
          p' = snd (send_packet now p open_message Msg_open)
      in p'\<lparr>state := Opensent\<rparr>)"

definition notification :: "time_t \<Rightarrow> bgp_peer \<Rightarrow> bgp_error_code \<Rightarrow> u8 \<Rightarrow> bgp_peer" where
  "notification now p err_code err_subcode =
     snd (send_packet now p [error_code err_code, err_subcode] Msg_notification)"

section \<open>Receiving\<close>

definition reject_open :: "time_t \<Rightarrow> bgp_peer \<Rightarrow> bgp_open_error_subcode \<Rightarrow> bgp_peer" where
  "reject_open now p sub =
     disconnect ((notification now p Err_open_msg (open_error_subcode sub))\<lparr>state := Idle\<rparr>)"

text \<open>
  \<^verbatim>\<open>decode_open\<close>. \<^verbatim>\<open>memcpy(&peer->version, &open_header.version, 1)\<close> replaces the low byte of a
  \<^verbatim>\<open>uint16_t\<close>; \<^verbatim>\<open>inet_ntoa\<close> never returns null, so the branch for a bad id is dead.
\<close>

definition decode_open :: "'a bgp_params_scheme \<Rightarrow> time_t \<Rightarrow> bgp_peer \<Rightarrow> bytes \<Rightarrow> bgp_peer result" where
  "decode_open b now p packet =
     rbind (rd packet 0) (\<lambda>ver.
     rbind (rd16 packet 1) (\<lambda>as.
     rbind (rd packet 4) (\<lambda>h_lo. rbind (rd packet 3) (\<lambda>h_hi.
     rbind (rd packet 5) (\<lambda>i0. rbind (rd packet 6) (\<lambda>i1.
     rbind (rd packet 7) (\<lambda>i2. rbind (rd packet 8) (\<lambda>i3.
     rbind (rd packet 9) (\<lambda>opt.
       let hold = ucast h_lo + ucast h_hi :: u16;
           bid = ucast i0 + push_bit 8 (ucast i1) + push_bit 16 (ucast i2) + push_bit 24 (ucast i3) :: u32
       in Inr
         (if ver \<noteq> my_version b then reject_open now p Osub_unsup_ver_num
          else
            (let p1 = p\<lparr>p_version := word_of_le (ver # drop 1 (le_bytes 2 (p_version p)))\<rparr>
             in if as \<noteq> p_AS p1 then reject_open now p1 Osub_bad_peer_as
                else
                  (let p2 = p1\<lparr>p_AS := as, p_bgp_id := bid, p_b_ip := inet_ntoa bid,
                               p_hold_time := hold, keep_alive := hold div 3,
                               opt_param_len := ucast opt, state := Openconfirm\<rparr>
                   in snd (send_packet now p2 [] Msg_keepalive)))))))))))))"

definition decode_notification :: "bytes \<Rightarrow> log_event list result" where
  "decode_notification packet =
     rbind (rd packet 0) (\<lambda>code. rbind (rd packet 1) (\<lambda>sub. rbind (rd_block packet 2 6) (\<lambda>_.
       if code = error_code Err_msg_head then
         rbind (table_string bgp_error_codes code) (\<lambda>a.
         rbind (table_string bgp_error_sub_header sub) (\<lambda>s. Inr [Notice a s]))
       else if code = error_code Err_open_msg then
         rbind (table_string bgp_error_codes code) (\<lambda>a.
         rbind (table_string bgp_error_sub_open sub) (\<lambda>s. Inr [Notice a s]))
       else if code = error_code Err_update_msg then
         rbind (table_string bgp_error_codes code) (\<lambda>a.
         rbind (table_string bgp_error_sub_update sub) (\<lambda>s. Inr [Notice a s]))
       else if code = error_code Err_hold_time_expired \<or> code = error_code Err_finite_state_mach
               \<or> code = error_code Err_cease then
         rbind (table_string bgp_error_codes code) (\<lambda>a. Inr [Notice a []])
       else Inr [])))"

text \<open>
  The \<^verbatim>\<open>switch\<close> of \<^verbatim>\<open>peer_established\<close> over a whole message. The message buffer has
  \<^verbatim>\<open>header->len\<close> bytes: the payload and 19 bytes of \<open>junk\<close> that are never written.
\<close>

definition queue_update :: "bytes \<Rightarrow> bgp_peer \<Rightarrow> bgp_peer result" where
  "queue_update payload p =
     rbind (guard Buffer_overflow (length payload \<le> 4096)) (\<lambda>_.
     Inr (p\<lparr>in_queue := in_queue p @ [\<lparr>q_length = of_nat (length payload), q_packet = payload\<rparr>],
            in_q := in_q p + 1\<rparr>))"

definition handle_message ::
    "'a bgp_params_scheme \<Rightarrow> time_t \<Rightarrow> bytes \<Rightarrow> u8 \<Rightarrow> bytes \<Rightarrow> bgp_peer \<Rightarrow> (bgp_peer \<times> log_event list) result" where
  "handle_message b now junk msg_type payload p =
     (case msg_type_of msg_type of
        Some Msg_open \<Rightarrow>
          rbind (decode_open b now (p\<lparr>opens := count_rx now (opens p)\<rparr>) (payload @ junk)) (\<lambda>p'. Inr (p', []))
      | Some Msg_keepalive \<Rightarrow>
          (let p1 = p\<lparr>keepaliv := count_rx now (keepaliv p)\<rparr>;
               up = (state p1 = Openconfirm);
               p2 = (if up then p1\<lparr>state := Established, up_since := now\<rparr> else p1)
           in Inr (snd (send_packet now p2 [] Msg_keepalive),
                   if up then [Adjchange (p_ip p) ''Up''] else []))
      | Some Msg_notification \<Rightarrow>
          rbind (decode_notification (payload @ junk)) (\<lambda>ls.
          Inr (p\<lparr>notify := count_rx now (notify p)\<rparr>, ls))
      | Some Msg_update \<Rightarrow>
          rbind (queue_update payload (p\<lparr>update_cnt := count_rx now (update_cnt p)\<rparr>)) (\<lambda>p'. Inr (p', []))
      | Some Msg_routerefresh \<Rightarrow> Inr (p\<lparr>routeref := count_rx now (routeref p)\<rparr>, [])
      | None \<Rightarrow> Inr (p, []))"

text \<open>The bytes a peer can still read.\<close>

definition pending :: "bgp_peer \<Rightarrow> bytes" where
  "pending p = (case rx p of None \<Rightarrow> [] | Some r \<Rightarrow> rx_data r)"

text \<open>
  One pass of the loop of \<^verbatim>\<open>peer_established\<close>. A length below 19 makes \<^verbatim>\<open>header->len - 19\<close> an
  enormous \<^verbatim>\<open>size_t\<close>: the read then stores everything that arrives into a buffer of
  \<^verbatim>\<open>header->len\<close> bytes.
\<close>

definition established_step ::
    "'a bgp_params_scheme \<Rightarrow> time_t \<Rightarrow> bytes \<Rightarrow> bgp_peer \<Rightarrow> (bgp_peer \<times> log_event list) result" where
  "established_step b now junk p =
     (case tcp_read 19 p of
        (None, p1) \<Rightarrow> Inr (p1, [])
      | (Some head, p1) \<Rightarrow>
          if length head = 19 then
            (let p2 = p1\<lparr>last_IO := (last_IO p1)\<lparr>last_read := now\<rparr>\<rparr>;
                 len = be16 (head ! 16) (head ! 17)
             in if unat len < 19 then
                  rbind (guard Buffer_overflow (length (pending p2) \<le> unat len)) (\<lambda>_.
                  Inr (snd (tcp_read (length (pending p2) + 1) p2), []))
                else
                  (case tcp_read (unat len - 19) p2 of
                     (None, p3) \<Rightarrow> Inr (p3, [])
                   | (Some payload, p3) \<Rightarrow>
                       if length payload = unat len - 19
                       then handle_message b now junk (head ! 18) payload p3
                       else Inr (p3, [])))
          else Inr (p1, []))"

section \<open>The hold timer\<close>

text \<open>\<^verbatim>\<open>time_t\<close> is signed; the result is whether the peer's queue is to be left alone.\<close>

definition hold_timer_expired :: "time_t \<Rightarrow> bgp_peer \<Rightarrow> bool \<times> bgp_peer \<times> log_event list" where
  "hold_timer_expired now p =
     (if state p \<noteq> Established then (True, p, [])
      else if sint (now - last_read (last_IO p)) \<ge> int (unat (p_hold_time p)) then
        (True,
         disconnect ((notification now p Err_hold_time_expired (error_subcode Sub_zero))\<lparr>state := Idle\<rparr>),
         [Adjchange (p_ip p) ''Down Holdtime expired''])
      else if sint (now - last_tx (keepaliv p)) \<ge> int (unat (keep_alive p)) then
        (False, snd (send_packet now p [] Msg_keepalive), [])
      else (False, p, []))"

section \<open>Connecting\<close>

text \<open>
  What the system answers to one pass of the loop of \<^verbatim>\<open>init_peer_states\<close>: to the connection
  attempt and to the four calls that set buffer sizes.
\<close>

record attempt =
  at_connect :: connect_env
  at_rx_buf :: bool
  at_tx_buf :: bool
  at_rx_sock :: bool
  at_tx_sock :: bool

definition drop_to_idle :: "bool \<Rightarrow> bgp_peer \<Rightarrow> bgp_peer" where
  "drop_to_idle ok p = (if ok then p else (disconnect p)\<lparr>state := Idle\<rparr>)"

text \<open>One pass: the code goes on to the next buffer after it has disconnected.\<close>

definition connect_attempt :: "attempt \<Rightarrow> bgp_peer \<Rightarrow> bgp_peer result" where
  "connect_attempt a p =
     (case connect (at_connect a) (p\<lparr>state := Active\<rparr>) of
        (False, p1) \<Rightarrow> Inr ((disconnect p1)\<lparr>state := Idle\<rparr>)
      | (True, p1) \<Rightarrow>
          rbind (set_bgp_rx_buffer_size (at_rx_buf a) (bgp_rx_buffer_size p1) (p1\<lparr>state := Connect\<rparr>)) (\<lambda>(ok, p2).
          rbind (set_bgp_tx_buffer_size (at_tx_buf a) (bgp_tx_buffer_size p2) (drop_to_idle ok p2)) (\<lambda>(ok, p3).
          let p4 = drop_to_idle ok p3;
              (ok, p5) = set_tcp_rx_buffer_size (at_rx_sock a) (tcp_rx_socket_buffer_size p4) p4;
              p6 = drop_to_idle ok p5;
              (ok, p7) = set_tcp_tx_buffer_size (at_tx_sock a) (tcp_tx_socket_buffer_size p6) p6
          in Inr (drop_to_idle ok p7))))"

text \<open>
  \<^verbatim>\<open>init_peer_states\<close> over the answers to its attempts; \<open>None\<close> is that it is still trying when
  they are used up.
\<close>

fun init_attempts :: "attempt list \<Rightarrow> bgp_peer \<Rightarrow> bgp_peer result option" where
  "init_attempts [] p = (if state p = Idle then None else Some (Inr p))"
| "init_attempts (a # as) p =
     (if state p = Idle then
        (case connect_attempt a p of Inl e \<Rightarrow> Some (Inl e) | Inr p' \<Rightarrow> init_attempts as p')
      else Some (Inr p))"

definition init_peer_states :: "'a bgp_params_scheme \<Rightarrow> time_t \<Rightarrow> attempt list \<Rightarrow> bgp_peer \<Rightarrow> bgp_peer result option" where
  "init_peer_states b now as p =
     map_option (\<lambda>r. rbind r (\<lambda>p'. Inr (send_open b now p'))) (init_attempts as (p\<lparr>state := Idle\<rparr>))"

end
