(* ===== verification/Std_Map.thy ===== *)
theory Std_Map
  imports Prelude
begin

text \<open>
  \<^verbatim>\<open>std::map<K, V, Compare>\<close> as the program uses it: \<^verbatim>\<open>find\<close>, \<^verbatim>\<open>m[k] = v\<close>, the inserting
  \<^verbatim>\<open>m[k]\<close>, \<^verbatim>\<open>erase\<close> of an iterator and iteration in the order of the comparator. The
  container is the list of its entries in iteration order; two keys are the same key when
  neither is less than the other. The comparator is an argument of every operation.

  The locale \<open>map_contract\<close> is what a client relies on, \<open>comparator\<close> what a comparator has
  to satisfy; the containers of the program (the adj-rib-in, the index of the event
  database, the table of syslog destinations) interpret it with their own comparator.
\<close>

section \<open>Operations\<close>

type_synonym ('k, 'v) std_map = "('k \<times> 'v) list"

fun map_find :: "('k \<Rightarrow> 'k \<Rightarrow> bool) \<Rightarrow> 'k \<Rightarrow> ('k, 'v) std_map \<Rightarrow> 'v option" where
  "map_find lt k [] = None"
| "map_find lt k ((a, v) # m) =
     (if lt a k then map_find lt k m else if lt k a then None else Some v)"

fun map_assign :: "('k \<Rightarrow> 'k \<Rightarrow> bool) \<Rightarrow> 'k \<Rightarrow> 'v \<Rightarrow> ('k, 'v) std_map \<Rightarrow> ('k, 'v) std_map" where
  "map_assign lt k v [] = [(k, v)]"
| "map_assign lt k v ((a, w) # m) =
     (if lt a k then (a, w) # map_assign lt k v m
      else if lt k a then (k, v) # (a, w) # m
      else (a, v) # m)"

fun map_erase :: "('k \<Rightarrow> 'k \<Rightarrow> bool) \<Rightarrow> 'k \<Rightarrow> ('k, 'v) std_map \<Rightarrow> ('k, 'v) std_map" where
  "map_erase lt k [] = []"
| "map_erase lt k ((a, w) # m) =
     (if lt a k then (a, w) # map_erase lt k m
      else if lt k a then (a, w) # m
      else m)"

text \<open>\<^verbatim>\<open>m[k]\<close> read through a reference inserts a default value for a key that is absent.\<close>

definition map_index :: "('k \<Rightarrow> 'k \<Rightarrow> bool) \<Rightarrow> 'v \<Rightarrow> 'k \<Rightarrow> ('k, 'v) std_map \<Rightarrow> 'v \<times> ('k, 'v) std_map" where
  "map_index lt d k m =
     (case map_find lt k m of Some v \<Rightarrow> (v, m) | None \<Rightarrow> (d, map_assign lt k d m))"

text \<open>Walking the container and erasing the first entry with a property.\<close>

fun erase_first :: "('v \<Rightarrow> bool) \<Rightarrow> ('k, 'v) std_map \<Rightarrow> ('k, 'v) std_map option" where
  "erase_first P [] = None"
| "erase_first P ((k, v) # m) =
     (if P v then Some m else map_option ((#) (k, v)) (erase_first P m))"

definition map_sorted :: "('k \<Rightarrow> 'k \<Rightarrow> bool) \<Rightarrow> ('k, 'v) std_map \<Rightarrow> bool" where
  "map_sorted lt m = sorted_wrt (\<lambda>x y. lt (fst x) (fst y)) m"

lemma map_sorted_simps [simp]:
  "map_sorted lt []"
  "map_sorted lt (x # m) \<longleftrightarrow> (\<forall>y \<in> set m. lt (fst x) (fst y)) \<and> map_sorted lt m"
  by (simp_all add: map_sorted_def)

lemma erase_first_None: "erase_first P m = None \<longleftrightarrow> (\<forall>x \<in> set m. \<not> P (snd x))"
  by (induction m) (auto split: if_splits)

lemma erase_first_Some:
  "erase_first P m = Some m' \<Longrightarrow>
     \<exists>xs x ys. m = xs @ x # ys \<and> m' = xs @ ys \<and> P (snd x) \<and> (\<forall>y \<in> set xs. \<not> P (snd y))"
proof (induction m arbitrary: m')
  case (Cons z m)
  obtain k v where z: "z = (k, v)" by fastforce
  show ?case
  proof (cases "P v")
    case True
    with Cons.prems z show ?thesis by (intro exI [of _ "[]"]) auto
  next
    case False
    with Cons.prems z obtain m'' where m'': "erase_first P m = Some m''" "m' = z # m''" by auto
    from Cons.IH [OF m''(1)] obtain xs x ys where
      "m = xs @ x # ys" "m'' = xs @ ys" "P (snd x)" "\<forall>y \<in> set xs. \<not> P (snd y)" by blast
    with False z m'' show ?thesis by (intro exI [of _ "z # xs"]) auto
  qed
qed simp

lemma map_sorted_erase_first:
  "map_sorted lt m \<Longrightarrow> erase_first P m = Some m' \<Longrightarrow> map_sorted lt m'"
  by (auto dest!: erase_first_Some simp: map_sorted_def sorted_wrt_append)

lemma filter_erase_first:
  assumes "erase_first P m = Some m'"
  shows "filter (\<lambda>x. \<not> P (snd x)) m' = filter (\<lambda>x. \<not> P (snd x)) m"
    and "length (filter (\<lambda>x. P (snd x)) m) = Suc (length (filter (\<lambda>x. P (snd x)) m'))"
  using erase_first_Some [OF assms] by auto

lemma set_erase_first: "erase_first P m = Some m' \<Longrightarrow> set m' \<subseteq> set m"
  by (auto dest!: erase_first_Some)

lemma length_erase_first: "erase_first P m = Some m' \<Longrightarrow> length m = Suc (length m')"
  by (auto dest!: erase_first_Some)

section \<open>What a client of a map relies on\<close>

locale map_contract =
  fixes empty :: "'m"
    and look :: "'k \<Rightarrow> 'm \<Rightarrow> 'v option"
    and assign :: "'k \<Rightarrow> 'v \<Rightarrow> 'm \<Rightarrow> 'm"
    and erase :: "'k \<Rightarrow> 'm \<Rightarrow> 'm"
    and inv :: "'m \<Rightarrow> bool"
  assumes inv_empty: "inv empty"
    and inv_assign: "inv m \<Longrightarrow> inv (assign k v m)"
    and inv_erase: "inv m \<Longrightarrow> inv (erase k m)"
    and look_empty: "look k empty = None"
    and look_assign: "inv m \<Longrightarrow> look k' (assign k v m) = (if k' = k then Some v else look k' m)"
    and look_erase: "inv m \<Longrightarrow> look k' (erase k m) = (if k' = k then None else look k' m)"
begin

lemmas laws = inv_empty inv_assign inv_erase look_empty look_assign look_erase

text \<open>A whole batch of assignments: the last one for a key decides.\<close>

lemma inv_fold_assign: "inv m \<Longrightarrow> inv (fold (\<lambda>(k, v). assign k v) xs m)"
  by (induction xs arbitrary: m) (auto simp: inv_assign)

lemma look_fold_assign:
  "inv m \<Longrightarrow>
     look k (fold (\<lambda>(k, v). assign k v) xs m) =
       (case map_of (rev xs) k of Some v \<Rightarrow> Some v | None \<Rightarrow> look k m)"
  by (induction xs arbitrary: m)
    (auto simp: inv_assign look_assign map_add_Some_iff split: option.splits)

end

section \<open>Comparators\<close>

locale comparator =
  fixes lt :: "'k \<Rightarrow> 'k \<Rightarrow> bool"
  assumes irrefl: "\<not> lt a a"
    and trans: "lt a b \<Longrightarrow> lt b c \<Longrightarrow> lt a c"
    and total: "lt a b \<or> a = b \<or> lt b a"
begin

lemma asym: "lt a b \<Longrightarrow> \<not> lt b a"
  using irrefl trans by blast

lemma key_cases:
  obtains (less) "lt a k" "\<not> lt k a" "a \<noteq> k"
    | (eq) "a = k" "\<not> lt a k" "\<not> lt k a"
    | (greater) "lt k a" "\<not> lt a k" "a \<noteq> k"
  using total [of a k] asym irrefl by metis

lemma find_None_below: "\<forall>x \<in> set m. lt k (fst x) \<Longrightarrow> map_find lt k m = None"
  by (cases m) (auto dest: asym)

lemma find_iff_mem: "map_sorted lt m \<Longrightarrow> map_find lt k m = Some v \<longleftrightarrow> (k, v) \<in> set m"
proof (induction m)
  case (Cons x m)
  obtain a w where x: "x = (a, w)" by fastforce
  from Cons.prems x have sm: "map_sorted lt m" and below: "\<forall>y \<in> set m. lt a (fst y)" by auto
  from Cons.IH [OF sm] below x show ?case by (cases a k rule: key_cases) (auto dest: asym)
qed simp

lemma find_None_iff: "map_sorted lt m \<Longrightarrow> map_find lt k m = None \<longleftrightarrow> k \<notin> fst ` set m"
  using find_iff_mem [of m k] by (cases "map_find lt k m") force+

lemma set_assign_keys: "fst ` set (map_assign lt k v m) = insert k (fst ` set m)"
proof (induction m)
  case (Cons x m)
  obtain a w where x: "x = (a, w)" by fastforce
  with Cons show ?case by (cases a k rule: key_cases) auto
qed simp

lemma sorted_assign: "map_sorted lt m \<Longrightarrow> map_sorted lt (map_assign lt k v m)"
proof (induction m)
  case (Cons x m)
  obtain a w where x: "x = (a, w)" by fastforce
  have *: "\<forall>y \<in> set (map_assign lt k v m). lt a (fst y)" if "lt a k"
    using Cons.prems that x set_assign_keys [of k v m] by fastforce
  show ?case
    by (cases a k rule: key_cases) (use Cons x * in \<open>auto dest: trans\<close>)
qed simp

lemma set_erase: "map_sorted lt m \<Longrightarrow> set (map_erase lt k m) = {x \<in> set m. fst x \<noteq> k}"
proof (induction m)
  case (Cons x m)
  obtain a w where x: "x = (a, w)" by fastforce
  show ?case
    by (cases a k rule: key_cases) (use Cons x in \<open>auto dest: asym\<close>)
qed simp

lemma sorted_erase: "map_sorted lt m \<Longrightarrow> map_sorted lt (map_erase lt k m)"
  by (induction m) (auto simp: set_erase)

lemma find_assign:
  assumes "map_sorted lt m"
  shows "map_find lt k' (map_assign lt k v m) = (if k' = k then Some v else map_find lt k' m)"
  using assms
proof (induction m)
  case Nil
  show ?case by (cases k k' rule: key_cases) auto
next
  case (Cons x m)
  obtain a w where x: "x = (a, w)" by fastforce
  show ?case
  proof (cases a k rule: key_cases)
    case less
    then show ?thesis using Cons x by auto
  next
    case eq
    then show ?thesis using x by (cases a k' rule: key_cases) auto
  next
    case greater
    then show ?thesis using x by (cases k k' rule: key_cases) (auto dest: trans)
  qed
qed

lemma find_erase:
  assumes "map_sorted lt m"
  shows "map_find lt k' (map_erase lt k m) = (if k' = k then None else map_find lt k' m)"
  by (rule option_eqI) (use assms in \<open>auto simp: find_iff_mem sorted_erase set_erase\<close>)

lemma assign_assign: "map_assign lt k v (map_assign lt k w m) = map_assign lt k v m"
proof (induction m)
  case Nil
  show ?case by (simp add: irrefl)
next
  case (Cons x m)
  obtain a u where x: "x = (a, u)" by fastforce
  show ?case by (cases a k rule: key_cases) (use Cons x in \<open>auto simp: irrefl\<close>)
qed

text \<open>How the number of entries of one kind changes.\<close>

lemma count_assign:
  assumes "map_sorted lt m"
  shows "length (filter (\<lambda>x. Q (fst x)) (map_assign lt k v m)) =
    length (filter (\<lambda>x. Q (fst x)) m) + (if Q k \<and> map_find lt k m = None then 1 else 0)"
  using assms
proof (induction m)
  case (Cons x m)
  obtain a w where x: "x = (a, w)" by fastforce
  show ?case by (cases a k rule: key_cases) (use Cons x in auto)
qed simp

lemma count_erase:
  assumes "map_sorted lt m" and "map_find lt k m \<noteq> None"
  shows "length (filter (\<lambda>x. Q (fst x)) m) =
    length (filter (\<lambda>x. Q (fst x)) (map_erase lt k m)) + (if Q k then 1 else 0)"
  using assms
proof (induction m)
  case (Cons x m)
  obtain a w where x: "x = (a, w)" by fastforce
  show ?case by (cases a k rule: key_cases) (use Cons x in auto)
qed simp

lemma map_index_simps:
  assumes "map_sorted lt m"
  shows "fst (map_index lt d k m) = (case map_find lt k m of Some v \<Rightarrow> v | None \<Rightarrow> d)"
    and "map_sorted lt (snd (map_index lt d k m))"
    and "map_find lt k' (snd (map_index lt d k m)) =
           (if k' = k then Some (fst (map_index lt d k m)) else map_find lt k' m)"
  using assms by (auto simp: map_index_def sorted_assign find_assign split: option.splits)

end

sublocale comparator \<subseteq> map: map_contract
    "[]" "map_find lt" "map_assign lt" "map_erase lt" "map_sorted lt"
  by unfold_locales (simp_all add: sorted_assign sorted_erase find_assign find_erase)

end
