(* ===== verification/Adj_Rib.thy ===== *)
theory Adj_Rib
  imports Std_Map Bgp_Msg
begin

text \<open>
  The routing information base of \<^verbatim>\<open>include/bgp_adj_rib.h\<close>: a \<^verbatim>\<open>std::map\<close> from
  [prefix, bgp id] to the last update, ordered by \<^verbatim>\<open>rib_sort\<close>. The order is by the bytes in
  memory; because both components are in network byte order it is the numeric order of the
  addresses, with the bgp id breaking ties.
\<close>

type_synonym prefix_entry = "u32 \<times> u32"

definition rib_sort :: "prefix_entry \<Rightarrow> prefix_entry \<Rightarrow> bool" where
  "rib_sort a b \<longleftrightarrow>
     memcmp_u32 (fst a) (fst b) < 0
     \<or> (memcmp_u32 (fst a) (fst b) = 0 \<and> memcmp_u32 (snd a) (snd b) < 0)"

type_synonym bgp_adj_rib = "(prefix_entry, bgp_update) std_map"

lemma rib_sort_iff:
  "rib_sort a b \<longleftrightarrow>
     ntohl (fst a) < ntohl (fst b) \<or> (fst a = fst b \<and> ntohl (snd a) < ntohl (snd b))"
  by (simp add: rib_sort_def byte_simps)

interpretation rib: comparator rib_sort
proof unfold_locales
  show "\<not> rib_sort a a" for a by (simp add: rib_sort_iff)
  show "rib_sort a b \<Longrightarrow> rib_sort b c \<Longrightarrow> rib_sort a c" for a b c
    by (auto simp: rib_sort_iff)
  show "rib_sort a b \<or> a = b \<or> rib_sort b a" for a b
    using ntohl_inject [of "fst a" "fst b"] ntohl_inject [of "snd a" "snd b"]
    by (auto simp: rib_sort_iff prod_eq_iff simp del: ntohl_inject)
qed

text \<open>The key under which an update is stored.\<close>

definition rib_key :: "bgp_update \<Rightarrow> prefix_entry" where
  "rib_key u = (prefix (nlri u), nlri_bgp_id (nlri u))"

text \<open>
  The invariant of the RIB: entries in order, each under the key of its own update, each a
  well-formed update.
\<close>

definition rib_inv :: "bgp_adj_rib \<Rightarrow> bool" where
  "rib_inv r \<longleftrightarrow> map_sorted rib_sort r
     \<and> (\<forall>(k, u) \<in> set r. k = rib_key u \<and> update_wf u)"

text \<open>How many routes of one peer the RIB holds.\<close>

definition rib_count :: "u32 \<Rightarrow> bgp_adj_rib \<Rightarrow> nat" where
  "rib_count i r = length (filter (\<lambda>x. snd (fst x) = i) r)"

lemma rib_inv_Nil [simp]: "rib_inv []"
  by (simp add: rib_inv_def)

lemma rib_inv_sorted: "rib_inv r \<Longrightarrow> map_sorted rib_sort r"
  by (simp add: rib_inv_def)

lemma rib_inv_entry: "rib_inv r \<Longrightarrow> (k, u) \<in> set r \<Longrightarrow> k = rib_key u \<and> update_wf u"
  by (auto simp: rib_inv_def)

lemma rib_find_key: "rib_inv r \<Longrightarrow> map_find rib_sort k r = Some u \<Longrightarrow> rib_key u = k \<and> update_wf u"
  by (auto simp: rib_inv_def rib.find_iff_mem)

lemma set_map_assign_subset: "set (map_assign lt k v m) \<subseteq> insert (k, v) (set m) \<union> {(a, v) | a. \<not> lt a k \<and> \<not> lt k a}"
  by (induction m) (auto split: if_splits)

lemma rib_inv_assign:
  assumes "rib_inv r" and "update_wf u"
  shows "rib_inv (map_assign rib_sort (rib_key u) u r)"
proof -
  have "set (map_assign rib_sort (rib_key u) u r) \<subseteq> insert (rib_key u, u) (set r)"
    using set_map_assign_subset [of rib_sort "rib_key u" u r] rib.total by blast
  with assms show ?thesis by (fastforce simp: rib_inv_def rib.sorted_assign)
qed

lemma rib_inv_erase: "rib_inv r \<Longrightarrow> rib_inv (map_erase rib_sort k r)"
  by (auto simp: rib_inv_def rib.sorted_erase rib.set_erase)

lemma rib_inv_erase_first: "rib_inv r \<Longrightarrow> erase_first P r = Some r' \<Longrightarrow> rib_inv r'"
  using set_erase_first [of P r r'] map_sorted_erase_first [of rib_sort r P r']
  by (fastforce simp: rib_inv_def)

lemma rib_count_Nil [simp]: "rib_count i [] = 0"
  by (simp add: rib_count_def)

lemma rib_count_assign:
  "rib_inv r \<Longrightarrow> rib_count i (map_assign rib_sort k u r) =
     rib_count i r + (if i = snd k \<and> map_find rib_sort k r = None then 1 else 0)"
  using rib.count_assign [OF rib_inv_sorted, where Q = "\<lambda>k. snd k = i"]
  by (auto simp: rib_count_def)

lemma rib_count_erase:
  "rib_inv r \<Longrightarrow> map_find rib_sort k r \<noteq> None \<Longrightarrow>
     rib_count i r = rib_count i (map_erase rib_sort k r) + (if i = snd k then 1 else 0)"
  using rib.count_erase [OF rib_inv_sorted, where Q = "\<lambda>k. snd k = i"]
  by (auto simp: rib_count_def)

text \<open>The entries of a peer, told by the stored update or by the key.\<close>

lemma filter_rib_peer:
  "rib_inv r \<Longrightarrow> filter (\<lambda>x. Q (nlri_bgp_id (nlri (snd x)))) r = filter (\<lambda>x. Q (snd (fst x))) r"
  by (rule filter_cong) (auto dest: rib_inv_entry simp: rib_key_def)

lemma rib_count_erase_first:
  assumes "rib_inv r" and "erase_first (\<lambda>u. nlri_bgp_id (nlri u) = i) r = Some r'"
  shows "rib_count i r = Suc (rib_count i r')" and "j \<noteq> i \<Longrightarrow> rib_count j r' = rib_count j r"
proof -
  note r' = rib_inv_erase_first [OF assms]
  have flt: "rib_count i m = length (filter (\<lambda>x. nlri_bgp_id (nlri (snd x)) = i) m)" if "rib_inv m" for m i
    by (simp add: rib_count_def filter_rib_peer [OF that, where Q = "\<lambda>k. k = i", symmetric])
  show "rib_count i r = Suc (rib_count i r')"
    using filter_erase_first(2) [OF assms(2)] by (simp add: flt assms(1) r')
  assume "j \<noteq> i"
  then have sub: "filter (\<lambda>x. nlri_bgp_id (nlri (snd x)) = j) m =
      filter (\<lambda>x. nlri_bgp_id (nlri (snd x)) = j) (filter (\<lambda>x. \<not> nlri_bgp_id (nlri (snd x)) = i) m)" for m :: bgp_adj_rib
    by (induction m) auto
  show "rib_count j r' = rib_count j r"
    using filter_erase_first(1) [OF assms(2)] sub [of r] sub [of r'] by (simp add: flt assms(1) r')
qed

end
