(* ===== verification/Bgp_Database.thy ===== *)
theory Bgp_Database
  imports Std_Map Adj_Rib
begin

text \<open>
  The event database of \<^verbatim>\<open>include/bgp_database.h\<close> and \<^verbatim>\<open>src/bgp_database.cpp\<close>: routes that
  were replaced are appended to a file, and an index from [prefix, bgp id] to file positions
  finds the last thousand of them again. The \<^verbatim>\<open>std::fstream\<close> is its bytes, its one position
  (a \<^verbatim>\<open>basic_filebuf\<close> shares the position between reads and writes) and its good bit; the
  loop that reads a record can run forever, so it is a \<^verbatim>\<open>partial_function\<close>.
\<close>

section \<open>The stream\<close>

record fstream =
  fs_open :: bool
  fs_good :: bool
  fs_data :: bytes
  fs_pos :: nat

text \<open>\<^verbatim>\<open>write\<close> replaces the bytes at the position, extending the file at its end.\<close>

definition fs_write :: "bytes \<Rightarrow> fstream \<Rightarrow> fstream" where
  "fs_write bs s =
     (if fs_good s then
        s\<lparr>fs_data := take (fs_pos s) (fs_data s) @ bs @ drop (fs_pos s + length bs) (fs_data s),
          fs_pos := fs_pos s + length bs\<rparr>
      else s)"

text \<open>
  \<^verbatim>\<open>read(p, n)\<close> gives the bytes stored at \<^verbatim>\<open>p\<close>: fewer than \<open>n\<close> at the end of the file, and then
  the stream is no longer good; none when it was not good before.
\<close>

definition fs_read :: "nat \<Rightarrow> fstream \<Rightarrow> bytes \<times> fstream" where
  "fs_read n s =
     (if fs_good s then
        (let bs = take n (drop (fs_pos s) (fs_data s))
         in (bs, s\<lparr>fs_pos := fs_pos s + length bs, fs_good := (length bs = n)\<rparr>))
      else ([], s))"

text \<open>Reading into an integer of \<open>n\<close> bytes whose memory held \<open>old\<close>.\<close>

definition read_word :: "nat \<Rightarrow> 'a::len word \<Rightarrow> fstream \<Rightarrow> 'a word \<times> fstream" where
  "read_word n old s =
     (let (bs, s') = fs_read n s
      in (word_of_le (bs @ drop (length bs) (le_bytes n old)), s'))"

text \<open>\<^verbatim>\<open>tellp\<close> of a stream that is not good is -1; the index keeps it as an \<^verbatim>\<open>int\<close>.\<close>

definition tellp :: "fstream \<Rightarrow> 32 word" where
  "tellp s = (if fs_good s then of_nat (fs_pos s) else -1)"

definition clear :: "fstream \<Rightarrow> fstream" where
  "clear s = s\<lparr>fs_good := True\<rparr>"

definition seekg :: "32 word \<Rightarrow> fstream \<Rightarrow> fstream" where
  "seekg p s =
     (if \<not> fs_good s then s
      else if sint p < 0 then s\<lparr>fs_good := False\<rparr>
      else s\<lparr>fs_pos := unat p\<rparr>)"

section \<open>Markers\<close>

datatype dbase_attrib =
    Db_origin | Db_as_path | Db_next_hop | Db_multi_exit_disc | Db_local_pref
  | Db_atomic_aggregate | Db_aggregator | Db_community | Db_originator | Db_cluster_list
  | Db_mp_reach_nlri | Db_mp_unreach_nlri | Db_as4_path | Db_as4_aggregator
  | Db_addr_family | Db_addr_family_id | Db_nlri | Db_end_of_record

fun dbase_code :: "dbase_attrib \<Rightarrow> u32" where
  "dbase_code Db_origin = 0xFFFFFF01"
| "dbase_code Db_as_path = 0xFFFFFF02"
| "dbase_code Db_next_hop = 0xFFFFFF03"
| "dbase_code Db_multi_exit_disc = 0xFFFFFF04"
| "dbase_code Db_local_pref = 0xFFFFFF05"
| "dbase_code Db_atomic_aggregate = 0xFFFFFF06"
| "dbase_code Db_aggregator = 0xFFFFFF07"
| "dbase_code Db_community = 0xFFFFFF08"
| "dbase_code Db_originator = 0xFFFFFF09"
| "dbase_code Db_cluster_list = 0xFFFFFF0A"
| "dbase_code Db_mp_reach_nlri = 0xFFFFFF0E"
| "dbase_code Db_mp_unreach_nlri = 0xFFFFFF0F"
| "dbase_code Db_as4_path = 0xFFFFFF11"
| "dbase_code Db_as4_aggregator = 0xFFFFFF12"
| "dbase_code Db_addr_family = 0xFFFFFF13"
| "dbase_code Db_addr_family_id = 0xFFFFFF14"
| "dbase_code Db_nlri = 0xFFFFFF15"
| "dbase_code Db_end_of_record = 0xFFFFFFFF"

definition dbase_attribs :: "dbase_attrib list" where
  "dbase_attribs =
     [Db_origin, Db_as_path, Db_next_hop, Db_multi_exit_disc, Db_local_pref,
      Db_atomic_aggregate, Db_aggregator, Db_community, Db_originator, Db_cluster_list,
      Db_mp_reach_nlri, Db_mp_unreach_nlri, Db_as4_path, Db_as4_aggregator,
      Db_addr_family, Db_addr_family_id, Db_nlri, Db_end_of_record]"

text \<open>The \<^verbatim>\<open>case\<close> a value selects; \<open>None\<close> is \<^verbatim>\<open>default\<close>.\<close>

definition dbase_of :: "u32 \<Rightarrow> dbase_attrib option" where
  "dbase_of c = find (\<lambda>a. dbase_code a = c) dbase_attribs"

lemma dbase_of_code [simp]: "dbase_of (dbase_code a) = Some a"
  by (cases a) (simp_all add: dbase_of_def dbase_attribs_def)

lemma dbase_code_inject [simp]: "dbase_code a = dbase_code b \<longleftrightarrow> a = b"
  by (metis option.inject dbase_of_code)

section \<open>Writing a record\<close>

definition put :: "dbase_attrib \<Rightarrow> bytes \<Rightarrow> bytes" where
  "put m bs = le_bytes 4 (dbase_code m) @ bs"

definition put_family :: "bgp_update \<Rightarrow> bytes" where
  "put_family u =
     put Db_addr_family (le_bytes 2 (addr_family u))
     @ put Db_addr_family_id (le_bytes 1 (addr_family_id u))"

definition put_aggregator :: "dbase_attrib \<Rightarrow> aggregator_segment option \<Rightarrow> bytes" where
  "put_aggregator m a =
     (case a of None \<Rightarrow> [] | Some s \<Rightarrow> put m (le_bytes 4 (aggr_as s) @ le_bytes 4 (aggr_origin s)))"

definition put_path :: "dbase_attrib \<Rightarrow> as_path_segment option \<Rightarrow> bytes result" where
  "put_path m p =
     (case p of None \<Rightarrow> Inr []
      | Some s \<Rightarrow> rbind (array_read (unat (seg_length s)) (seg_value s)) (\<lambda>ws.
          Inr (put m (le_bytes 1 (seg_length s) @ le_bytes 1 (seg_type s)
                 @ concat (map (le_bytes 4) ws)))))"

definition put_atomic :: "bgp_update \<Rightarrow> bytes" where
  "put_atomic u = (if atomic_aggregate u \<noteq> 0 then put Db_atomic_aggregate [] else [])"

definition comm_bytes :: "community_segment \<Rightarrow> bytes" where
  "comm_bytes c = le_bytes 4 (comm_as c) @ le_bytes 4 (comm_value c)"

definition put_community :: "bgp_update \<Rightarrow> bytes result" where
  "put_community u =
     (case community u of None \<Rightarrow> Inr []
      | Some _ \<Rightarrow> rbind (array_read (unat (com_seg_length u)) (community u)) (\<lambda>cs.
          Inr (put Db_community (le_bytes 1 (com_seg_length u) @ concat (map comm_bytes cs)))))"

definition put_metrics :: "bgp_update \<Rightarrow> bytes" where
  "put_metrics u =
     put Db_next_hop (le_bytes 4 (ipv4_next_hop u))
     @ put Db_local_pref (le_bytes 4 (local_pref u))
     @ put Db_multi_exit_disc (le_bytes 4 (med u))"

definition put_nlri :: "bgp_nlri \<Rightarrow> bytes" where
  "put_nlri n =
     put Db_nlri
       (le_bytes 8 (age n) @ le_bytes 4 (nlri_bgp_id n) @ le_bytes 8 (last_withdraw_time n)
        @ le_bytes 4 (prefix n) @ le_bytes 4 (prefix_highest n) @ le_bytes 1 (prefix_length n)
        @ le_bytes 2 (received n) @ le_bytes 4 (subnet_mask n) @ le_bytes 2 (withdrawn n))"

definition put_end :: "bgp_update \<Rightarrow> bytes" where
  "put_end u = put Db_origin (le_bytes 1 (origin u)) @ put Db_end_of_record []"

definition db_record :: "bgp_update \<Rightarrow> bytes result" where
  "db_record u =
     rbind (put_path Db_as4_path (as4_path u)) (\<lambda>p4.
     rbind (put_path Db_as_path (as_path u)) (\<lambda>p2.
     rbind (put_community u) (\<lambda>cs.
     Inr (put_family u
          @ put_aggregator Db_aggregator (aggregator u)
          @ put_aggregator Db_as4_aggregator (as4_aggregator u)
          @ p4 @ p2 @ put_atomic u @ cs @ put_metrics u @ put_nlri (nlri u) @ put_end u))))"

section \<open>Reading a record\<close>

fun read_words :: "nat \<Rightarrow> fstream \<Rightarrow> u32 list \<times> fstream" where
  "read_words 0 s = ([], s)"
| "read_words (Suc n) s =
     (let (w, s1) = read_word 4 0 s; (ws, s2) = read_words n s1 in (w # ws, s2))"

fun read_comms :: "nat \<Rightarrow> fstream \<Rightarrow> community_segment list \<times> fstream" where
  "read_comms 0 s = ([], s)"
| "read_comms (Suc n) s =
     (let (a, s1) = read_word 4 0 s; (v, s2) = read_word 4 0 s1; (cs, s3) = read_comms n s2
      in (\<lparr>comm_as = a, comm_value = v\<rparr> # cs, s3))"

definition get_path :: "fstream \<Rightarrow> as_path_segment \<times> fstream" where
  "get_path s =
     (let (len, s1) = read_word 1 0 s; (ty, s2) = read_word 1 0 s1;
          (ws, s3) = read_words (unat len) s2
      in (\<lparr>seg_type = ty, seg_length = len, seg_value = Some ws\<rparr>, s3))"

definition get_aggregator :: "fstream \<Rightarrow> aggregator_segment \<times> fstream" where
  "get_aggregator s =
     (let (a, s1) = read_word 4 0 s; (ip, s2) = read_word 4 0 s1
      in (\<lparr>aggr_as = a, aggr_origin = ip\<rparr>, s2))"

definition get_community :: "bgp_update \<Rightarrow> fstream \<Rightarrow> bgp_update \<times> fstream" where
  "get_community u s =
     (let (len, s1) = read_word 1 (com_seg_length u) s; (cs, s2) = read_comms (unat len) s1
      in (u\<lparr>com_seg_length := len, community := Some cs\<rparr>, s2))"

definition get_nlri :: "bgp_nlri \<Rightarrow> fstream \<Rightarrow> bgp_nlri \<times> fstream" where
  "get_nlri n s =
     (let (a, s1) = read_word 8 (age n) s;
          (i, s2) = read_word 4 (nlri_bgp_id n) s1;
          (l, s3) = read_word 8 (last_withdraw_time n) s2;
          (p, s4) = read_word 4 (prefix n) s3;
          (h, s5) = read_word 4 (prefix_highest n) s4;
          (pl, s6) = read_word 1 (prefix_length n) s5;
          (r, s7) = read_word 2 (received n) s6;
          (m, s8) = read_word 4 (subnet_mask n) s7;
          (w, s9) = read_word 2 (withdrawn n) s8
      in (n\<lparr>age := a, nlri_bgp_id := i, last_withdraw_time := l, prefix := p,
            prefix_highest := h, prefix_length := pl, received := r, subnet_mask := m,
            withdrawn := w\<rparr>, s9))"

text \<open>The \<^verbatim>\<open>switch\<close> of \<^verbatim>\<open>db_get_entries\<close>.\<close>

definition db_get_attrib :: "dbase_attrib option \<Rightarrow> bgp_update \<Rightarrow> fstream \<Rightarrow> bgp_update \<times> fstream" where
  "db_get_attrib code u s =
    (case code of
       Some Db_origin \<Rightarrow> (let (w, s') = read_word 1 (origin u) s in (u\<lparr>origin := w\<rparr>, s'))
     | Some Db_as_path \<Rightarrow> (let (p, s') = get_path s in (u\<lparr>as_path := Some p\<rparr>, s'))
     | Some Db_next_hop \<Rightarrow>
         (let (w, s') = read_word 4 (ipv4_next_hop u) s in (u\<lparr>ipv4_next_hop := w\<rparr>, s'))
     | Some Db_multi_exit_disc \<Rightarrow> (let (w, s') = read_word 4 (med u) s in (u\<lparr>med := w\<rparr>, s'))
     | Some Db_local_pref \<Rightarrow> (let (w, s') = read_word 4 (local_pref u) s in (u\<lparr>local_pref := w\<rparr>, s'))
     | Some Db_atomic_aggregate \<Rightarrow> (u\<lparr>atomic_aggregate := 1\<rparr>, s)
     | Some Db_aggregator \<Rightarrow> (let (a, s') = get_aggregator s in (u\<lparr>aggregator := Some a\<rparr>, s'))
     | Some Db_community \<Rightarrow> get_community u s
     | Some Db_as4_path \<Rightarrow> (let (p, s') = get_path s in (u\<lparr>as4_path := Some p\<rparr>, s'))
     | Some Db_as4_aggregator \<Rightarrow>
         (let (a, s') = get_aggregator s in (u\<lparr>as4_aggregator := Some a\<rparr>, s'))
     | Some Db_addr_family \<Rightarrow>
         (let (w, s') = read_word 2 (addr_family u) s in (u\<lparr>addr_family := w\<rparr>, s'))
     | Some Db_addr_family_id \<Rightarrow>
         (let (w, s') = read_word 1 (addr_family_id u) s in (u\<lparr>addr_family_id := w\<rparr>, s'))
     | Some Db_nlri \<Rightarrow> (let (n, s') = get_nlri (nlri u) s in (u\<lparr>nlri := n\<rparr>, s'))
     | _ \<Rightarrow> (u, s))"

text \<open>
  The inner loop, from the value of \<^verbatim>\<open>code\<close>: it ends only when an end-of-record marker is read.
\<close>

partial_function (option) db_read_record ::
    "u32 \<Rightarrow> bgp_update \<Rightarrow> fstream \<Rightarrow> (bgp_update \<times> fstream) option" where
  "db_read_record code u s =
     (if code = dbase_code Db_end_of_record then Some (u, s)
      else
        (let (code', s1) = read_word 4 code s;
             (u', s2) = db_get_attrib (dbase_of code') u s1
         in db_read_record code' u' s2))"

section \<open>The database\<close>

text \<open>\<^verbatim>\<open>std::map\<close> with \<^verbatim>\<open>std::less\<close> of a pair of integers.\<close>

definition key_less :: "prefix_entry \<Rightarrow> prefix_entry \<Rightarrow> bool" where
  "key_less a b \<longleftrightarrow> fst a < fst b \<or> (\<not> fst b < fst a \<and> snd a < snd b)"

interpretation idx: comparator key_less
  by unfold_locales (auto simp: key_less_def prod_eq_iff)

type_synonym indexes = "32 word list"
type_synonym db_indexes = "(prefix_entry, indexes) std_map"

record bgp_database =
  dbase :: fstream
  db_name :: string
  index_map :: db_indexes
  max_records :: u16

definition closed_stream :: fstream where
  "closed_stream = \<lparr>fs_open = False, fs_good = True, fs_data = [], fs_pos = 0\<rparr>"

definition new_database :: bgp_database where
  "new_database = \<lparr>dbase = closed_stream, db_name = [], index_map = [], max_records = 1000\<rparr>"

text \<open>
  \<^verbatim>\<open>db_open\<close>: opening for output truncates the file, and the file is then opened again for
  reading and writing. \<open>ok\<close> tells whether the file system allows it.
\<close>

definition db_open :: "bool \<Rightarrow> string \<Rightarrow> bgp_database \<Rightarrow> bool \<times> bgp_database" where
  "db_open ok name db =
     (if name \<noteq> [] then
        (ok, db\<lparr>db_name := name,
                dbase := \<lparr>fs_open = ok, fs_good = ok, fs_data = [], fs_pos = 0\<rparr>\<rparr>)
      else (False, db))"

definition set_max_records :: "u8 \<Rightarrow> bgp_database \<Rightarrow> bgp_database" where
  "set_max_records m db = db\<lparr>max_records := ucast m\<rparr>"

definition push_index :: "u16 \<Rightarrow> 32 word \<Rightarrow> indexes \<Rightarrow> indexes" where
  "push_index m p xs =
     (let ys = xs @ [p] in if length ys > unat m then tl ys else ys)"

definition db_insert :: "bgp_update \<Rightarrow> bgp_database \<Rightarrow> bgp_database result" where
  "db_insert u db =
     (if \<not> fs_open (dbase db) then Inr db
      else
        (let (v, m) = map_index key_less [] (rib_key u) (index_map db);
             m' = map_assign key_less (rib_key u) (push_index (max_records db) (tellp (dbase db)) v) m
         in rbind (db_record u) (\<lambda>bs.
            Inr (db\<lparr>index_map := m', dbase := fs_write bs (dbase db)\<rparr>))))"

text \<open>The outer loop: the positions from the newest to the oldest.\<close>

fun db_read_all :: "32 word list \<Rightarrow> fstream \<Rightarrow> (bgp_update list \<times> fstream) option" where
  "db_read_all [] s = Some ([], s)"
| "db_read_all (p # ps) s =
     (case db_read_record 0 new_update (seekg p (clear s)) of
        None \<Rightarrow> None
      | Some (u, s') \<Rightarrow>
          (case db_read_all ps s' of
             None \<Rightarrow> None
           | Some (us, s'') \<Rightarrow> Some (copy_update u # us, s'')))"

definition db_get_entries :: "bgp_update \<Rightarrow> bgp_database \<Rightarrow> (bgp_update list \<times> bgp_database) option" where
  "db_get_entries entry db =
     (let (v, m) = map_index key_less [] (rib_key entry) (index_map db)
      in case db_read_all (rev v) (dbase db) of
           None \<Rightarrow> None
         | Some (us, s) \<Rightarrow> Some (us, db\<lparr>index_map := m, dbase := s\<rparr>))"

end
