(* ===== verification/Attrib_Alias.thy ===== *)
theory Attrib_Alias
  imports Thread_Mgr
begin

text \<open>
  The texts of attribute values, \<^verbatim>\<open>src/bgp_attrib_alias.cpp\<close>: a value is printed as a number or an
  address, unless the neighbour the route came from has an alias for it. The functions read the
  neighbour table \<open>q\<close> only.
\<close>

section \<open>Operations\<close>

text \<open>The neighbour whose aliases apply: the first lines of every function of the file.\<close>

definition alias_peer :: "u32 \<Rightarrow> thread_q \<Rightarrow> bgp_peer option" where
  "alias_peer i q =
     (if peer_doing_alias i q then
        (case get_peer_by_bgp_id i q of None \<Rightarrow> None | Some k \<Rightarrow> Some (q ! k))
      else None)"

text \<open>The loop over the aliases of a neighbour, for one attribute and value.\<close>

definition find_alias :: "bgp_path_attrib \<Rightarrow> u32 \<Rightarrow> bgp_peer option \<Rightarrow> string option" where
  "find_alias code v peer =
     (case peer of
        None \<Rightarrow> None
      | Some p \<Rightarrow>
          map_option printable_attrib
            (find (\<lambda>t. tr_code t = code \<and> memcmp_u32 (tr_value t) v = 0) (translate_attribs p)))"

definition translate_bgp_id :: "thread_q \<Rightarrow> u32 \<Rightarrow> string" where
  "translate_bgp_id q i =
     (case alias_peer i q of
        None \<Rightarrow> ip_to_string i
      | Some p \<Rightarrow>
          (case find (\<lambda>t. tr_code t = Attr_bgp_id) (translate_attribs p) of
             None \<Rightarrow> ip_to_string i
           | Some t \<Rightarrow> printable_attrib t))"

definition translate_origin :: "u32 \<Rightarrow> u8 \<Rightarrow> string result" where
  "translate_origin i orig = table_string [Some ''igp'', Some ''egp'', Some ''incomplete''] orig"

text \<open>The label of an AS and of an aggregator is appended to the number or the address.\<close>

definition translate_as_path :: "thread_q \<Rightarrow> u32 \<Rightarrow> u32 \<Rightarrow> string" where
  "translate_as_path q i as =
     (case find_alias Attr_as_path as (alias_peer i q) of
        None \<Rightarrow> show_nat (unat as)
      | Some label \<Rightarrow> show_nat (unat as) @ label)"

definition translate_ipv4_next_hop :: "thread_q \<Rightarrow> u32 \<Rightarrow> u32 \<Rightarrow> string" where
  "translate_ipv4_next_hop q i next_hop =
     (case find_alias Attr_next_hop next_hop (alias_peer i q) of
        None \<Rightarrow> ip_to_string next_hop
      | Some label \<Rightarrow> label)"

definition translate_med :: "thread_q \<Rightarrow> u32 \<Rightarrow> u32 \<Rightarrow> string" where
  "translate_med q i v =
     (case find_alias Attr_multi_exit_disc v (alias_peer i q) of
        None \<Rightarrow> show_nat (unat v)
      | Some label \<Rightarrow> label)"

definition translate_local_pref :: "thread_q \<Rightarrow> u32 \<Rightarrow> u32 \<Rightarrow> string" where
  "translate_local_pref q i v =
     (case find_alias Attr_local_pref v (alias_peer i q) of
        None \<Rightarrow> show_nat (unat v)
      | Some label \<Rightarrow> label)"

definition translate_aggregator :: "thread_q \<Rightarrow> u32 \<Rightarrow> u32 \<Rightarrow> string" where
  "translate_aggregator q i aggr_seg =
     (case find_alias Attr_aggregator aggr_seg (alias_peer i q) of
        None \<Rightarrow> ip_to_string aggr_seg
      | Some label \<Rightarrow> ip_to_string aggr_seg @ label)"

text \<open>
  \<^verbatim>\<open>memcmp(&attrib.value, &value, sizeof (uint32_t))\<close> reads four bytes of the parameter \<^verbatim>\<open>value\<close>,
  which has two; it is evaluated for the first alias of a community.
\<close>

definition translate_community_value :: "thread_q \<Rightarrow> u32 \<Rightarrow> u16 \<Rightarrow> string result" where
  "translate_community_value q i v =
     (case alias_peer i q of
        None \<Rightarrow> Inr (show_nat (unat v))
      | Some p \<Rightarrow>
          if list_ex (\<lambda>t. tr_code t = Attr_community) (translate_attribs p) then Inl Out_of_bounds
          else Inr (show_nat (unat v)))"

section \<open>Aliases that were set are used\<close>

text \<open>What a value is translated to by the table of a neighbour.\<close>

definition alias_map :: "bgp_peer \<Rightarrow> bgp_path_attrib \<Rightarrow> u32 \<Rightarrow> string option" where
  "alias_map p code v = find_alias code v (Some p)"

lemma find_alias_None [simp]: "find_alias code v None = None"
  by (simp add: find_alias_def)

lemma find_alias_matches:
  "find_alias code v peer =
     Option.bind peer (\<lambda>p. map_option printable_attrib (find (alias_matches code v) (translate_attribs p)))"
  by (cases peer) (simp_all add: find_alias_def byte_simps alias_matches_def [abs_def])

lemma find_filter: "find P xs = (case filter P xs of [] \<Rightarrow> None | x # _ \<Rightarrow> Some x)"
  by (induction xs) auto

lemma find_alias_sort:
  "find (alias_matches code v) (alias_sort ts) = find (alias_matches code v) ts"
proof -
  have "filter (alias_matches code v) xs = filter (\<lambda>t. tr_value t = v) (filter (\<lambda>t. tr_code t = code) xs)" for xs
    by (induction xs) (auto simp: alias_matches_def)
  then show ?thesis
    by (simp only: find_filter alias_sort_def sort_key_stable)
qed

lemma find_append: "find P (xs @ ys) = (case find P xs of None \<Rightarrow> find P ys | Some x \<Rightarrow> Some x)"
  by (induction xs) auto

text \<open>Setting an alias is an update of the map from attribute values to texts.\<close>

lemma alias_map_set:
  assumes "alias_map p code v = None"
  obtains p' where "set_translation code v new p = Inr p'" and "is_aliasing p'"
    and "p_bgp_id p' = p_bgp_id p" and "alias_map p' code v = Some new"
    and "\<And>code' w. (code', w) \<noteq> (code, v) \<Longrightarrow> alias_map p' code' w = alias_map p code' w"
proof -
  let ?t = "\<lparr>tr_code = code, tr_value = v, printable_attrib = new\<rparr>"
  let ?p = "p\<lparr>translate_attribs := alias_sort (translate_attribs p @ [?t]), is_aliasing := True\<rparr>"
  have none: "find (alias_matches code v) (translate_attribs p) = None"
    using assms by (simp add: alias_map_def find_alias_matches)
  then have "\<forall>t \<in> set (translate_attribs p). \<not> alias_matches code v t" by (simp add: find_None_iff)
  from alias_loop_no_match [OF this, of 0 "length (translate_attribs p)"]
  have set: "set_translation code v new p = Inr ?p" by (simp add: set_translation_def)
  show thesis
    by (rule that [OF set]) (use none in \<open>auto simp: alias_map_def find_alias_matches find_alias_sort find_append alias_matches_def
        split: option.splits\<close>)
qed

lemma peer_doing_alias_hd: "q \<noteq> [] \<Longrightarrow> peer_doing_alias i q = is_aliasing (hd q)"
  by (cases q) (simp_all add: peer_doing_alias_def)

text \<open>
  an alias that is set for a value of a neighbour is what the value is shown as, and no other
  value of any attribute of the neighbour changes its text; but only if the first neighbour of
  the table has some alias, because the check for aliases looks at the first entry instead of at
  the neighbour. Otherwise the new alias has no effect.
\<close>

theorem translate_after_set:
  assumes "get_peer_by_bgp_id i q = Some k" and "alias_map (q ! k) Attr_next_hop v = None"
  shows "\<exists>p'. set_translation Attr_next_hop v new (q ! k) = Inr p'
    \<and> (if k = 0 \<or> is_aliasing (hd q)
       then translate_ipv4_next_hop (q[k := p']) i v = new
         \<and> (\<forall>w. w \<noteq> v \<longrightarrow> translate_ipv4_next_hop (q[k := p']) i w =
              (case alias_map (q ! k) Attr_next_hop w of None \<Rightarrow> ip_to_string w | Some s \<Rightarrow> s))
       else \<forall>w. translate_ipv4_next_hop (q[k := p']) i w = ip_to_string w)"
proof -
  from assms(1) have k: "k < length q" "p_bgp_id (q ! k) = i" using by_id.look_Some by auto
  obtain p' where p': "set_translation Attr_next_hop v new (q ! k) = Inr p'" "is_aliasing p'"
    "p_bgp_id p' = p_bgp_id (q ! k)" "alias_map p' Attr_next_hop v = Some new"
    "\<And>w. w \<noteq> v \<Longrightarrow> alias_map p' Attr_next_hop w = alias_map (q ! k) Attr_next_hop w"
    by (rule alias_map_set [OF assms(2), of new]) simp
  have look: "get_peer_by_bgp_id i (q[k := p']) = Some k"
    using assms(1) k p'(3) by (simp add: get_peer_by_bgp_id_def find_index_update)
  have doing: "peer_doing_alias i (q[k := p']) \<longleftrightarrow> k = 0 \<or> is_aliasing (hd q)"
  proof -
    have "q \<noteq> []" using k by auto
    with peer_doing_alias_hd [of "q[k := p']" i] k p'(2) show ?thesis by (simp add: hd_conv_nth nth_list_update)
  qed
  have "alias_peer i (q[k := p']) = (if k = 0 \<or> is_aliasing (hd q) then Some p' else None)"
    using k by (simp add: alias_peer_def doing look)
  with p'(4,5) show ?thesis
    by (intro exI [of _ p'] conjI p'(1))
      (auto simp: translate_ipv4_next_hop_def alias_map_def [symmetric])
qed

theorem translate_after_set_witness:
  "\<exists>p'. set_translation Attr_next_hop 7 ''core'' (new_peer [] []) = Inr p'
     \<and> translate_ipv4_next_hop [p'] 0 7 = ''core''"
  using translate_after_set [of 0 "[new_peer [] []]" 0 7 "''core''"]
  by (auto simp: get_peer_by_bgp_id_def alias_map_def find_alias_def new_peer_def bgp_peer.defs tcp_client.defs
      new_tcp_client_def)

end
