(* ===== verification/Bgp_Syslog.thy ===== *)
theory Bgp_Syslog
  imports Attrib_Alias Std_Map
begin

text \<open>
  The dumper of \<^verbatim>\<open>src/bgp_syslog.cpp\<close> with the senders of \<^verbatim>\<open>include/udp_sender.h\<close>: an update is
  printed as one line, which goes to the syslog host of the neighbour it came from or to a file.
  What \<^verbatim>\<open>socket\<close> returns and whether the file can be opened are part of the state; \<open>now\<close> is the
  time \<^verbatim>\<open>time\<close> returns.
\<close>

section \<open>Texts of a route\<close>

definition origin_text :: "u8 \<Rightarrow> string result" where
  "origin_text orig = table_string (map Some bgp_origin_code_text) orig"

text \<open>The loop over \<^verbatim>\<open>seg_value\<close> of a path, as texts.\<close>

definition path_texts :: "thread_q \<Rightarrow> u32 \<Rightarrow> as_path_segment \<Rightarrow> string list result" where
  "path_texts q i s =
     rbind (array_read (unat (seg_length s)) (seg_value s)) (\<lambda>vs. Inr (map (translate_as_path q i) vs))"

text \<open>One community; its value is passed as a \<^verbatim>\<open>uint16_t\<close>.\<close>

definition community_text :: "thread_q \<Rightarrow> u32 \<Rightarrow> community_segment \<Rightarrow> string result" where
  "community_text q i c =
     rbind (translate_community_value q i (ucast (comm_value c))) (\<lambda>v.
     Inr (translate_as_path q i (comm_as c) @ '':'' @ v))"

definition community_texts :: "thread_q \<Rightarrow> bgp_update \<Rightarrow> string list result" where
  "community_texts q u =
     rbind (array_read (unat (com_seg_length u)) (community u))
       (rmap (community_text q (nlri_bgp_id (nlri u))))"

section \<open>The line of an update\<close>

definition dump_path :: "string \<Rightarrow> thread_q \<Rightarrow> u32 \<Rightarrow> as_path_segment option \<Rightarrow> string result" where
  "dump_path label q i p =
     (case p of
        None \<Rightarrow> Inr []
      | Some s \<Rightarrow>
          (case seg_value s of
             None \<Rightarrow> Inr []
           | Some _ \<Rightarrow> rbind (path_texts q i s) (\<lambda>ts. Inr (label @ join ''_'' ts @ ''|''))))"

definition dump_aggregator :: "string \<Rightarrow> thread_q \<Rightarrow> u32 \<Rightarrow> aggregator_segment option \<Rightarrow> string" where
  "dump_aggregator label q i a =
     (case a of
        None \<Rightarrow> []
      | Some s \<Rightarrow> ''|'' @ label @ ''_origin='' @ translate_aggregator q i (aggr_origin s)
          @ ''|'' @ label @ ''_as='' @ translate_as_path q i (aggr_as s))"

definition dump_community :: "thread_q \<Rightarrow> bgp_update \<Rightarrow> string result" where
  "dump_community q u =
     (case community u of
        None \<Rightarrow> Inr []
      | Some _ \<Rightarrow> rbind (community_texts q u) (\<lambda>ts.
          Inr (''|community='' @ concat (map (\<lambda>t. ''['' @ t @ '']'') ts))))"

definition dump_type :: "nlri_parse \<Rightarrow> string" where
  "dump_type flag =
     (case flag of Nlri_update \<Rightarrow> ''%BGP-6-UPDATE'' | Nlri_withdraw \<Rightarrow> ''%BGP-6-WITHDRAW'')"

definition dump_text :: "time_t \<Rightarrow> thread_q \<Rightarrow> bgp_update \<Rightarrow> nlri_parse \<Rightarrow> string result" where
  "dump_text now q u flag =
     (let i = nlri_bgp_id (nlri u) in
      rbind (origin_text (origin u)) (\<lambda>orig.
      rbind (dump_path ''|as_path='' q i (as_path u)) (\<lambda>path.
      rbind (dump_path ''as4_path='' q i (as4_path u)) (\<lambda>path4.
      rbind (dump_community q u) (\<lambda>comm.
      Inr ('' *'' @ time_stamp now @ '':'' @ '' flowlab: '' @ '' msg_type='' @ dump_type flag @ ''|''
           @ ''peer='' @ translate_bgp_id q i @ ''|origin='' @ orig
           @ path @ path4
           @ ''next_hop='' @ translate_ipv4_next_hop q i (ipv4_next_hop u)
           @ ''|med='' @ translate_med q i (med u)
           @ ''|local_pref='' @ translate_local_pref q i (local_pref u)
           @ (if atomic_aggregate u \<noteq> 0 then ''|atomic_aggregate=true|'' else [])
           @ dump_aggregator ''aggregator'' q i (aggregator u)
           @ dump_aggregator ''as4_aggregator'' q i (as4_aggregator u)
           @ comm
           @ ''|prefix='' @ ip_to_string (prefix (nlri u)) @ ''|prefix_length=''
           @ show_nat (unat (prefix_length (nlri u)))))))))"

section \<open>Senders\<close>

text \<open>\<^verbatim>\<open>htons\<close> on a little-endian host.\<close>

definition htons :: "u16 \<Rightarrow> u16" where
  "htons w = word_of_le (be_bytes 2 w)"

record udp_sender =
  us_ipv4 :: u32
  us_port :: u16
  us_host :: string
  us_socket :: int
  us_sequence :: int
  us_dest_port :: u16
  us_dest_addr :: u32
  us_sent :: "string list"   \<comment> \<open>the datagrams handed to \<^verbatim>\<open>sendto\<close>\<close>

definition new_udp_sender :: udp_sender where
  "new_udp_sender = \<lparr>us_ipv4 = 0, us_port = 0, us_host = [], us_socket = 0, us_sequence = 1000,
     us_dest_port = 0, us_dest_addr = 0, us_sent = []\<rparr>"

text \<open>\<^verbatim>\<open>operator()\<close>; \<open>sock\<close> is what \<^verbatim>\<open>socket\<close> returns.\<close>

definition udp_config :: "int \<Rightarrow> u32 \<Rightarrow> string \<Rightarrow> u16 \<Rightarrow> udp_sender \<Rightarrow> udp_sender" where
  "udp_config sock ip h p s =
     (let s1 = s\<lparr>us_ipv4 := ip, us_port := p, us_host := h, us_socket := sock\<rparr>
      in if sock < 0 then s1
         else s1\<lparr>us_dest_port := htons p,
                 us_dest_addr := (case inet_aton h of Some a \<Rightarrow> a | None \<Rightarrow> 0)\<rparr>)"

definition udp_write :: "u8 \<Rightarrow> u8 \<Rightarrow> string \<Rightarrow> udp_sender \<Rightarrow> udp_sender" where
  "udp_write facility priority body s =
     (let n = us_sequence s + 1
      in s\<lparr>us_sequence := n,
           us_sent := us_sent s
             @ [''<'' @ show_nat (unat (facility OR priority)) @ ''>'' @ int_to_string n @ '':'' @ body]\<rparr>)"

definition udp_sort :: "u32 \<Rightarrow> u32 \<Rightarrow> bool" where
  "udp_sort a b \<longleftrightarrow> a < b"

type_synonym udp_destinations = "(u32, udp_sender) std_map"

interpretation udp: comparator udp_sort
  by unfold_locales (auto simp: udp_sort_def)

section \<open>The dumper\<close>

record bgp_syslog =
  udp_map :: udp_destinations
  dump_writable :: bool        \<comment> \<open>whether the file can be opened\<close>
  dump_lines :: "string list"  \<comment> \<open>the lines of \<^verbatim>\<open>/var/log/flowlab-updates.log\<close>\<close>

definition new_syslog :: bgp_syslog where
  "new_syslog = \<lparr>udp_map = [], dump_writable = True, dump_lines = []\<rparr>"

definition LOG_LOCAL7 :: u8 where "LOG_LOCAL7 = 184"
definition LOG_NOTICE :: u8 where "LOG_NOTICE = 5"

definition translate_and_dump_update ::
    "time_t \<Rightarrow> thread_q \<Rightarrow> bgp_update \<Rightarrow> nlri_parse \<Rightarrow> bgp_syslog \<Rightarrow> bgp_syslog result" where
  "translate_and_dump_update now q u flag d =
     rbind (dump_text now q u flag) (\<lambda>line.
       let i = nlri_bgp_id (nlri u)
       in case map_find udp_sort i (udp_map d) of
            Some _ \<Rightarrow>
              (let (s, m) = map_index udp_sort new_udp_sender i (udp_map d)
               in Inr (d\<lparr>udp_map := map_assign udp_sort i (udp_write LOG_LOCAL7 LOG_NOTICE line s) m\<rparr>))
          | None \<Rightarrow>
              Inr (if dump_writable d then d\<lparr>dump_lines := dump_lines d @ [line]\<rparr> else d))"

definition add_dest_host :: "int \<Rightarrow> u32 \<Rightarrow> string \<Rightarrow> u16 \<Rightarrow> bgp_syslog \<Rightarrow> bgp_syslog" where
  "add_dest_host sock ip h p d =
     (let (s, m) = map_index udp_sort new_udp_sender ip (udp_map d)
      in d\<lparr>udp_map := map_assign udp_sort ip (udp_config sock ip h p s) m\<rparr>)"

section \<open>When a line can be printed\<close>

text \<open>No alias of a community applies to routes with this id.\<close>

definition no_community_alias :: "thread_q \<Rightarrow> u32 \<Rightarrow> bool" where
  "no_community_alias q i \<longleftrightarrow>
     (case alias_peer i q of
        None \<Rightarrow> True
      | Some p \<Rightarrow> \<forall>t \<in> set (translate_attribs p). tr_code t \<noteq> Attr_community)"

definition printable :: "thread_q \<Rightarrow> bgp_update \<Rightarrow> bool" where
  "printable q u \<longleftrightarrow>
     unat (origin u) < 3 \<and> (comm_list u = [] \<or> no_community_alias q (nlri_bgp_id (nlri u)))"

lemma origin_text_eq:
  "origin_text orig = (if unat orig < 3 then Inr (bgp_origin_code_text ! unat orig) else Inl Out_of_bounds)"
proof -
  have "length bgp_origin_code_text = 3" by (simp add: bgp_origin_code_text_def)
  then show ?thesis by (simp add: origin_text_def table_string_def)
qed

lemma seg_wf_read: "seg_wf s \<Longrightarrow> array_read (unat (seg_length s)) (seg_value s) = Inr (seg_list s)"
  by (auto simp: seg_wf_def seg_list_def array_read_full split: option.splits)

lemma update_wf_path: "update_wf u \<Longrightarrow> as_path u = Some s \<Longrightarrow> seg_wf s"
  and update_wf_path4: "update_wf u \<Longrightarrow> as4_path u = Some s \<Longrightarrow> seg_wf s"
  by (simp_all add: update_wf_def)

lemma update_wf_comms: "update_wf u \<Longrightarrow> array_read (unat (com_seg_length u)) (community u) = Inr (comm_list u)"
  by (auto simp: update_wf_def comm_list_def array_read_full split: option.splits)

lemma path_texts_wf: "seg_wf s \<Longrightarrow> path_texts q i s = Inr (map (translate_as_path q i) (seg_list s))"
  by (simp add: path_texts_def seg_wf_read)

lemma translate_community_value_defined:
  "no_community_alias q i \<Longrightarrow> translate_community_value q i v = Inr (show_nat (unat v))"
  "\<not> no_community_alias q i \<Longrightarrow> translate_community_value q i v = Inl Out_of_bounds"
  by (auto simp: translate_community_value_def no_community_alias_def list_ex_iff split: option.splits)

lemma community_texts_wf:
  assumes "update_wf u"
  shows "(\<exists>ts. community_texts q u = Inr ts) \<longleftrightarrow> comm_list u = [] \<or> no_community_alias q (nlri_bgp_id (nlri u))"
proof (cases "no_community_alias q (nlri_bgp_id (nlri u))")
  case True
  then show ?thesis
    by (simp add: community_texts_def update_wf_comms [OF assms] rmap_defined community_text_def
        translate_community_value_defined)
next
  case False
  then show ?thesis
    by (cases "comm_list u")
      (simp_all add: community_texts_def update_wf_comms [OF assms] community_text_def translate_community_value_defined)
qed

lemma dump_path_wf: "pred_option seg_wf p \<Longrightarrow> \<exists>t. dump_path label q i p = Inr t"
  by (auto simp: dump_path_def path_texts_wf split: option.splits)

lemma dump_community_wf:
  assumes "update_wf u"
  shows "(\<exists>t. dump_community q u = Inr t) \<longleftrightarrow> comm_list u = [] \<or> no_community_alias q (nlri_bgp_id (nlri u))"
proof (cases "community u")
  case None
  then show ?thesis by (simp add: dump_community_def comm_list_def)
next
  case (Some cs)
  then show ?thesis using community_texts_wf [OF assms, of q] by (auto simp: dump_community_def rbind_eq_Inr)
qed

lemma dump_text_iff:
  assumes "update_wf u"
  shows "(\<exists>line. dump_text now q u flag = Inr line) \<longleftrightarrow>
    unat (origin u) < 3 \<and> (comm_list u = [] \<or> no_community_alias q (nlri_bgp_id (nlri u)))"
proof -
  let ?i = "nlri_bgp_id (nlri u)"
  obtain path where path: "dump_path ''|as_path='' q ?i (as_path u) = Inr path"
    using dump_path_wf assms unfolding update_wf_def by blast
  obtain path4 where path4: "dump_path ''as4_path='' q ?i (as4_path u) = Inr path4"
    using dump_path_wf assms unfolding update_wf_def by blast
  have "(\<exists>line. dump_text now q u flag = Inr line) \<longleftrightarrow>
      (\<exists>t. origin_text (origin u) = Inr t) \<and> (\<exists>t. dump_community q u = Inr t)"
    unfolding dump_text_def Let_def path path4 by (auto simp: rbind_eq_Inr)
  then show ?thesis by (simp add: origin_text_eq dump_community_wf [OF assms])
qed

lemma dump_text_ok: "update_wf u \<Longrightarrow> printable q u \<Longrightarrow> \<exists>line. dump_text now q u flag = Inr line"
  by (simp add: dump_text_iff printable_def)

text \<open>
  C35: the line of a well-formed update can be printed exactly when its origin is one of the three
  codes of the table and, if it has communities, no community alias applies: an origin byte of 3
  or more, which the parser takes from the wire unchecked, reads past the table of texts, and an
  alias of a community makes the comparison read past its two-byte argument.
\<close>

theorem dump_text_defined:
  assumes "update_wf u"
  shows "(\<exists>line. dump_text now q u flag = Inr line) \<longleftrightarrow>
    unat (origin u) < 3 \<and> (comm_list u = [] \<or> no_community_alias q (nlri_bgp_id (nlri u)))"
  using assms by (rule dump_text_iff)

theorem dump_text_defined_witness:
  "(\<exists>line. dump_text 0 [] new_update Nlri_update = Inr line)
   \<and> \<not> (\<exists>line. dump_text 0 [] (new_update\<lparr>origin := 3\<rparr>) Nlri_update = Inr line)"
  using dump_text_defined [of new_update 0 "[]" Nlri_update]
    dump_text_defined [of "new_update\<lparr>origin := 3\<rparr>" 0 "[]" Nlri_update]
  by (simp add: update_wf_def new_update_def comm_list_def)

section \<open>Where a line goes\<close>

lemma dump_text_new: "\<exists>line. dump_text now [] new_update flag = Inr line"
  by (simp add: dump_text_def new_update_def origin_text_eq dump_path_def dump_community_def Let_def)

lemma map_index_present: "map_find lt k m = Some v \<Longrightarrow> map_index lt d k m = (v, m)"
  by (simp add: map_index_def)

lemma add_dest_host_look:
  assumes "map_sorted udp_sort (udp_map d)"
  shows "map_sorted udp_sort (udp_map (add_dest_host sock ip h p d))"
    and "map_find udp_sort j (udp_map (add_dest_host sock ip h p d)) =
      (if j = ip then Some (udp_config sock ip h p (case map_find udp_sort ip (udp_map d) of
         Some s \<Rightarrow> s | None \<Rightarrow> new_udp_sender)) else map_find udp_sort j (udp_map d))"
  using udp.map_index_simps [OF assms, where d = new_udp_sender and k = ip]
  by (simp_all add: add_dest_host_def case_prod_beta udp.sorted_assign udp.find_assign)

lemma syslog_priority: "show_nat (unat (LOG_LOCAL7 OR LOG_NOTICE)) = ''189''"
  by (simp add: LOG_LOCAL7_def LOG_NOTICE_def show_nat.simps digit_def char_of_eq_iff)

lemma dump_to_file:
  "dump_text now q u flag = Inr line \<Longrightarrow> map_find udp_sort (nlri_bgp_id (nlri u)) (udp_map d) = None \<Longrightarrow>
     translate_and_dump_update now q u flag d =
       Inr (if dump_writable d then d\<lparr>dump_lines := dump_lines d @ [line]\<rparr> else d)"
  by (simp add: translate_and_dump_update_def)

lemma dump_to_sender:
  assumes "dump_text now q u flag = Inr line" and "map_find udp_sort (nlri_bgp_id (nlri u)) (udp_map d) = Some s"
  shows "translate_and_dump_update now q u flag d =
    Inr (d\<lparr>udp_map := map_assign udp_sort (nlri_bgp_id (nlri u)) (udp_write LOG_LOCAL7 LOG_NOTICE line s) (udp_map d)\<rparr>)"
  using assms by (simp add: translate_and_dump_update_def map_index_present)



end
