(* ===== verification/Bgp_Core.thy ===== *)
theory Bgp_Core
  imports Bgp_Session Bgp_Database Bgp_Syslog
begin

text \<open>
  The class \<^verbatim>\<open>BGP\<close> of \<^verbatim>\<open>include/bgp.h\<close> and the parts of \<^verbatim>\<open>src/bgp.cpp\<close> and \<^verbatim>\<open>src/bgp_update.cpp\<close>
  that change its state: the two queues in front of the RIB, \<^verbatim>\<open>peer_entry\<close>, \<^verbatim>\<open>withdraw\<close>,
  \<^verbatim>\<open>flush_peer\<close>, \<^verbatim>\<open>proc_in_q\<close>, the pass of the main thread and the end of a session. Every
  operation runs under the lock the code takes around it; the threads meet only in the order
  in which they run, which \<open>bgp_step\<close> leaves open.
\<close>

section \<open>State\<close>

record bgp = bgp_params +
  dumper_on_off :: bool
  table_version :: "32 word"
  thread_q :: thread_q
  adj_rib_in :: bgp_adj_rib
  adj_rib_in_q :: "bgp_update list"
  adj_rib_in_wdraw_q :: "bgp_update list"
  database :: bgp_database
  dumper :: bgp_syslog
  conf_file :: string   \<comment> \<open>\<^verbatim>\<open>/etc/flowlab/bgpd/bgpd.conf\<close>\<close>
  logged :: "log_event list"

text \<open>The constructor, and the AS \<^verbatim>\<open>init_BGP\<close> is called with; \<open>ok\<close> is whether the file opens.\<close>

definition new_bgp :: "bool \<Rightarrow> u16 \<Rightarrow> bgp" where
  "new_bgp ok as = \<lparr>stop_and_exit_instance = False, my_bgp_id = 0, my_hold_time = 180, my_AS = as,
     my_port = 179, my_version = 4, my_b_ip = [], dumper_on_off = False, table_version = 0,
     thread_q = [], adj_rib_in = [], adj_rib_in_q = [], adj_rib_in_wdraw_q = [],
     database = snd (db_open ok ''/tmp/wd_db'' new_database), dumper = new_syslog, conf_file = [], logged = []\<rparr>"

definition set_peer :: "nat \<Rightarrow> bgp_peer \<Rightarrow> bgp \<Rightarrow> bgp" where
  "set_peer k p s = s\<lparr>thread_q := (thread_q s)[k := p]\<rparr>"

definition add_log :: "log_event list \<Rightarrow> bgp \<Rightarrow> bgp" where
  "add_log ls s = s\<lparr>logged := logged s @ ls\<rparr>"

text \<open>\<^verbatim>\<open>if (this->dumper_on_off) this->dumper.translate_and_dump_update(...)\<close>\<close>

definition dump_update :: "time_t \<Rightarrow> nlri_parse \<Rightarrow> bgp_update \<Rightarrow> bgp \<Rightarrow> bgp result" where
  "dump_update now flag u s =
     (if dumper_on_off s then
        rbind (translate_and_dump_update now (thread_q s) u flag (dumper s)) (\<lambda>d. Inr (s\<lparr>dumper := d\<rparr>))
      else Inr s)"

section \<open>The RIB\<close>

definition count_entry :: "bool \<Rightarrow> bgp_peer \<Rightarrow> bgp_peer" where
  "count_entry known p =
     (let p1 = (if known
                then p\<lparr>implicit_withdraw := (implicit_withdraw p)\<lparr>cur_rx := cur_rx (implicit_withdraw p) + 1\<rparr>\<rparr>
                else add_current_rx 1 p)
      in p1\<lparr>prefixes := (prefixes p1)\<lparr>cnt_rx := cnt_rx (prefixes p1) + 1\<rparr>\<rparr>)"

definition peer_entry :: "time_t \<Rightarrow> bgp_update \<Rightarrow> bgp \<Rightarrow> bgp result" where
  "peer_entry now update s =
     rbind (dump_update now Nlri_update update s) (\<lambda>s1.
      let it = map_find rib_sort (rib_key update) (adj_rib_in s1)
      in case get_peer_by_bgp_id (nlri_bgp_id (nlri update)) (thread_q s1) of
           None \<Rightarrow> Inr s1
         | Some k \<Rightarrow>
             rbind (case it of None \<Rightarrow> Inr (database s1) | Some old \<Rightarrow> db_insert old (database s1)) (\<lambda>db.
               let s2 = set_peer k (count_entry (it \<noteq> None) (thread_q s1 ! k)) (s1\<lparr>database := db\<rparr>);
                   (entry, rib) = map_index rib_sort new_update (rib_key update) (adj_rib_in s2)
               in Inr (s2\<lparr>adj_rib_in :=
                            map_assign rib_sort (rib_key update) (update_op_assign entry update) rib\<rparr>)))"

definition count_withdraw :: "bgp_peer \<Rightarrow> bgp_peer" where
  "count_withdraw p = add_current_rx (-1)
     (p\<lparr>explicit_withdraw := (explicit_withdraw p)\<lparr>cur_rx := cur_rx (explicit_withdraw p) + 1\<rparr>\<rparr>)"

definition withdraw :: "time_t \<Rightarrow> bgp_update \<Rightarrow> bgp \<Rightarrow> bgp result" where
  "withdraw now nlri_withdraw s =
     (case map_find rib_sort (rib_key nlri_withdraw) (adj_rib_in s) of
        None \<Rightarrow> Inr s
      | Some it \<Rightarrow>
          rbind (dump_update now Nlri_withdraw it s) (\<lambda>s1.
              case get_peer_by_bgp_id (nlri_bgp_id (nlri nlri_withdraw)) (thread_q s1) of
                None \<Rightarrow> Inl Null_pointer
              | Some k \<Rightarrow>
                  Inr ((set_peer k (count_withdraw (thread_q s1 ! k)) s1)
                         \<lparr>adj_rib_in := map_erase rib_sort (rib_key nlri_withdraw) (adj_rib_in s1)\<rparr>)))"

definition flush_peer :: "u32 \<Rightarrow> bgp \<Rightarrow> bool \<times> bgp" where
  "flush_peer i s =
     (case erase_first (\<lambda>u. nlri_bgp_id (nlri u) = i) (adj_rib_in s) of
        None \<Rightarrow> (False, s)
      | Some rib \<Rightarrow> (True, s\<lparr>adj_rib_in := rib\<rparr>))"

text \<open>One entry of each queue: it is taken off after it has been processed.\<close>

definition rib_in_pop :: "time_t \<Rightarrow> bgp_update \<Rightarrow> bgp \<Rightarrow> bgp result" where
  "rib_in_pop now u s = rbind (peer_entry now u s) (\<lambda>s'.
     Inr (s'\<lparr>adj_rib_in_q := tl (adj_rib_in_q s'), table_version := table_version s' + 1\<rparr>))"

definition rib_wdraw_pop :: "time_t \<Rightarrow> bgp_update \<Rightarrow> bgp \<Rightarrow> bgp result" where
  "rib_wdraw_pop now u s = rbind (withdraw now u s) (\<lambda>s'.
     Inr (s'\<lparr>adj_rib_in_wdraw_q := tl (adj_rib_in_wdraw_q s'), table_version := table_version s' + 1\<rparr>))"

fun rib_in_loop :: "time_t \<Rightarrow> bgp_update list \<Rightarrow> bgp \<Rightarrow> bgp result" where
  "rib_in_loop now [] s = Inr s"
| "rib_in_loop now (u # us) s = rbind (rib_in_pop now u s) (rib_in_loop now us)"

fun rib_wdraw_loop :: "time_t \<Rightarrow> bgp_update list \<Rightarrow> bgp \<Rightarrow> bgp result" where
  "rib_wdraw_loop now [] s = Inr s"
| "rib_wdraw_loop now (u # us) s = rbind (rib_wdraw_pop now u s) (rib_wdraw_loop now us)"

definition proc_adj_rib_in_queue :: "time_t \<Rightarrow> bgp \<Rightarrow> bgp result" where
  "proc_adj_rib_in_queue now s = rib_in_loop now (adj_rib_in_q s) s"

definition proc_adj_rib_wdraw_queue :: "time_t \<Rightarrow> bgp \<Rightarrow> bgp result" where
  "proc_adj_rib_wdraw_queue now s = rib_wdraw_loop now (adj_rib_in_wdraw_q s) s"

section \<open>The queue of a neighbour\<close>

text \<open>One message is taken off the queue, parsed, and its updates pushed.\<close>

definition in_q_pop :: "time_t \<Rightarrow> nat \<Rightarrow> queue_data \<Rightarrow> bgp \<Rightarrow> bgp result" where
  "in_q_pop now k q s =
     (let p = thread_q s ! k;
          s1 = set_peer k (p\<lparr>in_queue := tl (in_queue p), in_q := in_q p - 1\<rparr>) s
      in rbind (proc_packet now (p_bgp_id p) q) (\<lambda>(us, ws).
         Inr (s1\<lparr>adj_rib_in_q := adj_rib_in_q s1 @ us, adj_rib_in_wdraw_q := adj_rib_in_wdraw_q s1 @ ws\<rparr>)))"

fun in_q_loop :: "time_t \<Rightarrow> nat \<Rightarrow> queue_data list \<Rightarrow> bgp \<Rightarrow> bgp result" where
  "in_q_loop now k [] s = Inr s"
| "in_q_loop now k (q # qs) s = rbind (in_q_pop now k q s) (in_q_loop now k qs)"

definition proc_in_q :: "time_t \<Rightarrow> nat \<Rightarrow> bgp \<Rightarrow> bgp result" where
  "proc_in_q now k s =
     (let (expired, p, ls) = hold_timer_expired now (thread_q s ! k);
          s1 = add_log ls (set_peer k p s)
      in if expired then Inr s1 else in_q_loop now k (in_queue p) s1)"

text \<open>One pass of the loop of \<^verbatim>\<open>init_BGP\<close>: every neighbour's queue, then the two RIB queues.\<close>

fun proc_peers :: "time_t \<Rightarrow> nat list \<Rightarrow> bgp \<Rightarrow> bgp result" where
  "proc_peers now [] s = Inr s"
| "proc_peers now (k # ks) s = rbind (proc_in_q now k s) (proc_peers now ks)"

definition main_pass :: "time_t \<Rightarrow> bgp \<Rightarrow> bgp result" where
  "main_pass now s =
     rbind (proc_peers now [0..<length (thread_q s)] s) (\<lambda>s1.
     rbind (proc_adj_rib_in_queue now s1) (proc_adj_rib_wdraw_queue now))"

section \<open>The thread of a neighbour\<close>

definition session_live :: "nat \<Rightarrow> bgp \<Rightarrow> bool" where
  "session_live k s \<longleftrightarrow>
     connected (thread_q s ! k) \<and> state (thread_q s ! k) \<noteq> Idle \<and> \<not> stop_and_exit_instance s"

definition session_recv :: "time_t \<Rightarrow> bytes \<Rightarrow> nat \<Rightarrow> bgp \<Rightarrow> bgp result" where
  "session_recv now junk k s =
     rbind (established_step s now junk (thread_q s ! k)) (\<lambda>(p, ls). Inr (add_log ls (set_peer k p s)))"

text \<open>\<^verbatim>\<open>while (this->flush_peer(peer->bgp_id)) --peer->prefixes.current.rx;\<close>\<close>

definition flush_one :: "nat \<Rightarrow> bgp \<Rightarrow> bool \<times> bgp" where
  "flush_one k s =
     (let (rc, s1) = flush_peer (p_bgp_id (thread_q s ! k)) s
      in if rc then (True, set_peer k (add_current_rx (-1) (thread_q s1 ! k)) s1) else (False, s1))"

lemma flush_one_shrinks:
  "flush_one k s = (True, s') \<Longrightarrow> length (adj_rib_in s') < length (adj_rib_in s)"
  by (auto simp: flush_one_def flush_peer_def set_peer_def split: option.splits if_splits dest!: length_erase_first)

function flush_all :: "nat \<Rightarrow> bgp \<Rightarrow> bgp" where
  "flush_all k s = (case flush_one k s of (True, s') \<Rightarrow> flush_all k s' | (False, s') \<Rightarrow> s')"
  by pat_completeness auto
termination
  by (relation "measure (\<lambda>(k, s). length (adj_rib_in s))") (auto dest!: flush_one_shrinks [OF sym])

declare flush_all.simps [simp del]

text \<open>What \<^verbatim>\<open>peer_established\<close> does after its loop; \<^verbatim>\<open>in_q\<close> is not reset.\<close>

definition session_end :: "nat \<Rightarrow> bgp \<Rightarrow> bgp" where
  "session_end k s =
     (let p = thread_q s ! k;
          ls = (if state p = Established \<and> \<not> connected p
                then [Adjchange (p_ip p) ''Down Peer closed the session''] else [])
      in add_log ls (set_peer k ((disconnect p)\<lparr>up_since := 0, in_queue := [], out_queue := []\<rparr>) s))"

definition session_down :: "nat \<Rightarrow> bgp \<Rightarrow> bgp" where
  "session_down k s = session_end k (flush_all k s)"

definition session_attempt :: "attempt \<Rightarrow> nat \<Rightarrow> bgp \<Rightarrow> bgp result" where
  "session_attempt a k s =
     rbind (connect_attempt a ((thread_q s ! k)\<lparr>state := Idle\<rparr>)) (\<lambda>p. Inr (set_peer k p s))"

definition session_open :: "time_t \<Rightarrow> nat \<Rightarrow> bgp \<Rightarrow> bgp" where
  "session_open now k s = set_peer k (send_open s now (thread_q s ! k)) s"

definition neighbor_start :: "string \<Rightarrow> bgp_peer \<Rightarrow> bgp \<Rightarrow> bgp" where
  "neighbor_start bip params s = s\<lparr>thread_q := start_peer bip params (thread_q s)\<rparr>"

section \<open>Steps\<close>

text \<open>
  The actions of the threads, in any order: the main thread takes one message of a neighbour
  or one entry of a RIB queue, a neighbour's thread receives a message, flushes one route,
  ends its session, tries to connect or sends its OPEN, the CLI starts a neighbour, sets its
  aliases and buffer sizes, reads the event database or writes the configuration. A message
  is taken off a neighbour's queue only while the session is established, which the code checks
  once per visit of the queue. Flushing and ending a session are allowed at any time, which
  covers every place where the code does it.
\<close>

inductive bgp_step :: "bgp \<Rightarrow> bgp \<Rightarrow> bool" where
  step_timer: "k < length (thread_q s) \<Longrightarrow> hold_timer_expired now (thread_q s ! k) = (e, p, ls) \<Longrightarrow>
     bgp_step s (add_log ls (set_peer k p s))"
| step_in_q: "k < length (thread_q s) \<Longrightarrow> state (thread_q s ! k) = Established \<Longrightarrow>
     in_queue (thread_q s ! k) = q # qs \<Longrightarrow> in_q_pop now k q s = Inr s' \<Longrightarrow> bgp_step s s'"
| step_rib_in: "adj_rib_in_q s = u # us \<Longrightarrow> rib_in_pop now u s = Inr s' \<Longrightarrow> bgp_step s s'"
| step_rib_wdraw: "adj_rib_in_wdraw_q s = u # us \<Longrightarrow> rib_wdraw_pop now u s = Inr s' \<Longrightarrow> bgp_step s s'"
| step_recv: "k < length (thread_q s) \<Longrightarrow> session_live k s \<Longrightarrow> session_recv now junk k s = Inr s' \<Longrightarrow> bgp_step s s'"
| step_flush: "k < length (thread_q s) \<Longrightarrow> flush_one k s = (True, s') \<Longrightarrow> bgp_step s s'"
| step_end: "k < length (thread_q s) \<Longrightarrow> bgp_step s (session_end k s)"
| step_attempt: "k < length (thread_q s) \<Longrightarrow> session_attempt a k s = Inr s' \<Longrightarrow> bgp_step s s'"
| step_open: "k < length (thread_q s) \<Longrightarrow> bgp_step s (session_open now k s)"
| step_neighbor: "bgp_step s (neighbor_start bip params s)"
| step_id: "bgp_step s (set_id ip s)"
| step_dumper: "bgp_step s (s\<lparr>dumper_on_off := on, dumper := d\<rparr>)"
| step_stop: "bgp_step s (s\<lparr>stop_and_exit_instance := True\<rparr>)"
| step_alias: "k < length (thread_q s) \<Longrightarrow> set_translation code v new (thread_q s ! k) = Inr p \<Longrightarrow>
     bgp_step s (set_peer k p s)"
| step_rx_buffer: "k < length (thread_q s) \<Longrightarrow>
     bgp_step s (set_peer k ((thread_q s ! k)\<lparr>tcp_rx_socket_buffer_size := a, bgp_rx_buffer_size := b\<rparr>) s)"
| step_tx_buffer: "k < length (thread_q s) \<Longrightarrow>
     bgp_step s (set_peer k ((thread_q s ! k)\<lparr>tcp_tx_socket_buffer_size := a, bgp_tx_buffer_size := b\<rparr>) s)"
| step_query: "db_get_entries u (database s) = Some (recs, db) \<Longrightarrow> bgp_step s (s\<lparr>database := db\<rparr>)"
| step_conf: "bgp_step s (s\<lparr>conf_file := conf\<rparr>)"

end
