(* ===== verification/Bgp_Api.thy ===== *)
theory Bgp_Api
  imports Bgp_Core
begin

text \<open>
  The queries of \<^verbatim>\<open>api/bgp_api.cpp\<close>: routes that cover an address, with their history, and the
  prefixes an AS originates. The answer is the text of the function, with its undefined
  behaviour as an error; a query for the history changes the position of the event database and
  may not end, which is \<open>None\<close>.
\<close>

section \<open>Matching\<close>

text \<open>The loop over the RIB: copies of the routes whose range has the address.\<close>

definition prefix_matches :: "u32 \<Rightarrow> bgp_adj_rib \<Rightarrow> bgp_update list" where
  "prefix_matches ip rib =
     map copy_update (filter (\<lambda>u. in_prefix_range (prefix (nlri u)) (prefix_highest (nlri u)) ip)
       (map snd rib))"

text \<open>\<^verbatim>\<open>htonl((0xffffffff << (32 - length)))\<close>\<close>

definition netmask :: "u8 \<Rightarrow> u32 result" where
  "netmask len =
     (let shift = 32 - int (unat len)
      in rbind (guard Bad_shift (0 \<le> shift \<and> shift < 32)) (\<lambda>_.
         Inr (htonl (push_bit (nat shift) 0xFFFFFFFF))))"

section \<open>JSON text\<close>

definition dquote :: string where
  "dquote = [CHR 0x22]"

definition jstr :: "string \<Rightarrow> string" where
  "jstr s = dquote @ s @ dquote"

definition jfield :: "string \<Rightarrow> string \<Rightarrow> string" where
  "jfield k v = jstr k @ '':'' @ v"

definition show_u32 :: "u32 \<Rightarrow> string" where
  "show_u32 w = show_nat (unat w)"

definition json_as_path :: "thread_q \<Rightarrow> u32 \<Rightarrow> as_path_segment option \<Rightarrow> string result" where
  "json_as_path q i p =
     (case p of
        None \<Rightarrow> Inr []
      | Some s \<Rightarrow> rbind (path_texts q i s) (\<lambda>ts.
          Inr ('','' @ jfield ''as_path_length'' (show_nat (unat (seg_length s)))
               @ '','' @ jfield ''as_path'' (''['' @ join '','' (map jstr ts) @ '']''))))"

text \<open>The closing quote of each element of \<^verbatim>\<open>as4_path\<close> is missing.\<close>

definition json_as4_path :: "thread_q \<Rightarrow> u32 \<Rightarrow> as_path_segment option \<Rightarrow> string result" where
  "json_as4_path q i p =
     (case p of
        None \<Rightarrow> Inr []
      | Some s \<Rightarrow> rbind (path_texts q i s) (\<lambda>ts.
          Inr ('','' @ jfield ''as4_path_length'' (show_nat (unat (seg_length s)))
               @ '','' @ jfield ''as4_path'' (''['' @ join '','' (map (\<lambda>t. dquote @ t) ts) @ '']''))))"

text \<open>\<open>as\<close> is the number printed last, which the code takes from \<^verbatim>\<open>aggregator\<close> for both attributes.\<close>

definition json_aggregator :: "string \<Rightarrow> thread_q \<Rightarrow> u32 \<Rightarrow> aggregator_segment \<Rightarrow> u32 \<Rightarrow> string" where
  "json_aggregator label q i a as =
     '','' @ jfield (label @ ''_str'') (jstr (translate_aggregator q i (aggr_origin a)))
     @ '','' @ jfield (label @ ''_bin'') (show_u32 (aggr_origin a))
     @ '','' @ jfield (label @ ''_as_str'') (jstr (translate_as_path q i (aggr_as a)))
     @ '','' @ jfield (label @ ''_as_bin'') (show_u32 as)"

definition json_aggregators :: "thread_q \<Rightarrow> bgp_update \<Rightarrow> string result" where
  "json_aggregators q u =
     (let i = nlri_bgp_id (nlri u);
          a2 = (case aggregator u of None \<Rightarrow> [] | Some a \<Rightarrow> json_aggregator ''aggregator'' q i a (aggr_as a))
      in case as4_aggregator u of
           None \<Rightarrow> Inr a2
         | Some b \<Rightarrow>
             (case aggregator u of
                None \<Rightarrow> Inl Null_pointer
              | Some a \<Rightarrow> Inr (a2 @ json_aggregator ''as4_aggregator'' q i b (aggr_as a))))"

definition json_community :: "thread_q \<Rightarrow> bgp_update \<Rightarrow> string result" where
  "json_community q u =
     (if com_seg_length u > 0 \<and> community u \<noteq> None then
        rbind (community_texts q u) (\<lambda>ts.
        Inr ('','' @ jfield ''community_length'' (show_nat (unat (com_seg_length u)))
             @ '','' @ jfield ''community'' (''['' @ join '','' (map jstr ts) @ '']'')))
      else Inr [])"

definition jsonify_entry :: "thread_q \<Rightarrow> bgp_update \<Rightarrow> string result" where
  "jsonify_entry q u =
     (let i = nlri_bgp_id (nlri u) in
      rbind (json_as_path q i (as_path u)) (\<lambda>path.
      rbind (json_as4_path q i (as4_path u)) (\<lambda>path4.
      rbind (origin_text (origin u)) (\<lambda>orig.
      rbind (json_aggregators q u) (\<lambda>aggr.
      rbind (json_community q u) (\<lambda>comm.
      Inr (jfield ''time_str'' (jstr (strftime_FT (gmtime (age (nlri u)))))
           @ '','' @ jfield ''time_epoch'' (int_to_string (sint (age (nlri u))))
           @ path @ path4
           @ '','' @ jfield ''origin'' (jstr orig)
           @ '','' @ jfield ''next_hop_str'' (jstr (ip_to_string (ipv4_next_hop u)))
           @ '','' @ jfield ''next_hop_name'' (jstr (translate_ipv4_next_hop q i (ipv4_next_hop u)))
           @ '','' @ jfield ''next_hop_bin'' (show_u32 (ipv4_next_hop u))
           @ '','' @ jfield ''med'' (show_u32 (med u))
           @ '','' @ jfield ''local_pref'' (show_u32 (local_pref u))
           @ '','' @ jfield ''atomic_aggregate'' (if atomic_aggregate u \<noteq> 0 then ''true'' else ''false'')
           @ aggr @ comm)))))))"

section \<open>Routes that cover an address\<close>

text \<open>The part of \<^verbatim>\<open>api_get_prefix\<close> before \<^verbatim>\<open>current\<close>.\<close>

definition json_prefix :: "thread_q \<Rightarrow> bgp_nlri \<Rightarrow> string result" where
  "json_prefix q n =
     rbind (netmask (prefix_length n)) (\<lambda>m.
     Inr (jfield ''prefix'' (jstr (ip_to_string (prefix n)))
          @ '','' @ jfield ''prefix_bin'' (show_u32 (prefix n))
          @ '','' @ jfield ''netmask'' (jstr (ip_to_string m))
          @ '','' @ jfield ''netmask_bin'' (show_u32 m)
          @ '','' @ jfield ''length'' (show_nat (unat (prefix_length n)))
          @ '','' @ jfield ''prefix_range'' (jstr (ip_to_string (prefix_highest n)))
          @ '','' @ jfield ''prefix_range_bin'' (show_u32 (prefix_highest n))
          @ '','' @ jfield ''peer'' (jstr (ip_to_string (nlri_bgp_id n)))
          @ (if peer_doing_alias (nlri_bgp_id n) q
             then '','' @ jfield ''peer_name'' (jstr (translate_bgp_id q (nlri_bgp_id n))) else [])))"

definition json_history :: "thread_q \<Rightarrow> bgp_update list \<Rightarrow> string result" where
  "json_history q recs =
     rbind (rmap (jsonify_entry q) recs) (\<lambda>ts.
     Inr ('','' @ jfield ''history_length'' (show_nat (length recs))
          @ '','' @ jfield ''history'' (''['' @ join '','' (map (\<lambda>t. ''{'' @ t @ ''}'') ts) @ '']'')))"

text \<open>One match; the history, when asked for, is read after the rest of the entry was printed.\<close>

definition api_entry :: "bool \<Rightarrow> bgp \<Rightarrow> bgp_update \<Rightarrow> (string \<times> bgp) result option" where
  "api_entry dump_history s u =
     (case rbind (json_prefix (thread_q s) (nlri u)) (\<lambda>a.
           rbind (jsonify_entry (thread_q s) u) (\<lambda>b.
           Inr (''{'' @ a @ '','' @ jfield ''current'' (''{'' @ b @ ''}'')))) of
        Inl e \<Rightarrow> Some (Inl e)
      | Inr t \<Rightarrow>
          if dump_history then
            (case db_get_entries u (database s) of
               None \<Rightarrow> None
             | Some (recs, db) \<Rightarrow>
                 Some (rbind (json_history (thread_q s) recs) (\<lambda>h.
                       Inr (t @ h @ ''}'', s\<lparr>database := db\<rparr>))))
          else Some (Inr (t @ ''}'', s)))"

fun api_entries :: "bool \<Rightarrow> bgp \<Rightarrow> bgp_update list \<Rightarrow> (string list \<times> bgp) result option" where
  "api_entries h s [] = Some (Inr ([], s))"
| "api_entries h s (u # us) =
     (case api_entry h s u of
        None \<Rightarrow> None
      | Some (Inl e) \<Rightarrow> Some (Inl e)
      | Some (Inr (t, s')) \<Rightarrow>
          (case api_entries h s' us of
             None \<Rightarrow> None
           | Some r \<Rightarrow> Some (rbind r (\<lambda>(ts, s''). Inr (t # ts, s'')))))"

definition api_get_prefix :: "string list \<Rightarrow> bgp \<Rightarrow> (string \<times> bgp) result option" where
  "api_get_prefix tokens s =
     (let head = ''{'' @ jstr ''entries'' @ '':[''
      in if length tokens < 3 then
           Some (Inr (head @ jfield ''prefix'' (jstr ''invalid number of parameters'') @ '']}'', s))
         else
           (case inet_aton (tokens ! 2) of
              None \<Rightarrow>
                Some (Inr (head @ ''{'' @ jfield ''prefix''
                  (jstr (''c'' @ [CHR 0x27] @ ''mon, thats not even a real ip prefix'')) @ ''}]}'', s))
            | Some ip \<Rightarrow>
                (let ms = prefix_matches ip (adj_rib_in s);
                     dump_history = (length tokens = 4 \<and> tokens ! 3 = ''history'')
                 in if ms = [] then
                      Some (Inr (head @ ''{'' @ jfield ''prefix'' (jstr ''network not in table'') @ ''}]}'', s))
                    else
                      map_option (\<lambda>r. rbind r (\<lambda>(ts, s'). Inr (head @ join '','' ts @ '']}'', s')))
                        (api_entries dump_history s ms))))"

section \<open>Prefixes of an AS\<close>

record prefix_match =
  pm_ip :: u32
  pm_length :: u8

text \<open>\<^verbatim>\<open>seg_value[i]\<close> of a path segment.\<close>

definition seg_at :: "as_path_segment \<Rightarrow> u8 \<Rightarrow> u32 result" where
  "seg_at s i =
     (case seg_value s of
        None \<Rightarrow> Inl Null_pointer
      | Some vs \<Rightarrow> if unat i < length vs then Inr (vs ! unat i) else Inl Out_of_bounds)"

text \<open>
  One pass of the loop, with the test on the prefix that distinguishes the three queries. The
  index of the last AS is computed in eight bits, so it is 255 for an empty path.
\<close>

definition origin_match ::
    "(u32 \<Rightarrow> bool result) \<Rightarrow> u32 \<Rightarrow> u32 \<Rightarrow> bgp_update \<Rightarrow> prefix_match list result" where
  "origin_match test asn len u =
     (case as_path u of
        None \<Rightarrow> Inr []
      | Some s \<Rightarrow>
          rbind (test (prefix (nlri u))) (\<lambda>wanted.
          if wanted \<and> ucast (prefix_length (nlri u)) \<le> len then
            rbind (seg_at s (seg_length s - 1)) (\<lambda>v.
            Inr (if v = asn then [\<lparr>pm_ip = prefix (nlri u), pm_length = prefix_length (nlri u)\<rparr>] else []))
          else Inr []))"

definition origin_matches ::
    "(u32 \<Rightarrow> bool result) \<Rightarrow> u32 \<Rightarrow> u32 \<Rightarrow> bgp_adj_rib \<Rightarrow> prefix_match list result" where
  "origin_matches test asn len rib =
     rbind (rmap (origin_match test asn len) (map snd rib)) (\<lambda>ms. Inr (concat ms))"

definition prefix_match_text :: "prefix_match \<Rightarrow> string" where
  "prefix_match_text m = jstr (ip_to_string (pm_ip m) @ ''/'' @ show_nat (unat (pm_length m)))"

definition api_origin_as :: "(u32 \<Rightarrow> bool result) \<Rightarrow> string list \<Rightarrow> bgp \<Rightarrow> string result" where
  "api_origin_as test tokens s =
     (if length tokens < 4 then
        Inr (''{'' @ jstr ''entries'' @ '':['' @ jfield ''prefix'' (jstr ''invalid number of parameters'') @ '']}'')
      else
        rbind (origin_matches test (string_to_uint32_t (tokens ! 2)) (string_to_uint32_t (tokens ! 3)) (adj_rib_in s))
          (\<lambda>ms. Inr (''{'' @ jstr ''entries'' @ '':['' @ join '','' (map prefix_match_text ms) @ '']}'')))"

definition api_get_all_origin_as :: "string list \<Rightarrow> bgp \<Rightarrow> string result" where
  "api_get_all_origin_as = api_origin_as (\<lambda>_. Inr True)"

section \<open>Private addresses\<close>

record ip_class =
  ipc_prefix :: u32
  ipc_range :: u32
  ipc_length :: u8

definition rfc_ips :: "(string \<times> u8) list" where
  "rfc_ips = [(''10.0.0.0'', 8), (''172.16.0.0'', 12), (''192.168.0.0'', 16)]"

text \<open>\<open>junk\<close> is what \<^verbatim>\<open>n_ip\<close> holds should \<^verbatim>\<open>inet_aton\<close> fail.\<close>

definition ip_classes :: "u32 \<Rightarrow> ip_class list result" where
  "ip_classes junk =
     rmap (\<lambda>(ip, len).
       let p = (case inet_aton ip of Some a \<Rightarrow> a | None \<Rightarrow> junk)
       in rbind (get_ipv4_high_range p len) (\<lambda>h.
          Inr \<lparr>ipc_prefix = p, ipc_range = h, ipc_length = len\<rparr>)) rfc_ips"

definition is_rfc1918 :: "u32 \<Rightarrow> bool result" where
  "is_rfc1918 p =
     rbind (ip_classes 0) (\<lambda>cs. Inr (list_ex (\<lambda>c. in_prefix_range (ipc_prefix c) (ipc_range c) p) cs))"

definition api_get_public_origin_as :: "string list \<Rightarrow> bgp \<Rightarrow> string result" where
  "api_get_public_origin_as = api_origin_as (\<lambda>p. rbind (is_rfc1918 p) (\<lambda>b. Inr (\<not> b)))"

definition api_get_private_origin_as :: "string list \<Rightarrow> bgp \<Rightarrow> string result" where
  "api_get_private_origin_as = api_origin_as is_rfc1918"

end
