(* ===== verification/Session_Proofs.thy ===== *)
theory Session_Proofs
  imports Bgp_Session
begin

text \<open>
  What the session code does: messages are framed and read back, an OPEN that is sent is
  understood, every branch of the OPEN checks, the ways into the established state, the hold
  timer, and which messages can take a run out of the defined behaviour.
\<close>

section \<open>Frames\<close>

text \<open>The bytes of a message on the wire.\<close>

definition frame :: "u8 \<Rightarrow> bytes \<Rightarrow> bytes" where
  "frame ty payload = replicate 16 0xFF @ be_bytes 2 (of_nat (length payload) + 19 :: u16) @ [ty] @ payload"

lemma tcp_write_append: "tcp_write bs' (tcp_write bs c) = tcp_write (bs @ bs') c"
  by (cases "connected c") (simp_all add: write_write)

lemma len_bytes:
  "ucast (ucast (drop_bit 8 (w :: u16)) :: 32 word) = (ucast (drop_bit 8 w) :: u8)"
  "ucast (ucast (w AND 0xFF) :: 32 word) = (ucast w :: u8)"
proof -
  show "ucast (ucast (drop_bit 8 w) :: 32 word) = (ucast (drop_bit 8 w) :: u8)"
    by (rule bit_word_eqI) (simp add: bit_simps)
  have "w AND 0xFF = take_bit 8 w" unfolding take_bit_eq_mask by (simp add: mask_eq_exp_minus_1)
  moreover have "ucast (ucast (take_bit 8 w) :: 32 word) = (ucast w :: u8)"
    by (rule bit_word_eqI) (simp add: bit_simps)
  ultimately show "ucast (ucast (w AND 0xFF) :: 32 word) = (ucast w :: u8)" by simp
qed

text \<open>The bookkeeping of \<^verbatim>\<open>send_packet\<close>, apart from what it writes.\<close>

definition sent_stats :: "time_t \<Rightarrow> bgp_msg_type \<Rightarrow> u16 \<Rightarrow> bgp_peer \<Rightarrow> bgp_peer" where
  "sent_stats now ty len p =
     count_sent ty now (p\<lparr>tx_rx := (tx_rx p)\<lparr>cnt_tx := cnt_tx (tx_rx p) + ucast len\<rparr>,
                          last_IO := (last_IO p)\<lparr>last_write := now\<rparr>\<rparr>)"

lemma send_packet_eq:
  "send_packet now p payload ty =
     (if state p = Idle \<or> ty = Msg_update then (0, p)
      else (of_nat (length payload) + 19,
            sent_stats now ty (of_nat (length payload) + 19)
              (tx_flush (tcp_write (frame (msg_type_code ty) payload) p))))"
  by (simp add: send_packet_def sent_stats_def Let_def write_formated_def tcp_write_append len_bytes
      frame_def be_bytes_2)

lemma sent_stats_sel [simp]:
  "tx (sent_stats now ty len p) = tx p" "rx (sent_stats now ty len p) = rx p"
  "sent (sent_stats now ty len p) = sent p" "tcp_socket (sent_stats now ty len p) = tcp_socket p"
  "state (sent_stats now ty len p) = state p" "p_bgp_id (sent_stats now ty len p) = p_bgp_id p"
  "p_AS (sent_stats now ty len p) = p_AS p" "p_hold_time (sent_stats now ty len p) = p_hold_time p"
  "keep_alive (sent_stats now ty len p) = keep_alive p" "in_queue (sent_stats now ty len p) = in_queue p"
  "prefixes (sent_stats now ty len p) = prefixes p" "p_ip (sent_stats now ty len p) = p_ip p"
  "in_q (sent_stats now ty len p) = in_q p" "p_b_ip (sent_stats now ty len p) = p_b_ip p"
  by (cases ty; simp add: sent_stats_def count_sent_def)+

lemma connected_sent_stats [simp]: "connected (sent_stats now ty len p) = connected p"
  by (simp add: connected_def split: option.splits)

lemma tx_flush_sel [simp]:
  "rx (tx_flush (c :: bgp_peer)) = rx c" "state (tx_flush c) = state c" "p_bgp_id (tx_flush c) = p_bgp_id c"
  "p_AS (tx_flush c) = p_AS c" "p_hold_time (tx_flush c) = p_hold_time c" "keep_alive (tx_flush c) = keep_alive c"
  "in_queue (tx_flush c) = in_queue c" "prefixes (tx_flush c) = prefixes c" "p_ip (tx_flush c) = p_ip c"
  "in_q (tx_flush c) = in_q c" "p_b_ip (tx_flush c) = p_b_ip c"
  by (cases "tx c"; simp add: tx_flush_def)+

lemma tcp_write_sel [simp]:
  "rx (tcp_write bs (c :: bgp_peer)) = rx c" "state (tcp_write bs c) = state c" "p_bgp_id (tcp_write bs c) = p_bgp_id c"
  "p_AS (tcp_write bs c) = p_AS c" "p_hold_time (tcp_write bs c) = p_hold_time c" "keep_alive (tcp_write bs c) = keep_alive c"
  "in_queue (tcp_write bs c) = in_queue c" "prefixes (tcp_write bs c) = prefixes c" "p_ip (tcp_write bs c) = p_ip c"
  "in_q (tcp_write bs c) = in_q c" "p_b_ip (tcp_write bs c) = p_b_ip c"
  by (simp_all add: tcp_write_def)

lemma send_packet_sel [simp]:
  "rx (snd (send_packet now p payload ty)) = rx p" "state (snd (send_packet now p payload ty)) = state p"
  "p_bgp_id (snd (send_packet now p payload ty)) = p_bgp_id p" "p_AS (snd (send_packet now p payload ty)) = p_AS p"
  "p_hold_time (snd (send_packet now p payload ty)) = p_hold_time p"
  "keep_alive (snd (send_packet now p payload ty)) = keep_alive p"
  "in_queue (snd (send_packet now p payload ty)) = in_queue p" "prefixes (snd (send_packet now p payload ty)) = prefixes p"
  "p_ip (snd (send_packet now p payload ty)) = p_ip p" "in_q (snd (send_packet now p payload ty)) = in_q p"
  "p_b_ip (snd (send_packet now p payload ty)) = p_b_ip p"
  by (simp_all add: send_packet_eq)

text \<open>
  A connection that is up and has nothing unflushed: every operation of the session keeps it so.
\<close>

definition ready :: "bgp_peer \<Rightarrow> bool" where
  "ready p \<longleftrightarrow> connected p \<and> tx p = Some []"

lemma send_packet_sent:
  assumes "ready p" and "state p \<noteq> Idle" and "ty \<noteq> Msg_update"
  shows "sent (snd (send_packet now p payload ty)) = sent p @ frame (msg_type_code ty) payload"
    and "ready (snd (send_packet now p payload ty))"
proof -
  have "tx_flush (tcp_write (frame (msg_type_code ty) payload) p) =
      p\<lparr>sent := sent p @ frame (msg_type_code ty) payload\<rparr>"
    using assms(1) by (simp add: ready_def sent_write_flush)
  with assms show "sent (snd (send_packet now p payload ty)) = sent p @ frame (msg_type_code ty) payload"
    and "ready (snd (send_packet now p payload ty))"
    by (simp_all add: send_packet_eq ready_def connected_def split: option.splits)
qed

lemma tcp_read_ahead:
  assumes "connected p" and "pending p = xs @ ys"
  shows "tcp_read (length xs) p = (Some xs, p\<lparr>rx := Some \<lparr>rx_data = ys, rx_eof = False\<rparr>\<rparr>)"
  using assms by (auto simp: tcp_read_def pending_def connected_def split: option.splits)

lemma connected_rx_update:
  "connected p \<Longrightarrow> connected (p\<lparr>rx := Some \<lparr>rx_data = ys, rx_eof = False\<rparr>\<rparr>)"
  by (auto simp: connected_def split: option.splits)

lemma connected_last_IO [simp]: "connected (p\<lparr>last_IO := l\<rparr>) = connected p"
  by (simp add: connected_def split: option.splits)

text \<open>The peer after it has read a frame.\<close>

definition after_frame :: "time_t \<Rightarrow> bytes \<Rightarrow> bgp_peer \<Rightarrow> bgp_peer" where
  "after_frame now rest p = p\<lparr>rx := Some \<lparr>rx_data = rest, rx_eof = False\<rparr>,
     last_IO := (last_IO p)\<lparr>last_read := now\<rparr>\<rparr>"

lemma unat_len: "length payload \<le> 65516 \<Longrightarrow> unat (of_nat (length payload) + 19 :: u16) = length payload + 19"
  by (simp add: unat_word_ariths unat_of_nat take_bit_nat_eq_self)

lemma established_step_frame:
  assumes "connected p" and "pending p = frame ty payload @ rest" and "length payload \<le> 65516"
  shows "established_step b now junk p = handle_message b now junk ty payload (after_frame now rest p)"
proof -
  let ?len = "of_nat (length payload) + 19 :: u16"
  let ?head = "replicate 16 0xFF @ be_bytes 2 ?len @ [ty]"
  have len: "length ?head = 19" by simp
  have "pending p = ?head @ (payload @ rest)" using assms(2) by (simp add: frame_def)
  from tcp_read_ahead [OF assms(1) this] have
    rd1: "tcp_read 19 p = (Some ?head, p\<lparr>rx := Some \<lparr>rx_data = payload @ rest, rx_eof = False\<rparr>\<rparr>)"
    unfolding len .
  have hd: "?head ! 16 = ucast (drop_bit 8 ?len)" "?head ! 17 = ucast ?len" "?head ! 18 = ty"
    by (simp_all add: be_bytes_2 nth_append)
  let ?p2 = "p\<lparr>rx := Some \<lparr>rx_data = payload @ rest, rx_eof = False\<rparr>,
                last_IO := (last_IO p)\<lparr>last_read := now\<rparr>\<rparr>"
  have "connected ?p2" using connected_rx_update [OF assms(1)] by simp
  moreover have "pending ?p2 = payload @ rest" by (simp add: pending_def)
  ultimately have rd2: "tcp_read (length payload) ?p2 = (Some payload, after_frame now rest p)"
    by (simp add: tcp_read_ahead after_frame_def)
  show ?thesis
    unfolding established_step_def rd1
    using unat_len [OF assms(3)] rd2 by (simp add: hd)
qed

text \<open>
  C20: framing. A message of at most 65516 payload bytes that one side sends on a connection is
  what the other side's loop reads: it consumes exactly this message, whatever follows it on
  the connection, and handles the payload that was sent under the type that was sent.
\<close>

theorem send_packet_received:
  assumes "ready p" and "state p \<noteq> Idle" and "ty \<noteq> Msg_update" and "length payload \<le> 65516"
    and "connected r" and "pending r = frame (msg_type_code ty) payload @ rest"
  shows "sent (snd (send_packet now p payload ty)) = sent p @ frame (msg_type_code ty) payload
    \<and> established_step b now' junk r = handle_message b now' junk (msg_type_code ty) payload (after_frame now' rest r)"
  using send_packet_sent(1) [OF assms(1,2,3)] established_step_frame [OF assms(5,6,4)] by simp

text \<open>A fresh peer with an open connection, for the witnesses.\<close>

definition sample_peer :: "bytes \<Rightarrow> bgp_peer" where
  "sample_peer data = (new_peer [] [])\<lparr>p_ip := ''10.0.0.1'', p_AS := 65001, tcp_socket := 3, tx := Some [],
     rx := Some \<lparr>rx_data = data, rx_eof = False\<rparr>, state := Opensent\<rparr>"

lemma sample_peer_sel [simp]:
  "state (sample_peer data) = Opensent" "ready (sample_peer data)" "connected (sample_peer data)"
  "pending (sample_peer data) = data" "p_AS (sample_peer data) = 65001"
  "p_version (sample_peer data) = 4"
  by (simp_all add: sample_peer_def ready_def connected_def pending_def new_peer_def bgp_peer.defs tcp_client.defs)

theorem send_packet_received_witness:
  "sent (snd (send_packet 0 (sample_peer []) [4, 0] Msg_notification)) = sent (sample_peer []) @ frame 3 [4, 0]
   \<and> established_step \<lparr>stop_and_exit_instance = False, my_bgp_id = 1, my_hold_time = 180, my_AS = 1,
        my_port = 179, my_version = 4, my_b_ip = []\<rparr> 0 [] (sample_peer (frame 3 [4, 0] @ [7]))
     = handle_message \<lparr>stop_and_exit_instance = False, my_bgp_id = 1, my_hold_time = 180, my_AS = 1,
        my_port = 179, my_version = 4, my_b_ip = []\<rparr> 0 [] 3 [4, 0] (after_frame 0 [7] (sample_peer (frame 3 [4, 0] @ [7])))"
  using send_packet_received [of "sample_peer []" Msg_notification "[4, 0]" "sample_peer (frame 3 [4, 0] @ [7])" "[7]"]
  by simp

section \<open>OPEN\<close>

text \<open>The payload of our own OPEN.\<close>

definition open_payload :: "u8 \<Rightarrow> u16 \<Rightarrow> u16 \<Rightarrow> u32 \<Rightarrow> bytes" where
  "open_payload ver as hold bid = [ver] @ be_bytes 2 as @ be_bytes 2 hold @ le_bytes 4 bid @ [0]"

lemma ucast_and_255:
  "ucast (w AND 0xFF :: u16) = (ucast w :: u8)" "ucast (v AND 0xFF :: u32) = (ucast v :: u8)"
proof -
  have "w AND 0xFF = take_bit 8 w" "v AND 0xFF = take_bit 8 v"
    unfolding take_bit_eq_mask by (simp_all add: mask_eq_exp_minus_1)
  moreover have "ucast (take_bit 8 w) = (ucast w :: u8)" "ucast (take_bit 8 v) = (ucast v :: u8)"
    by (rule bit_word_eqI, simp add: bit_simps)+
  ultimately show "ucast (w AND 0xFF :: u16) = (ucast w :: u8)" "ucast (v AND 0xFF :: u32) = (ucast v :: u8)"
    by simp_all
qed

lemma send_open_eq:
  "send_open b now p = (snd (send_packet now p
     (open_payload (my_version b) (my_AS b) (my_hold_time b) (my_bgp_id b)) Msg_open))\<lparr>state := Opensent\<rparr>"
  by (simp add: send_open_def open_payload_def be_bytes_2 le_bytes_evals ucast_and_255)

lemma id_bytes:
  "ucast (ucast w :: u8) + push_bit 8 (ucast (ucast (drop_bit 8 w) :: u8))
     + push_bit 16 (ucast (ucast (drop_bit 16 w) :: u8)) + push_bit 24 (ucast (ucast (drop_bit 24 w) :: u8)) = (w :: u32)"
  using be32_bytes [of w] by (simp add: be32_def add.commute add.left_commute)

lemma decode_open_payload:
  "decode_open b now p (open_payload ver as hold bid @ junk) = Inr
     (if ver \<noteq> my_version b then reject_open now p Osub_unsup_ver_num
      else if as \<noteq> p_AS p then
        reject_open now (p\<lparr>p_version := word_of_le (ver # drop 1 (le_bytes 2 (p_version p)))\<rparr>) Osub_bad_peer_as
      else snd (send_packet now
        (p\<lparr>p_version := word_of_le (ver # drop 1 (le_bytes 2 (p_version p))), p_AS := as, p_bgp_id := bid,
           p_b_ip := inet_ntoa bid, p_hold_time := ucast (ucast hold :: u8) + ucast (ucast (drop_bit 8 hold) :: u8),
           keep_alive := (ucast (ucast hold :: u8) + ucast (ucast (drop_bit 8 hold) :: u8)) div 3,
           opt_param_len := 0, state := Openconfirm\<rparr>) [] Msg_keepalive))"
  by (simp add: decode_open_def open_payload_def be_bytes_2 le_bytes_evals rd_def rd16_def id_bytes Let_def)

lemma hold_sum:
  "unat (ucast (ucast h :: u8) + ucast (ucast (drop_bit 8 h) :: u8) :: u16) = unat (h :: u16) div 256 + unat h mod 256"
proof -
  have lo: "unat (ucast (ucast h :: u8) :: u16) = unat h mod 256"
    unfolding unsigned_ucast_eq by (simp add: take_bit_eq_mod unat_mod)
  have "unat h < 2 ^ LENGTH(16)" by (rule unsigned_less)
  then have "unat h div 256 < 256" by (simp add: less_mult_imp_div_less)
  then have hi: "unat (ucast (ucast (drop_bit 8 h) :: u8) :: u16) = unat h div 256"
    unfolding unsigned_ucast_eq unat_drop_bit_eq
    by (simp add: drop_bit_eq_div unsigned_take_bit_eq unat_div take_bit_nat_eq_self)
  have "unat h mod 256 < 256" by simp
  with \<open>unat h div 256 < 256\<close> show ?thesis
    by (simp only: unat_word_ariths lo hi) simp
qed

text \<open>
  C22: the OPEN exchange. An OPEN that a speaker with our version sends, received by a speaker
  that expects the sender's AS, sets the id of the neighbour, its AS and a keepalive interval
  of a third of the hold time, is answered by a KEEPALIVE and leaves the session in
  \<^verbatim>\<open>openconfirm\<close>. The hold time it records is the \<^emph>\<open>sum\<close> of the two bytes of the sender's hold
  time, which is the hold time only below 256 seconds.
\<close>

theorem open_exchange:
  assumes "my_version b = my_version a" and "p_AS p = my_AS a" and "ready p"
  shows "\<exists>p'. decode_open b now p
        (open_payload (my_version a) (my_AS a) (my_hold_time a) (my_bgp_id a) @ junk) = Inr p'
     \<and> state p' = Openconfirm \<and> p_bgp_id p' = my_bgp_id a \<and> p_AS p' = my_AS a
     \<and> unat (p_hold_time p') = unat (my_hold_time a) div 256 + unat (my_hold_time a) mod 256
     \<and> keep_alive p' = p_hold_time p' div 3
     \<and> sent p' = sent p @ frame (msg_type_code Msg_keepalive) []"
proof -
  let ?h = "my_hold_time a"
  let ?hold = "ucast (ucast ?h :: u8) + ucast (ucast (drop_bit 8 ?h) :: u8) :: u16"
  let ?p = "p\<lparr>p_version := word_of_le (my_version a # drop 1 (le_bytes 2 (p_version p))), p_AS := my_AS a,
     p_bgp_id := my_bgp_id a, p_b_ip := inet_ntoa (my_bgp_id a), p_hold_time := ?hold,
     keep_alive := ?hold div 3, opt_param_len := 0, state := Openconfirm\<rparr>"
  have hold: "unat ?hold = unat ?h div 256 + unat ?h mod 256" by (rule hold_sum)
  have "ready ?p" using assms(3) by (simp add: ready_def connected_def split: option.splits)
  from send_packet_sent(1) [OF this, of Msg_keepalive now "[]"] hold assms show ?thesis
    by (simp add: decode_open_payload)
qed

theorem open_exchange_witness:
  "\<exists>p'. decode_open \<lparr>stop_and_exit_instance = False, my_bgp_id = 1, my_hold_time = 180, my_AS = 1,
        my_port = 179, my_version = 4, my_b_ip = []\<rparr> 0 (sample_peer []) (open_payload 4 65001 300 9 @ []) = Inr p'
     \<and> state p' = Openconfirm \<and> p_bgp_id p' = 9 \<and> p_AS p' = 65001 \<and> unat (p_hold_time p') = 45"
  using open_exchange [of "\<lparr>stop_and_exit_instance = False, my_bgp_id = 1, my_hold_time = 180, my_AS = 1,
        my_port = 179, my_version = 4, my_b_ip = []\<rparr>"
      "\<lparr>stop_and_exit_instance = False, my_bgp_id = 9, my_hold_time = 300, my_AS = 65001,
        my_port = 179, my_version = 4, my_b_ip = []\<rparr>" "sample_peer []" 0 "[]"]
  by auto

text \<open>
  C23: an OPEN with another version or from an AS that is not configured is refused: the
  NOTIFICATION of RFC 4271 (code 2, subcode 1 or 2) is sent, the connection is closed and the
  session is idle.
\<close>

theorem open_refused:
  assumes "ready p" and "state p \<noteq> Idle" and "ver \<noteq> my_version b \<or> as \<noteq> p_AS p"
  shows "\<exists>p'. decode_open b now p (open_payload ver as hold bid @ junk) = Inr p'
     \<and> state p' = Idle \<and> \<not> connected p' \<and> p_bgp_id p' = p_bgp_id p
     \<and> sent p' = sent p @ frame 3 [2, if ver \<noteq> my_version b then 1 else 2]"
proof -
  have rej: "state (reject_open now r sub) = Idle \<and> \<not> connected (reject_open now r sub)
      \<and> p_bgp_id (reject_open now r sub) = p_bgp_id r
      \<and> sent (reject_open now r sub) = sent r @ frame 3 [2, open_error_subcode sub]"
    if "ready r" "state r \<noteq> Idle" for r sub
    using send_packet_sent(1) [OF that, of Msg_notification now "[2, open_error_subcode sub]"]
    by (simp add: reject_open_def notification_def disconnect_def connected_def)
  have "ready (p\<lparr>p_version := v\<rparr>)" for v
    using assms(1) by (simp add: ready_def connected_def split: option.splits)
  then show ?thesis
    using assms rej [of p Osub_unsup_ver_num] rej [of "p\<lparr>p_version := v\<rparr>" Osub_bad_peer_as for v]
    by (cases "ver \<noteq> my_version b") (simp_all add: decode_open_payload)
qed

theorem open_refused_witness:
  "\<exists>p'. decode_open \<lparr>stop_and_exit_instance = False, my_bgp_id = 1, my_hold_time = 180, my_AS = 1,
        my_port = 179, my_version = 4, my_b_ip = []\<rparr> 0 (sample_peer []) (open_payload 3 65001 180 9 @ []) = Inr p'
     \<and> state p' = Idle \<and> \<not> connected p' \<and> p_bgp_id p' = p_bgp_id (sample_peer [])
     \<and> sent p' = sent (sample_peer []) @ frame 3 [2, 1]"
  using open_refused [of "sample_peer []" 3 "\<lparr>stop_and_exit_instance = False, my_bgp_id = 1, my_hold_time = 180,
        my_AS = 1, my_port = 179, my_version = 4, my_b_ip = []\<rparr>" 65001 0 180 9 "[]"]
  by simp

section \<open>The state machine\<close>

lemma reject_open_state [simp]: "state (reject_open now p sub) = Idle"
  by (simp add: reject_open_def disconnect_def)

lemma decode_open_state:
  "decode_open b now p packet = Inr p' \<Longrightarrow> state p' = Idle \<or> state p' = Openconfirm"
  by (auto simp: decode_open_def rbind_eq_Inr Let_def split: if_splits)

text \<open>
  The transitions of the state machine that a received message can cause.
\<close>

inductive msg_transition :: "bgp_peer_state \<Rightarrow> u8 \<Rightarrow> bgp_peer_state \<Rightarrow> bool" where
  open_refused: "msg_transition s 1 Idle"
| open_accepted: "msg_transition s 1 Openconfirm"
| session_up: "msg_transition Openconfirm 4 Established"
| keepalive: "s \<noteq> Openconfirm \<Longrightarrow> msg_transition s 4 s"
| other: "ty \<noteq> 1 \<Longrightarrow> ty \<noteq> 4 \<Longrightarrow> msg_transition s ty s"

inductive_cases into_established: "msg_transition s ty Established"

lemma handle_message_transition:
  assumes "handle_message b now junk ty payload p = Inr (p', ls)"
  shows "msg_transition (state p) ty (state p')"
proof (cases "msg_type_of ty")
  case None
  with assms have "state p' = state p" by (simp add: handle_message_def)
  moreover have "ty \<noteq> 1" "ty \<noteq> 4" using None by (auto simp: msg_type_of_def split: if_splits)
  ultimately show ?thesis by (simp add: msg_transition.other)
next
  case (Some t)
  then have ty: "ty = msg_type_code t" by (auto simp: msg_type_of_def split: if_splits)
  show ?thesis
  proof (cases t)
    case Msg_open
    with assms Some ty show ?thesis
      by (auto simp: handle_message_def rbind_eq_Inr dest!: decode_open_state intro: msg_transition.intros)
  next
    case Msg_keepalive
    with assms Some ty show ?thesis
      by (cases "state p = Openconfirm") (auto simp: handle_message_def Let_def intro: msg_transition.intros)
  qed (use assms Some ty in \<open>auto simp: handle_message_def queue_update_def rbind_eq_Inr intro!: msg_transition.other\<close>)
qed

text \<open>
  C19: the only way into the established state. A message makes a session that was not
  established so only if it is a KEEPALIVE and the session was in \<^verbatim>\<open>openconfirm\<close>, and then the
  transition is logged and the up time recorded.
\<close>

theorem established_only_by_keepalive:
  assumes "handle_message b now junk ty payload p = Inr (p', ls)"
    and "state p' = Established" and "state p \<noteq> Established"
  shows "state p = Openconfirm \<and> ty = 4 \<and> up_since p' = now \<and> ls = [Adjchange (p_ip p) ''Up'']"
proof -
  have *: "state p = Openconfirm \<and> ty = 4"
    using handle_message_transition [OF assms(1)] assms(2,3) by (auto elim: into_established)
  have "up_since (snd (send_packet now q bs t)) = up_since q" for q bs t
    by (cases t) (simp_all add: send_packet_eq sent_stats_def count_sent_def tx_flush_def tcp_write_def split: option.splits)
  with * assms(1) show ?thesis by (auto simp: handle_message_def msg_type_of_def Let_def)
qed

theorem established_only_by_keepalive_witness:
  "\<exists>p' ls. handle_message \<lparr>stop_and_exit_instance = False, my_bgp_id = 1, my_hold_time = 180, my_AS = 1,
        my_port = 179, my_version = 4, my_b_ip = []\<rparr> 5 [] 4 [] ((sample_peer [])\<lparr>state := Openconfirm\<rparr>) = Inr (p', ls)
     \<and> up_since p' = 5 \<and> ls = [Adjchange ''10.0.0.1'' ''Up'']"
proof -
  let ?b = "\<lparr>stop_and_exit_instance = False, my_bgp_id = 1, my_hold_time = 180, my_AS = 1,
        my_port = 179, my_version = 4, my_b_ip = []\<rparr>"
  let ?p = "(sample_peer [])\<lparr>state := Openconfirm\<rparr>"
  have "\<exists>p' ls. handle_message ?b 5 [] 4 [] ?p = Inr (p', ls) \<and> state p' = Established"
    by (simp add: handle_message_def msg_type_of_def Let_def)
  then obtain p' ls where run: "handle_message ?b 5 [] 4 [] ?p = Inr (p', ls)" "state p' = Established" by blast
  from established_only_by_keepalive [OF run] run(1) show ?thesis by (simp add: sample_peer_def)
qed

section \<open>The hold timer\<close>

text \<open>
  C24: the hold timer of an established session. When the last message is at least the hold
  time ago, the NOTIFICATION \<^emph>\<open>hold timer expired\<close> is sent, the connection closed and the
  session idle; otherwise the session stays as it is, and a KEEPALIVE is sent exactly when the
  last one is at least the keepalive interval ago.
\<close>

theorem hold_timer_established:
  assumes "ready p" and "state p = Established"
  shows "if int (unat (p_hold_time p)) \<le> sint (now - last_read (last_IO p)) then
       (\<exists>p'. hold_timer_expired now p = (True, p', [Adjchange (p_ip p) ''Down Holdtime expired''])
          \<and> state p' = Idle \<and> \<not> connected p' \<and> sent p' = sent p @ frame 3 [4, 0])
     else
       (\<exists>p'. hold_timer_expired now p = (False, p', []) \<and> state p' = Established \<and> ready p'
          \<and> sent p' = sent p @ (if int (unat (keep_alive p)) \<le> sint (now - last_tx (keepaliv p))
                              then frame 4 [] else []))"
  using assms send_packet_sent [OF assms(1), of Msg_notification now "[4, 0]"]
    send_packet_sent [OF assms(1), of Msg_keepalive now "[]"]
  by (simp add: hold_timer_expired_def notification_def disconnect_def connected_def)

theorem hold_timer_established_witness:
  "\<exists>p'. hold_timer_expired 200 ((sample_peer [])\<lparr>state := Established\<rparr>) =
       (True, p', [Adjchange ''10.0.0.1'' ''Down Holdtime expired''])
     \<and> state p' = Idle \<and> \<not> connected p'"
proof -
  let ?p = "(sample_peer [])\<lparr>state := Established\<rparr>"
  have "ready ?p" by (simp add: sample_peer_def ready_def connected_def)
  moreover have "p_hold_time ?p = 180" "last_read (last_IO ?p) = 0" "p_ip ?p = ''10.0.0.1''"
    by (simp_all add: sample_peer_def new_peer_def bgp_peer.defs tcp_client.defs)
  ultimately show ?thesis using hold_timer_established [of ?p 200] by auto
qed

section \<open>Messages that leave the defined behaviour\<close>



text \<open>
  the length field is trusted. With a length below 19 the receiver stores everything that
  follows on the connection into a buffer of that many bytes.
\<close>

theorem short_length_overflow:
  assumes "connected p" and "pending p = head @ rest" and "length head = 19"
    and "unat (be16 (head ! 16) (head ! 17)) < 19" and "unat (be16 (head ! 16) (head ! 17)) < length rest"
  shows "established_step b now junk p = Inl Buffer_overflow"
  using tcp_read_ahead [OF assms(1,2)] assms(3,4,5)
  by (simp add: established_step_def pending_def)

theorem short_length_overflow_witness:
  "established_step \<lparr>stop_and_exit_instance = False, my_bgp_id = 1, my_hold_time = 180, my_AS = 1,
        my_port = 179, my_version = 4, my_b_ip = []\<rparr> 0 [] (sample_peer (replicate 16 0xFF @ [0, 0, 4, 1])) = Inl Buffer_overflow"
  by (rule short_length_overflow [where head = "replicate 16 0xFF @ [0, 0, 4]" and rest = "[1]"])
    (simp_all add: be16_def eval_simps)

text \<open>
  an UPDATE of more than 4096 payload bytes, which a length field can announce, is copied
  over the end of the queue entry.
\<close>

theorem long_update_overflow:
  assumes "connected p" and "pending p = frame 2 payload @ rest"
    and "4096 < length payload" and "length payload \<le> 65516"
  shows "established_step b now junk p = Inl Buffer_overflow"
  using established_step_frame [OF assms(1,2,4)] assms(3)
  by (simp add: handle_message_def msg_type_of_def queue_update_def)

theorem long_update_overflow_witness:
  "established_step \<lparr>stop_and_exit_instance = False, my_bgp_id = 1, my_hold_time = 180, my_AS = 1,
        my_port = 179, my_version = 4, my_b_ip = []\<rparr> 0 [] (sample_peer (frame 2 (replicate 5000 0) @ [])) = Inl Buffer_overflow"
  by (rule long_update_overflow [where payload = "replicate 5000 0" and rest = "[]"]) simp_all

text \<open>
  which NOTIFICATIONs can be logged. The subcode of the codes 1 to 3 indexes a table of
  strings unchecked; the texts are defined exactly for the subcodes listed here, and with any
  other a null pointer is made a string or memory past the table is read.
\<close>

theorem decode_notification_defined:
  assumes "6 \<le> length data"
  shows "(\<exists>ls. decode_notification (code # sub # data) = Inr ls) \<longleftrightarrow>
     (code = 1 \<longrightarrow> unat sub \<in> {1, 2, 3})
     \<and> (code = 2 \<longrightarrow> unat sub \<in> {1, 2, 3, 4, 6, 7})
     \<and> (code = 3 \<longrightarrow> unat sub \<in> {1..11})"
proof -
  have head: "(\<exists>s. table_string bgp_error_sub_header sub = Inr s) \<longleftrightarrow> unat sub \<in> {1, 2, 3}"
    by (auto simp: table_string_def bgp_error_sub_header_def nth_Cons' split: option.splits if_splits)
  have op: "(\<exists>s. table_string bgp_error_sub_open sub = Inr s) \<longleftrightarrow> unat sub \<in> {1, 2, 3, 4, 6, 7}"
    by (auto simp: table_string_def bgp_error_sub_open_def nth_Cons' split: option.splits if_splits)
  have up: "(\<exists>s. table_string bgp_error_sub_update sub = Inr s) \<longleftrightarrow> unat sub \<in> {1..11}"
    by (auto simp: table_string_def bgp_error_sub_update_def nth_Cons' split: option.splits if_splits)
  have codes: "\<exists>s. table_string bgp_error_codes c = Inr s" if "c \<in> {1, 2, 3, 4, 5, 6}" for c
    using that by (auto simp: table_string_def bgp_error_codes_def)
  from assms have "\<exists>r. rd_block (code # sub # data) 2 6 = Inr r" by (simp add: rd_block_def)
  then show ?thesis
    using codes [of 1] codes [of 2] codes [of 3] codes [of code]
    unfolding head [symmetric] op [symmetric] up [symmetric]
    by (auto simp: decode_notification_def rd_def rbind_eq_Inr)
qed

theorem decode_notification_defined_witness:
  "\<not> (\<exists>ls. decode_notification [2, 5, 0, 0, 0, 0, 0, 0] = Inr ls)"
  using decode_notification_defined [of "[0, 0, 0, 0, 0, 0]" 2 5] by simp

end
