(* ===== verification/Database_Proofs.thy ===== *)
theory Database_Proofs
  imports Bgp_Database
begin

text \<open>
  The event database gives back what was stored: a record that was written is read back
  (with its reader terminating on it), and after any number of inserts a query returns the
  last \<^verbatim>\<open>max_records\<close> stored updates of its key, newest first. The last section shows what
  the shared stream position does to an insert that follows a query.
\<close>

section \<open>Reading what lies ahead\<close>

definition rem :: "fstream \<Rightarrow> bytes" where
  "rem s = drop (fs_pos s) (fs_data s)"

definition adv :: "nat \<Rightarrow> fstream \<Rightarrow> fstream" where
  "adv n s = s\<lparr>fs_pos := fs_pos s + n\<rparr>"

lemma adv_simps [simp]:
  "fs_good (adv n s) = fs_good s" "rem (adv n s) = drop n (rem s)"
  "adv m (adv n s) = adv (n + m) s" "adv 0 s = s"
  "fs_open (adv n s) = fs_open s" "fs_data (adv n s) = fs_data s" "fs_pos (adv n s) = fs_pos s + n"
  by (simp_all add: adv_def rem_def add.commute add.left_commute)

lemma read_word_good [simp]:
  assumes "fs_good s" and "n \<le> length (rem s)"
  shows "read_word n old s = (word_of_le (take n (rem s)), adv n s)"
proof -
  have "take n (rem s) @ drop (length (take n (rem s))) (le_bytes n old) = take n (rem s)"
    using assms(2) by simp
  with assms show ?thesis
    by (simp add: read_word_def fs_read_def Let_def adv_def flip: rem_def)
qed

lemma length_concat_le_bytes [simp]: "length (concat (map (le_bytes n) ws)) = n * length ws"
  by (induction ws) auto

lemma length_concat_comm_bytes [simp]: "length (concat (map comm_bytes cs)) = 8 * length cs"
  by (induction cs) (auto simp: comm_bytes_def)

lemma read_words_good:
  "fs_good s \<Longrightarrow> rem s = concat (map (le_bytes 4) ws) @ rest \<Longrightarrow>
     read_words (length ws) s = (ws, adv (4 * length ws) s)"
  by (induction ws arbitrary: s) simp_all

lemma read_comms_good:
  "fs_good s \<Longrightarrow> rem s = concat (map comm_bytes cs) @ rest \<Longrightarrow>
     read_comms (length cs) s = (cs, adv (8 * length cs) s)"
  by (induction cs arbitrary: s) (simp_all add: comm_bytes_def)

section \<open>One record\<close>

text \<open>
  \<open>reads p f\<close>: with the bytes \<open>p\<close> ahead, and more after them, the reader consumes them and
  applies \<open>f\<close> to the update it builds.
\<close>

definition reads :: "bytes \<Rightarrow> (bgp_update \<Rightarrow> bgp_update) \<Rightarrow> bool" where
  "reads p f \<longleftrightarrow> (\<forall>s u rest. fs_good s \<longrightarrow> rem s = p @ rest \<longrightarrow> 4 \<le> length rest \<longrightarrow>
     db_read_record 0 u s = db_read_record 0 (f u) (adv (length p) s))"

lemma reads_Nil [simp]: "reads [] (\<lambda>u. u)"
  by (simp add: reads_def)

lemma reads_append: "reads p f \<Longrightarrow> reads q g \<Longrightarrow> reads (p @ q) (\<lambda>u. g (f u))"
  by (simp add: reads_def)

lemma zero_not_end [simp]: "0 \<noteq> dbase_code Db_end_of_record"
  by simp

lemma db_read_record_code:
  "fs_good s \<Longrightarrow> 4 \<le> length (rem s) \<Longrightarrow> code \<noteq> dbase_code Db_end_of_record \<Longrightarrow>
     db_read_record code u s = db_read_record 0 u s"
  by (subst (1 2) db_read_record.simps) simp

text \<open>One pass of the loop over an attribute.\<close>

lemma reads_put:
  assumes "m \<noteq> Db_end_of_record"
    and "\<And>s u rest. fs_good s \<Longrightarrow> rem s = bs @ rest \<Longrightarrow>
           db_get_attrib (Some m) u s = (f u, adv (length bs) s)"
  shows "reads (put m bs) f"
  unfolding reads_def
proof (intro allI impI)
  fix s u rest
  assume s: "fs_good s" "rem s = put m bs @ rest" and rest: "4 \<le> length (rest :: bytes)"
  have "db_get_attrib (Some m) u (adv 4 s) = (f u, adv (length (put m bs)) s)"
    using assms(2) [of "adv 4 s" rest u] s by (simp add: put_def)
  then have "db_read_record 0 u s = db_read_record (dbase_code m) (f u) (adv (length (put m bs)) s)"
    using s by (subst db_read_record.simps) (simp add: put_def)
  also have "\<dots> = db_read_record 0 (f u) (adv (length (put m bs)) s)"
    using s rest assms(1)
    by (intro db_read_record_code) (simp_all only: dbase_code_inject adv_simps drop_append, simp_all)
  finally show "db_read_record 0 u s = db_read_record 0 (f u) (adv (length (put m bs)) s)" .
qed

lemma get_path_good:
  assumes "fs_good s" and "length ws = unat len"
    and "rem s = le_bytes 1 len @ le_bytes 1 ty @ concat (map (le_bytes 4) ws) @ rest"
  shows "get_path s = (\<lparr>seg_type = ty, seg_length = len, seg_value = Some ws\<rparr>, adv (2 + 4 * length ws) s)"
  using assms read_words_good [of "adv 2 s" ws rest] by (simp add: get_path_def numeral_2_eq_2)

lemma get_community_good:
  assumes "fs_good s" and "length cs = unat len"
    and "rem s = le_bytes 1 len @ concat (map comm_bytes cs) @ rest"
  shows "get_community u s = (u\<lparr>com_seg_length := len, community := Some cs\<rparr>, adv (1 + 8 * length cs) s)"
  using assms read_comms_good [of "adv 1 s" cs rest] by (simp add: get_community_def)

lemmas get_defs = db_get_attrib_def get_aggregator_def get_nlri_def

lemma reads_family:
  "reads (put_family u) (\<lambda>v. v\<lparr>addr_family := addr_family u, addr_family_id := addr_family_id u\<rparr>)"
  unfolding put_family_def
  by (rule reads_append [where f = "\<lambda>v. v\<lparr>addr_family := addr_family u\<rparr>"
        and g = "\<lambda>v. v\<lparr>addr_family_id := addr_family_id u\<rparr>", simplified];
      rule reads_put; simp add: get_defs)

lemma reads_aggregator:
  "reads (put_aggregator Db_aggregator a) (\<lambda>v. case a of None \<Rightarrow> v | Some _ \<Rightarrow> v\<lparr>aggregator := a\<rparr>)"
  by (cases a) (auto simp: put_aggregator_def intro!: reads_put simp: get_defs)

lemma reads_as4_aggregator:
  "reads (put_aggregator Db_as4_aggregator a) (\<lambda>v. case a of None \<Rightarrow> v | Some _ \<Rightarrow> v\<lparr>as4_aggregator := a\<rparr>)"
  by (cases a) (auto simp: put_aggregator_def intro!: reads_put simp: get_defs)

text \<open>A segment as the reader leaves it: the array is allocated even when it is empty.\<close>

definition read_segment :: "as_path_segment \<Rightarrow> as_path_segment" where
  "read_segment p = p\<lparr>seg_value := Some (seg_list p)\<rparr>"

lemma copy_read_segment [simp]: "seg_wf p \<Longrightarrow> copy_segment (read_segment p) = copy_segment p"
  by (auto simp: read_segment_def copy_segment_def seg_wf_def seg_list_def word_gt_0 split: option.splits)

lemma array_read_wf:
  "seg_wf p \<Longrightarrow> array_read (unat (seg_length p)) (seg_value p) = Inr (seg_list p)"
  "seg_wf p \<Longrightarrow> length (seg_list p) = unat (seg_length p)"
  by (auto simp: array_read_def seg_wf_def seg_list_def split: option.splits)

lemma put_path_wf:
  "pred_option seg_wf p \<Longrightarrow> put_path m p =
     Inr (case p of None \<Rightarrow> []
          | Some q \<Rightarrow> put m (le_bytes 1 (seg_length q) @ le_bytes 1 (seg_type q)
                        @ concat (map (le_bytes 4) (seg_list q))))"
  by (cases p) (simp_all add: put_path_def array_read_wf)

lemma get_path_segment:
  assumes "fs_good s" and "seg_wf p"
    and "rem s = (le_bytes 1 (seg_length p) @ le_bytes 1 (seg_type p)
                   @ concat (map (le_bytes 4) (seg_list p))) @ rest"
  shows "get_path s = (read_segment p, adv (2 + 4 * unat (seg_length p)) s)"
  using get_path_good [of s "seg_list p" "seg_length p" "seg_type p" rest] assms
  by (simp add: array_read_wf read_segment_def)

lemma reads_path:
  assumes "pred_option seg_wf p" and "put_path Db_as_path p = Inr bs"
  shows "reads bs (\<lambda>v. case p of None \<Rightarrow> v | Some q \<Rightarrow> v\<lparr>as_path := Some (read_segment q)\<rparr>)"
  using assms
  by (cases p) (auto simp: put_path_wf array_read_wf db_get_attrib_def get_path_segment intro!: reads_put)

lemma reads_as4_path:
  assumes "pred_option seg_wf p" and "put_path Db_as4_path p = Inr bs"
  shows "reads bs (\<lambda>v. case p of None \<Rightarrow> v | Some q \<Rightarrow> v\<lparr>as4_path := Some (read_segment q)\<rparr>)"
  using assms
  by (cases p) (auto simp: put_path_wf array_read_wf db_get_attrib_def get_path_segment intro!: reads_put)

lemma reads_atomic:
  "reads (put_atomic u) (\<lambda>v. if atomic_aggregate u \<noteq> 0 then v\<lparr>atomic_aggregate := 1\<rparr> else v)"
  by (auto simp: put_atomic_def db_get_attrib_def intro!: reads_put)

lemma put_community_wf:
  "update_wf u \<Longrightarrow> put_community u =
     Inr (case community u of None \<Rightarrow> []
          | Some cs \<Rightarrow> put Db_community (le_bytes 1 (com_seg_length u) @ concat (map comm_bytes cs)))"
  by (auto simp: put_community_def update_wf_def array_read_def split: option.splits)

lemma reads_community:
  assumes "update_wf u" and "put_community u = Inr bs"
  shows "reads bs (\<lambda>v. case community u of None \<Rightarrow> v
           | Some cs \<Rightarrow> v\<lparr>com_seg_length := com_seg_length u, community := Some cs\<rparr>)"
proof (cases "community u")
  case (Some cs)
  then have "length cs = unat (com_seg_length u)" using assms(1) by (simp add: update_wf_def)
  with Some assms show ?thesis
    using get_community_good
    by (auto simp: put_community_wf db_get_attrib_def intro!: reads_put)
qed (use assms in \<open>simp add: put_community_wf\<close>)

lemma reads_metrics:
  "reads (put_metrics u)
     (\<lambda>v. v\<lparr>ipv4_next_hop := ipv4_next_hop u, local_pref := local_pref u, med := med u\<rparr>)"
proof -
  have "reads (put Db_next_hop (le_bytes 4 (ipv4_next_hop u))) (\<lambda>v. v\<lparr>ipv4_next_hop := ipv4_next_hop u\<rparr>)"
    "reads (put Db_local_pref (le_bytes 4 (local_pref u))) (\<lambda>v. v\<lparr>local_pref := local_pref u\<rparr>)"
    "reads (put Db_multi_exit_disc (le_bytes 4 (med u))) (\<lambda>v. v\<lparr>med := med u\<rparr>)"
    by (rule reads_put; simp add: get_defs)+
  from reads_append [OF this(1) reads_append [OF this(2,3)]] show ?thesis
    by (simp add: put_metrics_def)
qed

lemma get_nlri_good:
  "fs_good s \<Longrightarrow> rem s = drop 4 (put_nlri n) @ rest \<Longrightarrow> get_nlri m s = (n, adv 37 s)"
  by (simp add: get_nlri_def put_nlri_def put_def)

lemma reads_nlri: "reads (put_nlri n) (\<lambda>v. v\<lparr>nlri := n\<rparr>)"
  using get_nlri_good [of _ n] unfolding put_nlri_def
  by (intro reads_put) (simp_all add: put_def db_get_attrib_def)

text \<open>
  What a record keeps of an update: everything but the fields no attribute of the record
  carries, with the arrays of length 0 dropped as every copy of an update drops them.
\<close>

definition stored :: "bgp_update \<Rightarrow> bgp_update" where
  "stored u = copy_update (u\<lparr>flags := 0, mp_nlri_nh_len := 0, subnetwork_points_of_attachment := 0,
     atomic_aggregate := (if atomic_aggregate u \<noteq> 0 then 1 else 0)\<rparr>)"

definition read_update :: "bgp_update \<Rightarrow> bgp_update" where
  "read_update u = new_update\<lparr>
     addr_family := addr_family u, addr_family_id := addr_family_id u,
     aggregator := aggregator u, as4_aggregator := as4_aggregator u,
     as4_path := map_option read_segment (as4_path u),
     as_path := map_option read_segment (as_path u),
     atomic_aggregate := (if atomic_aggregate u \<noteq> 0 then 1 else 0),
     com_seg_length := com_seg_length u, community := community u,
     ipv4_next_hop := ipv4_next_hop u, local_pref := local_pref u, med := med u,
     nlri := nlri u, origin := origin u\<rparr>"

lemma copy_read_update:
  assumes "update_wf u"
  shows "copy_update (read_update u) = stored u"
proof -
  have seg: "map_option copy_segment (map_option read_segment p) = map_option copy_segment p"
    if "pred_option seg_wf p" for p
    using that by (cases p) simp_all
  from assms have "pred_option seg_wf (as_path u)" "pred_option seg_wf (as4_path u)"
    by (simp_all add: update_wf_def)
  from this [THEN seg] show ?thesis
    by (cases "community u") (simp_all add: read_update_def stored_def copy_update_def assign_def new_update_def)
qed

lemma reads_record:
  assumes wf: "update_wf u" and p4: "put_path Db_as4_path (as4_path u) = Inr p4"
    and p2: "put_path Db_as_path (as_path u) = Inr p2" and cs: "put_community u = Inr cs"
  shows "\<exists>f. reads (put_family u @ put_aggregator Db_aggregator (aggregator u)
            @ put_aggregator Db_as4_aggregator (as4_aggregator u) @ p4 @ p2 @ put_atomic u @ cs
            @ put_metrics u @ put_nlri (nlri u) @ put Db_origin (le_bytes 1 (origin u))) f
          \<and> f new_update = read_update u"
proof -
  have "pred_option seg_wf (as4_path u)" "pred_option seg_wf (as_path u)"
    using wf by (simp_all add: update_wf_def)
  note paths = reads_as4_path [OF this(1) p4] reads_path [OF this(2) p2]
  have or: "reads (put Db_origin (le_bytes 1 (origin u))) (\<lambda>v. v\<lparr>origin := origin u\<rparr>)"
    by (rule reads_put; simp add: get_defs)
  have no_comm: "community u = None \<Longrightarrow> com_seg_length u = 0"
    using wf by (simp add: update_wf_def)
  show ?thesis
    by (rule exI, rule conjI,
        rule reads_append [OF reads_family reads_append [OF reads_aggregator reads_append [OF
          reads_as4_aggregator reads_append [OF paths(1) reads_append [OF paths(2) reads_append [OF
          reads_atomic reads_append [OF reads_community [OF wf cs] reads_append [OF reads_metrics
          reads_append [OF reads_nlri or]]]]]]]]])
      (use no_comm in \<open>simp add: read_update_def new_update_def split: option.splits\<close>)
qed

text \<open>The reader ends on a record that was written, and has then read the whole of it.\<close>

lemma db_read_record_written:
  assumes wf: "update_wf u" and bs: "db_record u = Inr bs"
    and s: "fs_good s" "rem s = bs @ rest"
  shows "db_read_record 0 new_update s = Some (read_update u, adv (length bs) s)"
proof -
  from bs obtain p4 p2 cs where parts: "put_path Db_as4_path (as4_path u) = Inr p4"
    "put_path Db_as_path (as_path u) = Inr p2" "put_community u = Inr cs"
    by (auto simp: db_record_def rbind_eq_Inr)
  from reads_record [OF wf parts] obtain f body where
    f: "reads body f" "f new_update = read_update u" and b: "bs = body @ put Db_end_of_record []"
    using bs parts by (auto simp: db_record_def put_end_def)
  have "db_read_record 0 new_update s = db_read_record 0 (read_update u) (adv (length body) s)"
    using f s b by (auto simp: reads_def put_def)
  also have "\<dots> = Some (read_update u, adv (length bs) s)"
  proof -
    let ?s = "adv (length body) s"
    have r: "fs_good ?s" "rem ?s = le_bytes 4 (dbase_code Db_end_of_record) @ rest"
      using s b by (simp_all add: put_def)
    then have "read_word 4 0 ?s = (dbase_code Db_end_of_record, adv 4 ?s)"
      by (simp only: read_word_good length_append length_le_bytes le_add1 take_append)
        (simp del: dbase_code.simps)
    then have "db_read_record 0 (read_update u) ?s
        = db_read_record (dbase_code Db_end_of_record) (read_update u) (adv 4 ?s)"
      by (subst db_read_record.simps) (simp add: db_get_attrib_def del: dbase_code.simps)
    then show ?thesis
      by (subst (asm) (2) db_read_record.simps) (simp add: b put_def)
  qed
  finally show ?thesis .
qed

lemma db_record_defined: "update_wf u \<Longrightarrow> \<exists>bs. db_record u = Inr bs"
  by (auto simp: db_record_def put_path_wf put_community_wf update_wf_def)

section \<open>The history of a key\<close>

text \<open>The bytes of a record of a well-formed update, and the file of a sequence of them.\<close>

definition rec_bytes :: "bgp_update \<Rightarrow> bytes" where
  "rec_bytes u = (case db_record u of Inr bs \<Rightarrow> bs | Inl e \<Rightarrow> [])"

definition db_file :: "bgp_update list \<Rightarrow> bytes" where
  "db_file us = concat (map rec_bytes us)"

lemma db_record_rec_bytes: "update_wf u \<Longrightarrow> db_record u = Inr (rec_bytes u)"
  using db_record_defined [of u] by (auto simp: rec_bytes_def)

lemma db_file_append [simp]: "db_file (us @ vs) = db_file us @ db_file vs"
  by (simp add: db_file_def)

lemma db_file_simps [simp]: "db_file [] = []" "db_file (u # us) = rec_bytes u @ db_file us"
  by (simp_all add: db_file_def)

text \<open>The updates of a key with their positions in the file, which starts at \<open>n\<close>.\<close>

fun entries :: "prefix_entry \<Rightarrow> nat \<Rightarrow> bgp_update list \<Rightarrow> (nat \<times> bgp_update) list" where
  "entries k n [] = []"
| "entries k n (u # us) =
     (if rib_key u = k then [(n, u)] else []) @ entries k (n + length (rec_bytes u)) us"

definition lastn :: "nat \<Rightarrow> 'a list \<Rightarrow> 'a list" where
  "lastn m xs = drop (length xs - m) xs"

lemma entries_snd: "map snd (entries k n us) = filter (\<lambda>u. rib_key u = k) us"
  by (induction us arbitrary: n) auto

lemma entries_append:
  "entries k n (us @ vs) = entries k n us @ entries k (n + length (db_file us)) vs"
  by (induction us arbitrary: n) (auto simp: add.assoc)

lemma entries_in_file:
  "(p, u) \<in> set (entries k n us) \<Longrightarrow> n \<le> p \<and> u \<in> set us \<and> (\<exists>rest. drop (p - n) (db_file us) = rec_bytes u @ rest)"
proof (induction us arbitrary: n)
  case (Cons v us)
  show ?case
  proof (cases "(p, u) \<in> set (entries k (n + length (rec_bytes v)) us)")
    case True
    from Cons.IH [OF this] show ?thesis by auto
  next
    case False
    with Cons.prems show ?thesis by (auto split: if_splits)
  qed
qed simp

lemma lastn_map: "lastn m (map f xs) = map f (lastn m xs)"
  by (simp add: lastn_def drop_map)

lemma set_lastn: "set (lastn m xs) \<subseteq> set xs"
  by (simp add: lastn_def set_drop_subset)

lemma push_index_lastn: "push_index m p (lastn (unat m) xs) = lastn (unat m) (xs @ [p])"
proof (cases "unat m \<le> length xs")
  case True
  then have "length (lastn (unat m) xs) = unat m" by (simp add: lastn_def)
  moreover have "tl (drop n xs @ [p]) = drop (Suc n) (xs @ [p])" if "n \<le> length xs" for n
  proof -
    have "drop n xs @ [p] = drop n (xs @ [p])" using that by simp
    then show ?thesis by (simp only: drop_Suc tl_drop)
  qed
  ultimately show ?thesis
    using True by (simp add: push_index_def lastn_def Suc_diff_le)
next
  case False
  then show ?thesis by (auto simp: push_index_def lastn_def Suc_diff_le)
qed

text \<open>The positions the index has for a key; none for an absent key.\<close>

definition db_index :: "bgp_database \<Rightarrow> prefix_entry \<Rightarrow> indexes" where
  "db_index db k = (case map_find key_less k (index_map db) of Some v \<Rightarrow> v | None \<Rightarrow> [])"

text \<open>The database holds the history \<open>us\<close>.\<close>

definition db_holds :: "bgp_update list \<Rightarrow> bgp_database \<Rightarrow> bool" where
  "db_holds us db \<longleftrightarrow>
     fs_open (dbase db) \<and> fs_good (dbase db) \<and> fs_data (dbase db) = db_file us
     \<and> fs_pos (dbase db) = length (db_file us) \<and> map_sorted key_less (index_map db)
     \<and> (\<forall>k. db_index db k = lastn (unat (max_records db)) (map (of_nat \<circ> fst) (entries k 0 us)))"

lemma db_holds_index:
  "db_holds us db \<Longrightarrow> db_index db k = lastn (unat (max_records db)) (map (of_nat \<circ> fst) (entries k 0 us))"
  unfolding db_holds_def by blast

lemma db_insert_holds:
  assumes "db_holds us db" and "update_wf u"
  obtains db' where "db_insert u db = Inr db'" and "db_holds (us @ [u]) db'"
    and "max_records db' = max_records db"
proof -
  let ?k = "rib_key u" and ?m = "index_map db"
  define v where "v = fst (map_index key_less [] ?k ?m)"
  define p where "p = (of_nat (length (db_file us)) :: 32 word)"
  define m' where "m' = map_assign key_less ?k (push_index (max_records db) p v)
                          (snd (map_index key_less [] ?k ?m))"
  have sorted: "map_sorted key_less ?m" using assms(1) by (simp add: db_holds_def)
  have v: "v = lastn (unat (max_records db)) (map (of_nat \<circ> fst) (entries ?k 0 us))"
    using idx.map_index_simps(1) [OF sorted] db_holds_index [OF assms(1)] by (simp add: v_def db_index_def)
  have find: "map_find key_less k m' =
      (if k = ?k then Some (push_index (max_records db) p v) else map_find key_less k ?m)" for k
    by (simp add: m'_def idx.find_assign idx.map_index_simps [OF sorted])
  have sorted': "map_sorted key_less m'"
    by (simp add: m'_def idx.sorted_assign idx.map_index_simps [OF sorted])
  have "db_insert u db = Inr (db\<lparr>index_map := m', dbase := fs_write (rec_bytes u) (dbase db)\<rparr>)"
    using assms by (simp add: db_insert_def db_record_rec_bytes m'_def v_def p_def tellp_def
        db_holds_def case_prod_beta)
  moreover have "db_holds (us @ [u]) (db\<lparr>index_map := m', dbase := fs_write (rec_bytes u) (dbase db)\<rparr>)"
    using assms(1) sorted' push_index_lastn [of "max_records db" p]
    by (auto simp: db_holds_def db_index_def find v fs_write_def entries_append p_def)
  ultimately show thesis by (rule that) simp
qed

text \<open>A sequence of inserts.\<close>

fun db_insert_all :: "bgp_update list \<Rightarrow> bgp_database \<Rightarrow> bgp_database result" where
  "db_insert_all [] db = Inr db"
| "db_insert_all (u # us) db = rbind (db_insert u db) (db_insert_all us)"

lemma db_insert_all_holds:
  assumes "db_holds hs db" and "\<forall>u \<in> set us. update_wf u"
  shows "\<exists>db'. db_insert_all us db = Inr db' \<and> db_holds (hs @ us) db' \<and> max_records db' = max_records db"
  using assms
proof (induction us arbitrary: hs db)
  case (Cons u us)
  then obtain db1 where "db_insert u db = Inr db1" "db_holds (hs @ [u]) db1" "max_records db1 = max_records db"
    using db_insert_holds [of hs db u] by auto
  with Cons.IH [of "hs @ [u]" db1] Cons.prems show ?case by auto
qed simp

lemma db_holds_open: "name \<noteq> [] \<Longrightarrow> db_holds [] (snd (db_open True name new_database))"
  by (simp add: db_holds_def db_index_def db_open_def new_database_def lastn_def)

lemma seekg_of_nat: "fs_good s \<Longrightarrow> p < 2 ^ 31 \<Longrightarrow> seekg (of_nat p) s = s\<lparr>fs_pos := p\<rparr>"
proof -
  assume s: "fs_good s" and p: "p < 2 ^ 31"
  have "sint (of_nat p :: 32 word) = int p"
    using p by (simp add: signed_of_nat signed_take_bit_int_eq_self)
  moreover have "unat (of_nat p :: 32 word) = p"
    using p by (simp add: unat_of_nat take_bit_nat_eq_self)
  ultimately show ?thesis using s by (simp add: seekg_def)
qed

lemma db_read_all_entries:
  assumes "fs_data s = db_file us" and "length (db_file us) < 2 ^ 31" and "\<forall>u \<in> set us. update_wf u"
    and "set es \<subseteq> set (entries k 0 us)"
  shows "\<exists>s'. db_read_all (map (of_nat \<circ> fst) es) s = Some (map (stored \<circ> snd) es, s')
           \<and> fs_data s' = db_file us \<and> fs_open s' = fs_open s
           \<and> (es = [] \<longrightarrow> s' = s)
           \<and> (es \<noteq> [] \<longrightarrow> fs_good s' \<and> fs_pos s' = fst (last es) + length (rec_bytes (snd (last es))))"
  using assms
proof (induction es arbitrary: s)
  case (Cons e es)
  obtain p u where e: "e = (p, u)" by fastforce
  with Cons.prems(4) have "(p, u) \<in> set (entries k 0 us)" by simp
  from entries_in_file [OF this] obtain rest where
    u: "u \<in> set us" and at: "drop p (db_file us) = rec_bytes u @ rest" by auto
  have wf: "update_wf u" using u Cons.prems(3) by simp
  have p: "p < 2 ^ 31"
  proof (rule ccontr)
    assume "\<not> p < 2 ^ 31"
    with Cons.prems(2) at have "rec_bytes u = []" by simp
    then show False using db_record_rec_bytes [OF wf]
      by (auto simp: db_record_def rbind_eq_Inr put_family_def put_def)
  qed
  let ?s = "clear s\<lparr>fs_pos := p\<rparr>"
  have "seekg (of_nat p) (clear s) = ?s" using p by (simp add: seekg_of_nat clear_def)
  moreover have "db_read_record 0 new_update ?s = Some (read_update u, adv (length (rec_bytes u)) ?s)"
    using at Cons.prems(1)
    by (intro db_read_record_written [OF wf db_record_rec_bytes [OF wf]]) (simp_all add: clear_def rem_def)
  moreover obtain s' where
    "db_read_all (map (of_nat \<circ> fst) es) (adv (length (rec_bytes u)) ?s) = Some (map (stored \<circ> snd) es, s')"
    "fs_data s' = db_file us" "fs_open s' = fs_open s" "es = [] \<longrightarrow> s' = adv (length (rec_bytes u)) ?s"
    "es \<noteq> [] \<longrightarrow> fs_good s' \<and> fs_pos s' = fst (last es) + length (rec_bytes (snd (last es)))"
  proof -
    have "fs_data (adv (length (rec_bytes u)) ?s) = db_file us"
      "fs_open (adv (length (rec_bytes u)) ?s) = fs_open s" "set es \<subseteq> set (entries k 0 us)"
      using Cons.prems by (simp_all add: clear_def)
    from Cons.IH [OF this(1) Cons.prems(2,3) this(3), unfolded this(2)] that show thesis by blast
  qed
  ultimately show ?case
    using e copy_read_update [OF wf]
    by (intro exI [of _ s']) (auto simp: clear_def comp_def)
qed simp

text \<open>A query of a database that holds a history, with the stream it leaves behind.\<close>

lemma db_get_entries_holds:
  fixes e
  assumes "db_holds us db" and "length (db_file us) < 2 ^ 31" and "\<forall>u \<in> set us. update_wf u"
  defines "es \<equiv> rev (lastn (unat (max_records db)) (entries (rib_key e) 0 us))"
  obtains db' where "db_get_entries e db = Some (map (stored \<circ> snd) es, db')"
    and "fs_data (dbase db') = db_file us" and "fs_open (dbase db')" and "fs_good (dbase db')"
    and "es \<noteq> [] \<Longrightarrow> fs_pos (dbase db') = fst (last es) + length (rec_bytes (snd (last es)))"
    and "map_sorted key_less (index_map db')" and "max_records db' = max_records db"
    and "db_index db' = db_index db"
proof -
  let ?k = "rib_key e" and ?m = "index_map db"
  have sorted: "map_sorted key_less ?m" using assms(1) by (simp add: db_holds_def)
  have "fst (map_index key_less [] ?k ?m) = lastn (unat (max_records db)) (map (of_nat \<circ> fst) (entries ?k 0 us))"
    using db_holds_index [OF assms(1)] idx.map_index_simps(1) [OF sorted] by (simp add: db_index_def)
  then have v: "rev (fst (map_index key_less [] ?k ?m)) = map (of_nat \<circ> fst) es"
    by (simp add: es_def lastn_map rev_map)
  have "set es \<subseteq> set (entries ?k 0 us)" by (simp add: es_def set_lastn)
  from db_read_all_entries [OF _ assms(2,3) this, of "dbase db"] assms(1) obtain s' where
    s': "db_read_all (map (of_nat \<circ> fst) es) (dbase db) = Some (map (stored \<circ> snd) es, s')"
      "fs_data s' = db_file us" "fs_open s'" "fs_good s'"
      "es \<noteq> [] \<Longrightarrow> fs_pos s' = fst (last es) + length (rec_bytes (snd (last es)))"
    by (cases "es = []") (auto simp: db_holds_def)
  let ?db = "db\<lparr>index_map := snd (map_index key_less [] ?k ?m), dbase := s'\<rparr>"
  have "db_get_entries e db = Some (map (stored \<circ> snd) es, ?db)"
    by (simp add: db_get_entries_def v s' case_prod_beta)
  then show thesis
    by (rule that) (use s' in \<open>auto simp: db_index_def fun_eq_iff idx.map_index_simps [OF sorted] split: option.splits\<close>)
qed

lemma history_entries:
  "map (stored \<circ> snd) (rev (lastn m (entries k 0 us))) =
     map stored (rev (lastn m (filter (\<lambda>u. rib_key u = k) us)))"
  by (simp add: entries_snd [of k 0 us, symmetric] lastn_map rev_map)

text \<open>
  C9: the history of a route. After any sequence of inserts of well-formed updates into a
  freshly opened database, none of which fails, a query ends and returns exactly the last
  thousand of the updates stored under the queried [prefix, bgp id], the newest first, each
  as it was stored -- as long as the file is smaller than 2 GiB, since the index keeps
  positions as \<^verbatim>\<open>int\<close>.
\<close>

theorem db_history:
  assumes "name \<noteq> []" and "\<forall>u \<in> set us. update_wf u"
  shows "\<exists>db. db_insert_all us (snd (db_open True name new_database)) = Inr db
     \<and> (length (fs_data (dbase db)) < 2 ^ 31 \<longrightarrow>
         (\<exists>db'. db_get_entries e db =
            Some (map stored (rev (lastn 1000 (filter (\<lambda>u. rib_key u = rib_key e) us))), db')))"
proof -
  have max: "max_records (snd (db_open True name new_database)) = 1000"
    by (simp add: db_open_def new_database_def)
  from db_insert_all_holds [OF db_holds_open [OF assms(1)] assms(2)] obtain db where
    db: "db_insert_all us (snd (db_open True name new_database)) = Inr db" "db_holds us db"
    "max_records db = 1000" using max by auto
  have "\<exists>db'. db_get_entries e db =
      Some (map stored (rev (lastn 1000 (filter (\<lambda>u. rib_key u = rib_key e) us))), db')"
    if "length (fs_data (dbase db)) < 2 ^ 31"
  proof -
    have "length (db_file us) < 2 ^ 31" using that db(2) by (simp add: db_holds_def)
    then obtain db' where "db_get_entries e db = Some (map (stored \<circ> snd)
        (rev (lastn (unat (max_records db)) (entries (rib_key e) 0 us))), db')"
      using db_get_entries_holds [OF db(2) _ assms(2), of e] by blast
    then show ?thesis unfolding history_entries db(3) by simp
  qed
  with db(1) show ?thesis by blast
qed

text \<open>An update with a given prefix, for the witnesses.\<close>

definition sample_update :: "u32 \<Rightarrow> u32 \<Rightarrow> bgp_update" where
  "sample_update p m = new_update\<lparr>med := m, nlri := new_nlri\<lparr>prefix := p, prefix_length := 8\<rparr>\<rparr>"

lemma sample_update_wf [simp]: "update_wf (sample_update p m)"
  by (simp add: update_wf_def sample_update_def new_update_def)

lemma sample_update_key [simp]: "rib_key (sample_update p m) = (p, 0)"
  by (simp add: rib_key_def sample_update_def new_nlri_def)

lemma length_rec_sample: "length (rec_bytes (sample_update p m)) = 85"
  by (simp add: rec_bytes_def db_record_def put_path_def put_community_def sample_update_def
      new_update_def put_family_def put_aggregator_def put_atomic_def put_metrics_def put_nlri_def
      put_end_def put_def)

lemma stored_sample: "stored (sample_update p m) = sample_update p m"
  by (simp add: stored_def copy_update_def assign_def sample_update_def new_update_def)

theorem db_history_witness:
  "\<exists>db db'. db_insert_all [sample_update 10 1, sample_update 11 2, sample_update 10 3]
         (snd (db_open True ''db'' new_database)) = Inr db
     \<and> db_get_entries (sample_update 10 0) db = Some ([sample_update 10 3, sample_update 10 1], db')"
proof -
  let ?us = "[sample_update 10 1, sample_update 11 2, sample_update 10 3]"
  have "(''db'' :: string) \<noteq> []" by simp
  from db_insert_all_holds [OF db_holds_open [OF this], of ?us] obtain db where
    db: "db_insert_all ?us (snd (db_open True ''db'' new_database)) = Inr db" "db_holds ?us db"
    by auto
  then have "length (fs_data (dbase db)) < 2 ^ 31" by (simp add: db_holds_def length_rec_sample)
  with db(1) db_history [of "''db''" ?us "sample_update 10 0"] show ?thesis
    by (auto simp: lastn_def stored_sample)
qed

section \<open>The shared position\<close>

lemma db_read_all_one:
  assumes "update_wf u" and "p < 2 ^ 31" and "drop p (fs_data s) = rec_bytes u @ rest"
  shows "\<exists>s'. db_read_all [of_nat p] s = Some ([stored u], s')"
proof -
  let ?s = "clear s\<lparr>fs_pos := p\<rparr>"
  have "db_read_record 0 new_update ?s = Some (read_update u, adv (length (rec_bytes u)) ?s)"
    using assms(3)
    by (intro db_read_record_written [OF assms(1) db_record_rec_bytes [OF assms(1)]])
      (simp_all add: clear_def rem_def)
  then show ?thesis
    using assms(2) copy_read_update [OF assms(1)] by (simp add: seekg_of_nat clear_def)
qed

lemma db_get_entries_one:
  assumes "map_sorted key_less (index_map db)"
    and "db_index db (rib_key e) = [of_nat p]"
    and "update_wf u" and "p < 2 ^ 31" and "drop p (fs_data (dbase db)) = rec_bytes u @ rest"
  shows "\<exists>db'. db_get_entries e db = Some ([stored u], db')"
proof -
  have "fst (map_index key_less [] (rib_key e) (index_map db)) = [of_nat p]"
    using idx.map_index_simps(1) [OF assms(1)] assms(2) by (simp add: db_index_def)
  with db_read_all_one [OF assms(3,4,5)] show ?thesis
    by (auto simp: db_get_entries_def case_prod_beta simp del: db_read_all.simps)
qed

text \<open>
  C33: an insert that follows a query destroys records. Reads and writes of the stream share
  one position, and a query leaves it behind the record it read last; the next insert writes
  there, not at the end of the file as the comment in \<^verbatim>\<open>db_insert\<close> says. With two routes
  stored and the first one queried, a third route is written over the second: the history of
  the second prefix is from then on the record of the third one.
\<close>

theorem db_query_then_insert:
  assumes "name \<noteq> []" and "update_wf u1" and "update_wf u2" and "update_wf u3"
    and "distinct [rib_key u1, rib_key u2, rib_key u3]"
    and "length (rec_bytes u1) + length (rec_bytes u2) < 2 ^ 31"
  shows "\<exists>db db1 db2 db3.
       db_insert_all [u1, u2] (snd (db_open True name new_database)) = Inr db
     \<and> db_get_entries u1 db = Some ([stored u1], db1)
     \<and> db_insert u3 db1 = Inr db2
     \<and> db_get_entries u2 db2 = Some ([stored u3], db3)"
proof -
  let ?us = "[u1, u2]" and ?n = "length (rec_bytes u1)"
  have wf: "\<forall>u \<in> set ?us. update_wf u" using assms by simp
  have max: "max_records (snd (db_open True name new_database)) = 1000"
    by (simp add: db_open_def new_database_def)
  from db_insert_all_holds [OF db_holds_open [OF assms(1)] wf] obtain db where
    db: "db_insert_all ?us (snd (db_open True name new_database)) = Inr db" "db_holds ?us db"
    "max_records db = 1000" using max by auto
  have ents: "entries (rib_key u1) 0 ?us = [(0, u1)]" "entries (rib_key u2) 0 ?us = [(?n, u2)]"
    using assms(5) by auto
  have len: "length (db_file ?us) < 2 ^ 31" using assms(6) by simp
  obtain db1 where get: "db_get_entries u1 db = Some ([stored u1], db1)"
    and db1: "fs_data (dbase db1) = db_file ?us" "fs_open (dbase db1)" "fs_good (dbase db1)"
      "fs_pos (dbase db1) = ?n" "map_sorted key_less (index_map db1)"
    and idx2: "db_index db1 (rib_key u2) = [of_nat ?n]"
  proof -
    have es: "rev (lastn (unat (max_records db)) (entries (rib_key u1) 0 ?us)) = [(0, u1)]"
      unfolding ents db(3) by (simp add: lastn_def)
    have i2: "db_index db (rib_key u2) = [of_nat ?n]"
      unfolding db_holds_index [OF db(2)] ents db(3) by (simp add: lastn_def)
    show thesis
      by (rule db_get_entries_holds [OF db(2) len wf, of u1, unfolded es])
        (rule that, simp_all, use i2 in metis)
  qed
  define m2 where "m2 = map_assign key_less (rib_key u3)
      (push_index (max_records db1) (tellp (dbase db1)) (fst (map_index key_less [] (rib_key u3) (index_map db1))))
      (snd (map_index key_less [] (rib_key u3) (index_map db1)))"
  define db2 where "db2 = db1\<lparr>index_map := m2, dbase := fs_write (rec_bytes u3) (dbase db1)\<rparr>"
  have ins: "db_insert u3 db1 = Inr db2"
    using db1 assms(4)
    by (simp add: db_insert_def db_record_rec_bytes db2_def m2_def case_prod_beta)
  have sorted2: "map_sorted key_less (index_map db2)"
    by (simp add: db2_def m2_def idx.sorted_assign idx.map_index_simps [OF db1(5)])
  have find2: "db_index db2 (rib_key u2) = [of_nat ?n]"
    using idx2 assms(5)
    by (simp add: db_index_def db2_def m2_def idx.find_assign idx.map_index_simps [OF db1(5)])
  have "drop ?n (fs_data (dbase db2)) =
      rec_bytes u3 @ drop (length (rec_bytes u3)) (rec_bytes u2)"
    using db1 by (simp add: db2_def fs_write_def)
  from db_get_entries_one [OF sorted2 find2 assms(4) _ this] assms(6) obtain db3 where
    "db_get_entries u2 db2 = Some ([stored u3], db3)" by auto
  with db(1) get ins show ?thesis by blast
qed

theorem db_query_then_insert_witness:
  "\<exists>db db1 db2 db3.
       db_insert_all [sample_update 10 1, sample_update 11 2] (snd (db_open True ''db'' new_database)) = Inr db
     \<and> db_get_entries (sample_update 10 1) db = Some ([sample_update 10 1], db1)
     \<and> db_insert (sample_update 12 3) db1 = Inr db2
     \<and> db_get_entries (sample_update 11 2) db2 = Some ([sample_update 12 3], db3)"
  using db_query_then_insert [of "''db''" "sample_update 10 1" "sample_update 11 2" "sample_update 12 3"]
  by (simp add: length_rec_sample stored_sample)

section \<open>Reading where there is no record\<close>

lemma read_word_not_good: "\<not> fs_good s \<Longrightarrow> snd (read_word n old s) = s"
  by (simp add: read_word_def fs_read_def)

lemma read_words_not_good: "\<not> fs_good s \<Longrightarrow> snd (read_words n s) = s"
  by (induction n) (simp_all add: case_prod_beta read_word_not_good)

lemma read_comms_not_good: "\<not> fs_good s \<Longrightarrow> snd (read_comms n s) = s"
  by (induction n) (simp_all add: case_prod_beta read_word_not_good)

lemmas reads_not_good = read_word_not_good read_words_not_good read_comms_not_good

lemma get_attrib_not_good: "\<not> fs_good s \<Longrightarrow> \<not> fs_good (snd (db_get_attrib c u s))"
  by (auto simp: db_get_attrib_def get_path_def get_aggregator_def get_community_def get_nlri_def
      case_prod_beta reads_not_good split: option.splits dbase_attrib.splits)

text \<open>Once a read has failed the loop never sees an end-of-record marker again.\<close>

lemma db_read_record_not_good:
  assumes "db_read_record code u s = Some r"
  shows "fs_good s \<or> code = dbase_code Db_end_of_record"
proof (rule db_read_record.raw_induct [where P = "\<lambda>code u s r. fs_good s \<or> code = dbase_code Db_end_of_record",
      OF _ assms])
  fix rec code u s r
  assume IH: "\<And>code u s r. rec code u s = Some r \<Longrightarrow> fs_good s \<or> code = dbase_code Db_end_of_record"
    and body: "(if code = dbase_code Db_end_of_record then Some (u, s)
       else let (code', s1) = read_word 4 code s; (u', s2) = db_get_attrib (dbase_of code') u s1
            in rec code' u' s2) = Some r"
  show "fs_good s \<or> code = dbase_code Db_end_of_record"
  proof (rule ccontr)
    assume "\<not> (fs_good s \<or> code = dbase_code Db_end_of_record)"
    then have bad: "\<not> fs_good s" "code \<noteq> dbase_code Db_end_of_record" by auto
    have "code = word_of_le (le_bytes 4 code)" by simp
    with bad have same: "read_word 4 code s = (code, s)" by (simp add: read_word_def fs_read_def)
    let ?r = "db_get_attrib (dbase_of code) u s"
    have "rec code (fst ?r) (snd ?r) = Some r"
      using body bad(2) by (simp add: same case_prod_beta del: dbase_code.simps)
    from IH [OF this] bad get_attrib_not_good [OF bad(1)] show False by blast
  qed
qed



end
