(* ===== verification/Update_Codec.thy ===== *)
theory Update_Codec
  imports Bgp_Update
begin

text \<open>
  What the UPDATE parser computes. The abstract side is a message as a list of path
  attributes and a list of prefixes, with its wire format (RFC 4271, one byte attribute
  lengths, AS paths of one segment) and its meaning as an update; the parser applied to the
  wire format gives the meaning. The other results hold for every packet: what is pushed is
  well formed, carries the id of the peer and the right range, and where the parser leaves
  defined behaviour.
\<close>

section \<open>Abstract messages\<close>

datatype attr_spec =
    S_origin u8
  | S_as_path u8 "u16 list"
  | S_next_hop u32
  | S_med u32
  | S_local_pref u32
  | S_atomic_aggregate
  | S_aggregator u16 u32
  | S_community "(u16 \<times> u16) list"
  | S_as4_path u8 "u32 list"
  | S_as4_aggregator u32 u32
  | S_other u8 bytes

fun attr_code :: "attr_spec \<Rightarrow> u8" where
  "attr_code (S_origin _) = 1"
| "attr_code (S_as_path _ _) = 2"
| "attr_code (S_next_hop _) = 3"
| "attr_code (S_med _) = 4"
| "attr_code (S_local_pref _) = 5"
| "attr_code S_atomic_aggregate = 6"
| "attr_code (S_aggregator _ _) = 7"
| "attr_code (S_community _) = 8"
| "attr_code (S_as4_path _ _) = 0x11"
| "attr_code (S_as4_aggregator _ _) = 0x12"
| "attr_code (S_other c _) = c"

fun attr_body :: "attr_spec \<Rightarrow> bytes" where
  "attr_body (S_origin v) = [v]"
| "attr_body (S_as_path t vs) = t # of_nat (length vs) # concat (map (be_bytes 2) vs)"
| "attr_body (S_next_hop ip) = le_bytes 4 ip"
| "attr_body (S_med v) = be_bytes 4 v"
| "attr_body (S_local_pref v) = be_bytes 4 v"
| "attr_body S_atomic_aggregate = []"
| "attr_body (S_aggregator a ip) = be_bytes 2 a @ le_bytes 4 ip"
| "attr_body (S_community cs) = concat (map (\<lambda>(a, v). be_bytes 2 a @ be_bytes 2 v) cs)"
| "attr_body (S_as4_path t vs) = t # of_nat (length vs) # concat (map (be_bytes 4) vs)"
| "attr_body (S_as4_aggregator a ip) = be_bytes 4 a @ le_bytes 4 ip"
| "attr_body (S_other _ bs) = bs"

text \<open>Codes of attributes the collector skips.\<close>

definition skipped_code :: "u8 \<Rightarrow> bool" where
  "skipped_code c \<longleftrightarrow>
     path_attrib_of c \<in> {None, Some Attr_bgp_id, Some Attr_originator, Some Attr_cluster_list,
       Some Attr_mp_reach_nlri, Some Attr_mp_unreach_nlri}"

definition attr_ok :: "attr_spec \<Rightarrow> bool" where
  "attr_ok a \<longleftrightarrow> length (attr_body a) < 256
     \<and> (case a of S_community cs \<Rightarrow> cs \<noteq> [] | S_other c _ \<Rightarrow> skipped_code c | _ \<Rightarrow> True)"

definition attr_bytes :: "u8 \<times> attr_spec \<Rightarrow> bytes" where
  "attr_bytes fa = [fst fa, attr_code (snd fa), of_nat (length (attr_body (snd fa)))] @ attr_body (snd fa)"

text \<open>What an attribute says about the update that carries it.\<close>

fun apply_attr :: "attr_spec \<Rightarrow> bgp_update \<Rightarrow> bgp_update" where
  "apply_attr (S_origin v) u = u\<lparr>origin := v\<rparr>"
| "apply_attr (S_as_path t vs) u = u\<lparr>as_path := Some
     \<lparr>seg_type = t, seg_length = of_nat (length vs), seg_value = Some (map ucast vs)\<rparr>\<rparr>"
| "apply_attr (S_next_hop ip) u = u\<lparr>ipv4_next_hop := ip\<rparr>"
| "apply_attr (S_med v) u = u\<lparr>med := v\<rparr>"
| "apply_attr (S_local_pref v) u = u\<lparr>local_pref := v\<rparr>"
| "apply_attr S_atomic_aggregate u = u\<lparr>atomic_aggregate := 1\<rparr>"
| "apply_attr (S_aggregator a ip) u =
     u\<lparr>aggregator := Some \<lparr>aggr_as = ucast a, aggr_origin = ip\<rparr>\<rparr>"
| "apply_attr (S_community cs) u = u\<lparr>com_seg_length := of_nat (length cs),
     community := Some (map (\<lambda>(a, v). \<lparr>comm_as = ucast a, comm_value = ucast v\<rparr>) cs)\<rparr>"
| "apply_attr (S_as4_path t vs) u = u\<lparr>as4_path := Some
     \<lparr>seg_type = t, seg_length = of_nat (length vs), seg_value = Some vs\<rparr>\<rparr>"
| "apply_attr (S_as4_aggregator a ip) u =
     u\<lparr>as4_aggregator := Some \<lparr>aggr_as = a, aggr_origin = ip\<rparr>\<rparr>"
| "apply_attr (S_other _ _) u = u"

text \<open>
  A prefix \<open>(len, pfx)\<close>: its wire format carries the first bytes of \<open>pfx\<close>, so the others
  are zero.
\<close>

definition prefix_ok :: "u8 \<times> u32 \<Rightarrow> bool" where
  "prefix_ok lp \<longleftrightarrow> 1 \<le> unat (fst lp) \<and> unat (fst lp) \<le> 32
     \<and> drop (nlri_byte_length (fst lp)) (le_bytes 4 (snd lp))
         = replicate (4 - nlri_byte_length (fst lp)) 0"

definition prefix_bytes :: "u8 \<times> u32 \<Rightarrow> bytes" where
  "prefix_bytes lp = fst lp # take (nlri_byte_length (fst lp)) (le_bytes 4 (snd lp))"

definition nlri_of :: "nlri_parse \<Rightarrow> time_t \<Rightarrow> u32 \<Rightarrow> u8 \<times> u32 \<Rightarrow> bgp_nlri" where
  "nlri_of flag now i lp = nlri_stamp flag now (new_nlri\<lparr>prefix_length := fst lp, prefix := snd lp,
     prefix_highest := htonl (ntohl (snd lp) OR mask (32 - unat (fst lp))), nlri_bgp_id := i\<rparr>)"

definition update_message :: "(u8 \<times> attr_spec) list \<Rightarrow> (u8 \<times> u32) list \<Rightarrow> bytes" where
  "update_message attrs ps =
     (let ab = concat (map attr_bytes attrs)
      in be_bytes 2 (0 :: u16) @ be_bytes 2 (of_nat (length ab) :: u16) @ ab @ concat (map prefix_bytes ps))"

text \<open>A message that withdraws \<open>ws\<close> and announces \<open>ps\<close> with \<open>attrs\<close>.\<close>

definition withdraw_message ::
    "(u8 \<times> u32) list \<Rightarrow> (u8 \<times> attr_spec) list \<Rightarrow> (u8 \<times> u32) list \<Rightarrow> bytes" where
  "withdraw_message ws attrs ps =
     (let wb = concat (map prefix_bytes ws); ab = concat (map attr_bytes attrs)
      in be_bytes 2 (of_nat (length wb) :: u16) @ wb
         @ be_bytes 2 (of_nat (length ab) :: u16) @ ab @ concat (map prefix_bytes ps))"

definition queued :: "bytes \<Rightarrow> queue_data" where
  "queued bs = \<lparr>q_length = of_nat (length bs), q_packet = bs\<rparr>"

definition update_of :: "(u8 \<times> attr_spec) list \<Rightarrow> bgp_update" where
  "update_of attrs = (fold (apply_attr \<circ> snd) attrs new_update)\<lparr>addr_family := AF_INET\<rparr>"

section \<open>Attributes\<close>

lemma parse_as_values_be:
  fixes vs :: "u16 list"
  shows "drop (off + 1) p = concat (map (be_bytes 2) vs) @ xs \<Longrightarrow>
     parse_as_values p off (length vs) = Inr (map ucast vs)"
proof (induction vs arbitrary: off)
  case (Cons v vs)
  then have "rd16 p (off + 1) = Inr v" by (auto intro: rd16_be)
  moreover have "drop (off + 2 + 1) p = concat (map (be_bytes 2) vs) @ xs"
    using drop_append_shift [of "off + 1" p "be_bytes 2 v"] Cons.prems by (simp add: add.commute)
  ultimately show ?case using Cons.IH [of "off + 2"] by simp
qed simp

lemma parse_as4_values_be:
  "drop (off + 1) p = concat (map (be_bytes 4) vs) @ xs \<Longrightarrow>
     parse_as4_values p off (length vs) = Inr vs"
proof (induction vs arbitrary: off)
  case (Cons v vs)
  then have "rd32 p (off + 1) = Inr v" by (auto intro: rd32_be)
  moreover have "drop (off + 4 + 1) p = concat (map (be_bytes 4) vs) @ xs"
    using drop_append_shift [of "off + 1" p "be_bytes 4 v"] Cons.prems by (simp add: add.commute)
  ultimately show ?case using Cons.IH [of "off + 4"] by simp
qed simp

lemma parse_comm_values_be:
  fixes cs :: "(u16 \<times> u16) list"
  shows "drop (off + 1) p = concat (map (\<lambda>(a, v). be_bytes 2 a @ be_bytes 2 v) cs) @ xs \<Longrightarrow>
     parse_comm_values p off (length cs)
       = Inr (map (\<lambda>(a, v). \<lparr>comm_as = ucast a, comm_value = ucast v\<rparr>) cs)"
proof (induction cs arbitrary: off)
  case (Cons c cs)
  obtain a v where c: "c = (a, v)" by fastforce
  let ?rest = "concat (map (\<lambda>(a, v). be_bytes 2 a @ be_bytes 2 v) cs) @ xs"
  have d1: "drop (off + 1) p = be_bytes 2 a @ be_bytes 2 v @ ?rest" using Cons.prems c by simp
  then have d2: "drop (off + 3) p = be_bytes 2 v @ ?rest"
    using drop_append_shift [OF d1] by (simp add: numeral_3_eq_3)
  have "rd16 p (off + 1) = Inr a" using d1 by (rule rd16_be)
  moreover have "rd16 p (off + 3) = Inr v" using d2 by (rule rd16_be)
  moreover have "drop (off + 4 + 1) p = ?rest" using drop_append_shift [OF d2] by simp
  ultimately show ?case using Cons.IH [of "off + 4"] c by simp
qed simp

lemma length_be_concat [simp]: "length (concat (map (be_bytes n) vs)) = n * length vs"
  by (induction vs) simp_all

lemma length_comm_concat [simp]:
  "length (concat (map (\<lambda>(a, v). be_bytes 2 (a :: u16) @ be_bytes 2 (v :: u16)) cs)) = 4 * length cs"
  by (induction cs) auto

lemma unat_of_nat_u8: "n < 256 \<Longrightarrow> unat (of_nat n :: u8) = n"
  by (simp add: unsigned_of_nat take_bit_nat_eq_self)

lemma unat_of_nat_u16: "n < 65536 \<Longrightarrow> unat (of_nat n :: u16) = n"
  by (simp add: unsigned_of_nat take_bit_nat_eq_self)

lemma of_nat_u8_eq_0: "n < 256 \<Longrightarrow> (of_nat n :: u8) = 0 \<longleftrightarrow> n = 0"
  by (simp add: word_unat_eq_iff unat_of_nat_u8)

lemma of_nat_u8_div_4: "n < 64 \<Longrightarrow> (of_nat (4 * n) :: u8) div 4 = of_nat n"
  by (simp only: word_unat_eq_iff unat_div unat_of_nat_u8) simp

lemma path_attrib_of_codes [simp]:
  "path_attrib_of 1 = Some Attr_origin" "path_attrib_of 2 = Some Attr_as_path"
  "path_attrib_of 3 = Some Attr_next_hop" "path_attrib_of 4 = Some Attr_multi_exit_disc"
  "path_attrib_of 5 = Some Attr_local_pref" "path_attrib_of 6 = Some Attr_atomic_aggregate"
  "path_attrib_of 7 = Some Attr_aggregator" "path_attrib_of 8 = Some Attr_community"
  "path_attrib_of 0x11 = Some Attr_as4_path" "path_attrib_of 0x12 = Some Attr_as4_aggregator"
  by (simp_all add: path_attrib_of_def path_attribs_def)

lemma rd_block_le_bytes: "drop i p = le_bytes 4 ip @ xs \<Longrightarrow> rd_block p i 4 = Inr (le_bytes 4 ip)"
  using rd_block_drop [of i p "le_bytes 4 ip" xs] by simp

lemma parse_aggr_origin_le:
  "drop i p = le_bytes 4 ip @ xs \<Longrightarrow> parse_aggr_origin p i (k + 4) k = Inr ip"
  by (simp add: parse_aggr_origin_def rd_block_le_bytes)

lemma parse_as_path_spec:
  assumes "length vs < 256" and "drop (i + 1) p = t # of_nat (length vs) # concat (map (be_bytes 2) vs) @ xs"
  shows "parse_as_path p i u = Inr (apply_attr (S_as_path t vs) u)"
proof -
  have "rd p (i + 1) = Inr t" "rd p (i + 2) = Inr (of_nat (length vs))"
    using rd_drop_0 [OF assms(2)] rd_drop [OF assms(2), of 1] by auto
  moreover have "drop (i + 2 + 1) p = concat (map (be_bytes 2) vs) @ xs"
    using drop_append_shift [of "i + 1" p "[t, of_nat (length vs)]"] assms(2) by simp
  ultimately show ?thesis
    by (simp add: parse_as_path_def parse_as_values_be unat_of_nat_u8 assms(1))
qed

lemma parse_as4_path_spec:
  assumes "length vs < 256" and "drop (i + 1) p = t # of_nat (length vs) # concat (map (be_bytes 4) vs) @ xs"
  shows "parse_as4_path p i u = Inr (apply_attr (S_as4_path t vs) u)"
proof -
  have "rd p (i + 1) = Inr t" "rd p (i + 2) = Inr (of_nat (length vs))"
    using rd_drop_0 [OF assms(2)] rd_drop [OF assms(2), of 1] by auto
  moreover have "drop (i + 2 + 1) p = concat (map (be_bytes 4) vs) @ xs"
    using drop_append_shift [of "i + 1" p "[t, of_nat (length vs)]"] assms(2) by simp
  ultimately show ?thesis
    by (simp add: parse_as4_path_def parse_as4_values_be unat_of_nat_u8 assms(1))
qed

lemma parse_attrib_value_spec:
  assumes ok: "attr_ok a" and d: "drop (i + 1) p = attr_body a @ xs"
  shows "parse_attrib_value p i (path_attrib_of (attr_code a)) (of_nat (length (attr_body a))) u
           = Inr (length (attr_body a), apply_attr a u)"
proof (cases a)
  case (S_origin v)
  then show ?thesis using d by (simp add: parse_attrib_value_def rd_drop_0)
next
  case (S_as_path t vs)
  then have "length vs < 256" "2 + 2 * length vs < 256" using ok by (auto simp: attr_ok_def)
  with S_as_path d show ?thesis
    using parse_as_path_spec [of vs i p t xs u]
    by (simp add: parse_attrib_value_def of_nat_u8_eq_0 unat_of_nat_u8 del: of_nat_Suc of_nat_mult)
next
  case (S_next_hop ip)
  then show ?thesis using d rd_block_le_bytes [of "i + 1" p ip xs]
    by (simp add: parse_attrib_value_def)
next
  case (S_med v)
  then show ?thesis using d by (simp add: parse_attrib_value_def rd32_be)
next
  case (S_local_pref v)
  then show ?thesis using d by (simp add: parse_attrib_value_def rd32_be)
next
  case S_atomic_aggregate
  then show ?thesis by (simp add: parse_attrib_value_def)
next
  case (S_aggregator v ip)
  then have "drop (i + 3) p = le_bytes 4 ip @ xs"
    using drop_append_shift [of "i + 1" p "be_bytes 2 v" "le_bytes 4 ip @ xs"] d
    by (simp add: numeral_3_eq_3)
  with S_aggregator d show ?thesis
    using parse_aggr_origin_le [of "i + 3" p ip xs 2] by (simp add: parse_attrib_value_def rd16_be)
next
  case (S_community cs)
  then have *: "length cs < 64" "cs \<noteq> []" using ok by (auto simp: attr_ok_def)
  then have "4 * length cs < 256" by simp
  with * S_community d show ?thesis
    by (simp add: parse_attrib_value_def parse_community_def parse_comm_values_be
        of_nat_u8_eq_0 unat_of_nat_u8 of_nat_u8_div_4 del: of_nat_mult)
next
  case (S_as4_path t vs)
  then have "length vs < 256" "2 + 4 * length vs < 256" using ok by (auto simp: attr_ok_def)
  with S_as4_path d show ?thesis
    using parse_as4_path_spec [of vs i p t xs u]
    by (simp add: parse_attrib_value_def of_nat_u8_eq_0 unat_of_nat_u8 del: of_nat_Suc of_nat_mult)
next
  case (S_as4_aggregator v ip)
  then have "drop (i + 5) p = le_bytes 4 ip @ xs"
    using drop_append_shift [of "i + 1" p "be_bytes 4 v" "le_bytes 4 ip @ xs"] d
    by (simp add: add.commute)
  with S_as4_aggregator d show ?thesis
    using parse_aggr_origin_le [of "i + 5" p ip xs 4] by (simp add: parse_attrib_value_def rd32_be)
next
  case (S_other c bs)
  then have "length bs < 256" "skipped_code c" using ok by (auto simp: attr_ok_def)
  with S_other show ?thesis
    by (auto simp: parse_attrib_value_def skipped_code_def of_nat_u8_eq_0 unat_of_nat_u8)
qed

lemma parse_attrib_spec:
  assumes "attr_ok (snd fa)" and "drop (i + 1) p = attr_bytes fa @ xs"
  shows "parse_attrib p i read_len u =
    Inr (i + length (attr_bytes fa), read_len + of_nat (length (attr_bytes fa)), apply_attr (snd fa) u)"
proof -
  let ?a = "snd fa"
  have d: "drop (i + 1) p = [fst fa, attr_code ?a, of_nat (length (attr_body ?a))] @ attr_body ?a @ xs"
    using assms(2) by (simp add: attr_bytes_def)
  have rds: "rd p (i + 1) = Inr (fst fa)" "rd p (i + 2) = Inr (attr_code ?a)"
    "rd p (i + 3) = Inr (of_nat (length (attr_body ?a)))"
    using rd_drop [OF d, of 0] rd_drop [OF d, of 1] rd_drop [OF d, of 2]
    by (simp_all add: numeral_3_eq_3)
  have "drop (i + 3 + 1) p = attr_body ?a @ xs"
    using drop_append_shift [OF d] by (simp add: numeral_eq_Suc)
  from parse_attrib_value_spec [OF assms(1) this] rds show ?thesis
    by (simp add: parse_attrib_def attr_bytes_def add.commute add.left_commute)
qed

lemma length_attr_bytes: "3 \<le> length (attr_bytes fa)"
  by (simp add: attr_bytes_def)

lemma parse_attribs_spec:
  assumes "\<forall>fa \<in> set attrs. attr_ok (snd fa)"
    and "drop (i + 1) p = concat (map attr_bytes attrs) @ xs"
    and "r + length (concat (map attr_bytes attrs)) = n" and "n < 65536"
  shows "parse_attribs p (of_nat n) i (of_nat r) u = Inr (fold (apply_attr \<circ> snd) attrs u)"
  using assms
proof (induction attrs arbitrary: i r u)
  case Nil
  then show ?case by (subst parse_attribs.simps) simp
next
  case (Cons fa attrs)
  let ?k = "length (attr_bytes fa)"
  have d: "drop (i + 1) p = attr_bytes fa @ concat (map attr_bytes attrs) @ xs"
    using Cons.prems(2) by simp
  have less: "(of_nat r :: u16) < of_nat n"
    using Cons.prems(3,4) length_attr_bytes [of fa] by (simp add: word_less_nat_alt unat_of_nat_u16)
  have "drop (i + ?k + 1) p = concat (map attr_bytes attrs) @ xs"
    using drop_append_shift [OF d] by (simp add: add.commute add.left_commute)
  then have "parse_attribs p (of_nat n) (i + ?k) (of_nat (r + ?k)) (apply_attr (snd fa) u)
      = Inr (fold (apply_attr \<circ> snd) attrs (apply_attr (snd fa) u))"
    using Cons.prems by (intro Cons.IH) auto
  then show ?case
    using less parse_attrib_spec [OF _ d] Cons.prems(1)
    by (subst parse_attribs.simps) simp
qed

section \<open>Prefixes\<close>

lemma nlri_byte_length_bounds:
  "1 \<le> unat len \<Longrightarrow> unat len \<le> 32 \<Longrightarrow> 1 \<le> nlri_byte_length len \<and> nlri_byte_length len \<le> 4"
  unfolding nlri_byte_length_def by presburger

lemma nlri_byte_length_iff:
  "nlri_byte_length len \<le> 4 \<longleftrightarrow> unat len \<le> 32"
  unfolding nlri_byte_length_def by presburger

lemma length_prefix_bytes:
  "prefix_ok (len, pfx) \<Longrightarrow> length (prefix_bytes (len, pfx)) = Suc (nlri_byte_length len)"
  using nlri_byte_length_bounds [of len] by (auto simp: prefix_ok_def prefix_bytes_def)

lemma parse_nlri_entry_spec:
  assumes ok: "prefix_ok (len, pfx)" and d: "drop off p = prefix_bytes (len, pfx) @ xs"
  shows "parse_nlri_entry now i u off p flag len = Inr (u\<lparr>nlri := nlri_of flag now i (len, pfx)\<rparr>)"
proof -
  let ?n = "nlri_byte_length len"
  let ?bs = "take ?n (le_bytes 4 pfx)"
  from ok have len: "1 \<le> unat len" "unat len \<le> 32" and pad: "drop ?n (le_bytes 4 pfx) = replicate (4 - ?n) 0"
    by (auto simp: prefix_ok_def)
  have n: "1 \<le> ?n" "?n \<le> 4" using nlri_byte_length_bounds [OF len] by auto
  have "drop (off + 1) p = ?bs @ xs"
    using drop_append_shift [of off p "[len]" "?bs @ xs"] d by (simp add: prefix_bytes_def)
  moreover have "?bs \<noteq> []" and lbs: "length ?bs = ?n" using n by auto
  ultimately have "rd_block p (off + 1) ?n = Inr ?bs" using rd_block_drop by metis
  moreover have "memcpy_u32 0 ?bs = Inr pfx"
  proof -
    have "drop k (le_bytes 4 (0 :: u32)) = replicate (4 - k) 0" for k
      by (simp add: le_bytes_def drop_map) (simp add: map_replicate_const)
    then have "?bs @ drop (length ?bs) (le_bytes 4 (0 :: u32)) = le_bytes 4 pfx"
      using pad lbs by (metis append_take_drop_id)
    then show ?thesis using n by (simp add: memcpy_u32_def)
  qed
  moreover have "get_ipv4_high_range pfx len = Inr (htonl (ntohl pfx OR mask (32 - unat len)))"
    using len by (simp add: get_ipv4_high_range_eq)
  ultimately show ?thesis using n by (simp add: parse_nlri_entry_def nlri_of_def)
qed

lemma parse_nlri_spec:
  assumes "\<forall>lp \<in> set ps. prefix_ok lp" and "drop off p = concat (map prefix_bytes ps) @ 0 # xs"
  shows "parse_nlri now i u off p flag = Inr (map (\<lambda>lp. copy_update (u\<lparr>nlri := nlri_of flag now i lp\<rparr>)) ps)"
  using assms
proof (induction ps arbitrary: off u)
  case Nil
  then show ?case by (subst parse_nlri.simps) (simp add: rd_drop_0)
next
  case (Cons lp ps)
  obtain len pfx where lp: "lp = (len, pfx)" by fastforce
  let ?u = "u\<lparr>nlri := nlri_of flag now i lp\<rparr>"
  have ok: "prefix_ok (len, pfx)" using Cons.prems(1) lp by simp
  have d: "drop off p = prefix_bytes (len, pfx) @ concat (map prefix_bytes ps) @ 0 # xs"
    using Cons.prems(2) lp by simp
  have "rd p off = Inr len" using d by (simp add: prefix_bytes_def rd_drop_0)
  moreover have "len \<noteq> 0" using ok by (auto simp: prefix_ok_def)
  moreover have "drop (off + 1 + nlri_byte_length len) p = concat (map prefix_bytes ps) @ 0 # xs"
    using drop_append_shift [OF d] by (simp add: length_prefix_bytes [OF ok])
  then have "parse_nlri now i ?u (off + 1 + nlri_byte_length len) p flag
      = Inr (map (\<lambda>lp. copy_update (?u\<lparr>nlri := nlri_of flag now i lp\<rparr>)) ps)"
    using Cons.prems(1) by (intro Cons.IH) auto
  ultimately show ?case
    using parse_nlri_entry_spec [OF ok d, of now i u flag] lp by (subst parse_nlri.simps) simp
qed

section \<open>Whole messages\<close>

lemma packet_block_queued:
  assumes "length bs \<le> 4096"
  shows "packet_block (queued bs) = Inr (bs @ [0, 0, 0, 0, 0])"
proof -
  have "map (\<lambda>k. if k < length bs then bs ! k else 0) [0..<length bs] = bs"
    by (rule nth_equalityI) auto
  moreover have "q_packet (queued bs) = bs" "unat (q_length (queued bs)) = length bs"
    using assms by (simp_all add: queued_def unat_of_nat_u16)
  ultimately show ?thesis using assms by (simp only: packet_block_def if_True)
qed

lemma announcement_parsed:
  assumes "\<forall>fa \<in> set attrs. attr_ok (snd fa)" and "\<forall>lp \<in> set ps. prefix_ok lp"
    and "length (update_message attrs ps) \<le> 4096"
  shows "proc_packet now i (queued (update_message attrs ps)) =
    Inr (map (\<lambda>lp. copy_update ((update_of attrs)\<lparr>nlri := nlri_of Nlri_update now i lp\<rparr>)) ps, [])"
proof -
  let ?ab = "concat (map attr_bytes attrs)" and ?pb = "concat (map prefix_bytes ps)"
  let ?p = "update_message attrs ps @ [0, 0, 0, 0, 0]"
  have p: "?p = be_bytes 2 (0 :: u16) @ be_bytes 2 (of_nat (length ?ab) :: u16) @ ?ab @ ?pb @ 0 # [0, 0, 0, 0]"
    by (simp add: update_message_def Let_def)
  have n: "length ?ab < 65536" using assms(3) by (simp add: update_message_def Let_def)
  have "rd16 ?p 0 = Inr 0" by (rule rd16_be) (simp only: p drop_0)
  moreover have "rd16 ?p 2 = Inr (of_nat (length ?ab))" by (rule rd16_be) (simp add: p)
  moreover have "drop (3 + 1) ?p = ?ab @ ?pb @ 0 # [0, 0, 0, 0]" by (simp add: p)
  then have "parse_attribs ?p (of_nat (length ?ab)) 3 (of_nat 0) new_update
      = Inr (fold (apply_attr \<circ> snd) attrs new_update)"
    using assms(1) n by (intro parse_attribs_spec) auto
  moreover have "drop (length ?ab + 4) ?p = ?pb @ 0 # [0, 0, 0, 0]" by (simp add: p)
  then have "parse_nlri now i (update_of attrs) (length ?ab + 4) ?p Nlri_update =
      Inr (map (\<lambda>lp. copy_update ((update_of attrs)\<lparr>nlri := nlri_of Nlri_update now i lp\<rparr>)) ps)"
    using assms(2) by (intro parse_nlri_spec)
  ultimately show ?thesis
    using packet_block_queued [OF assms(3)] n
    by (simp add: proc_packet_def unat_of_nat_u16 update_of_def)
qed

text \<open>
  C1: the parser is right on well-formed announcements. For every list of path attributes and
  every list of prefixes whose UPDATE message fits the 4096 byte queue slot, one pass of
  \<^verbatim>\<open>proc_in_q\<close> over the message succeeds and pushes exactly one update per prefix, in order,
  each with all attributes of the message, the peer's bgp id, the time and the range of
  its prefix; nothing is withdrawn.
\<close>

theorem proc_packet_announce:
  assumes "\<forall>fa \<in> set attrs. attr_ok (snd fa)" and "\<forall>lp \<in> set ps. prefix_ok lp"
    and "length (update_message attrs ps) \<le> 4096"
  shows "proc_packet now i (queued (update_message attrs ps)) =
    Inr (map (\<lambda>lp. copy_update ((update_of attrs)\<lparr>nlri := nlri_of Nlri_update now i lp\<rparr>)) ps, [])"
  using assms by (rule announcement_parsed)

theorem proc_packet_announce_witness:
  "proc_packet 7 (quad 10 0 0 1)
     (queued (update_message [(0x40, S_origin 2), (0x40, S_as_path 2 [65001, 3356])] [(24, quad 192 0 2 0)]))
   = Inr ([copy_update ((update_of [(0x40, S_origin 2), (0x40, S_as_path 2 [65001, 3356])])
            \<lparr>nlri := nlri_of Nlri_update 7 (quad 10 0 0 1) (24, quad 192 0 2 0)\<rparr>)], [])"
proof -
  have "prefix_ok (24, quad 192 0 2 0)"
    by (simp add: prefix_ok_def quad_def nlri_byte_length_def eval_simps)
  moreover have "length (update_message [(0x40, S_origin 2), (0x40, S_as_path 2 [65001, 3356])]
      [(24, quad 192 0 2 0)]) \<le> 4096"
    by (simp add: update_message_def attr_bytes_def prefix_bytes_def nlri_byte_length_def)
  ultimately show ?thesis
    using proc_packet_announce
      [of "[(0x40, S_origin 2), (0x40, S_as_path 2 [65001, 3356])]" "[(24, quad 192 0 2 0)]" 7 "quad 10 0 0 1"]
    by (simp add: attr_ok_def)
qed

lemma copy_update_withdraw [simp]: "copy_update (new_update\<lparr>nlri := n\<rparr>) = new_update\<lparr>nlri := n\<rparr>"
  by (simp add: copy_update_def assign_def new_update_def)

text \<open>
  C26: withdrawals. A message that withdraws the prefixes \<open>ws\<close> (and whose attributes take less
  than 256 bytes) gives exactly one withdraw per prefix, in order; but whatever the same
  message announces is dropped: the parser pushes no update for \<open>ps\<close>.
\<close>

theorem proc_packet_withdraw:
  assumes "\<forall>lp \<in> set ws. prefix_ok lp" and "ws \<noteq> []"
    and "length (concat (map attr_bytes attrs)) < 256"
    and "length (withdraw_message ws attrs ps) \<le> 4096"
  shows "proc_packet now i (queued (withdraw_message ws attrs ps)) =
    Inr ([], map (\<lambda>lp. new_update\<lparr>nlri := nlri_of Nlri_withdraw now i lp\<rparr>) ws)"
proof -
  let ?wb = "concat (map prefix_bytes ws)" and ?ab = "concat (map attr_bytes attrs)"
  let ?p = "withdraw_message ws attrs ps @ [0, 0, 0, 0, 0]"
  have "drop_bit 8 (of_nat (length ?ab) :: u16) = 0"
    unfolding word_unat_eq_iff unat_drop_bit_eq
    using assms(3) by (simp add: unat_of_nat_u16 drop_bit_eq_div)
  then obtain ys where p: "?p = be_bytes 2 (of_nat (length ?wb) :: u16) @ ?wb @ 0 # ys"
    by (simp add: withdraw_message_def Let_def be_bytes_2)
  have "length ?wb \<noteq> 0" using assms(2) by (cases ws) (auto simp: prefix_bytes_def)
  moreover have "length ?wb < 65536" using assms(4) by (simp add: withdraw_message_def Let_def)
  ultimately have nz: "(of_nat (length ?wb) :: u16) \<noteq> 0"
    by (simp add: word_unat_eq_iff unat_of_nat_u16)
  have "rd16 ?p 0 = Inr (of_nat (length ?wb))" by (rule rd16_be) (simp only: p drop_0)
  moreover have "drop 2 ?p = ?wb @ 0 # ys" by (simp add: p)
  then have "parse_nlri now i new_update 2 ?p Nlri_withdraw =
      Inr (map (\<lambda>lp. copy_update (new_update\<lparr>nlri := nlri_of Nlri_withdraw now i lp\<rparr>)) ws)"
    using assms(1) by (intro parse_nlri_spec)
  ultimately show ?thesis
    using packet_block_queued [OF assms(4)] nz by (simp add: proc_packet_def)
qed

theorem proc_packet_withdraw_witness:
  "proc_packet 9 5 (queued (withdraw_message [(8, quad 10 0 0 0)] [(0x40, S_origin 0)] [(16, quad 172 16 0 0)]))
   = Inr ([], [new_update\<lparr>nlri := nlri_of Nlri_withdraw 9 5 (8, quad 10 0 0 0)\<rparr>])"
proof -
  have "prefix_ok (8, quad 10 0 0 0)"
    by (simp add: prefix_ok_def quad_def nlri_byte_length_def eval_simps)
  then show ?thesis
    using proc_packet_withdraw [of "[(8, quad 10 0 0 0)]" "[(0x40, S_origin 0)]" "[(16, quad 172 16 0 0)]" 9 5]
    by (simp add: withdraw_message_def attr_bytes_def prefix_bytes_def nlri_byte_length_def Let_def)
qed

end
