(* ===== verification/Update_Safety.thy ===== *)
theory Update_Safety
  imports Update_Codec
begin

text \<open>
  What holds of the UPDATE parser on every packet a peer can send: the shape of what it
  pushes, the errors it can run into, and the bytes it does not look at.
\<close>

section \<open>What is pushed\<close>

lemma length_parse_as_values: "parse_as_values p off n = Inr vs \<Longrightarrow> length vs = n"
  by (induction n arbitrary: off vs) (auto simp: rbind_eq_Inr)

lemma length_parse_as4_values: "parse_as4_values p off n = Inr vs \<Longrightarrow> length vs = n"
  by (induction n arbitrary: off vs) (auto simp: rbind_eq_Inr)

lemma length_parse_comm_values: "parse_comm_values p off n = Inr cs \<Longrightarrow> length cs = n"
  by (induction n arbitrary: off cs) (auto simp: rbind_eq_Inr)

lemmas length_parse_values = length_parse_as_values length_parse_as4_values length_parse_comm_values

lemma update_wf_new [simp]: "update_wf new_update"
  by (simp add: update_wf_def new_update_def)

lemma parse_attrib_value_wf:
  "parse_attrib_value p i ty len u = Inr (n, u') \<Longrightarrow> update_wf u \<Longrightarrow> update_wf u'"
  by (auto simp: parse_attrib_value_def parse_as_path_def parse_as4_path_def parse_community_def
      rbind_eq_Inr update_wf_def seg_wf_def unat_div
      split: option.splits bgp_path_attrib.splits if_splits dest!: length_parse_values)

lemma parse_attrib_wf:
  "parse_attrib p i read_len u = Inr (i', read_len', u') \<Longrightarrow> update_wf u \<Longrightarrow> update_wf u'"
  by (auto simp: parse_attrib_def rbind_eq_Inr dest: parse_attrib_value_wf)

lemma parse_attribs_wf:
  "parse_attribs p n i read_len u = Inr u' \<Longrightarrow> update_wf u \<Longrightarrow> update_wf u'"
proof (induction p n i read_len u rule: parse_attribs.induct)
  case (1 p n i read_len u)
  from "1.prems" show ?case
    by (subst (asm) parse_attribs.simps)
      (auto simp: rbind_eq_Inr split: if_splits dest: "1.IH" parse_attrib_wf)
qed

text \<open>An NLRI as the peer with bgp id \<open>i\<close> may have sent it.\<close>

definition nlri_ok :: "u32 \<Rightarrow> bgp_nlri \<Rightarrow> bool" where
  "nlri_ok i n \<longleftrightarrow> nlri_bgp_id n = i \<and> 1 \<le> unat (prefix_length n) \<and> unat (prefix_length n) \<le> 32
     \<and> get_ipv4_high_range (prefix n) (prefix_length n) = Inr (prefix_highest n)"

lemma nlri_stamp_sel [simp]:
  "nlri_bgp_id (nlri_stamp flag now n) = nlri_bgp_id n"
  "prefix (nlri_stamp flag now n) = prefix n"
  "prefix_highest (nlri_stamp flag now n) = prefix_highest n"
  "prefix_length (nlri_stamp flag now n) = prefix_length n"
  by (cases flag; simp add: nlri_stamp_def)+

lemma parse_nlri_entry_ok:
  assumes "parse_nlri_entry now i u off p flag len = Inr u'"
  obtains n where "u' = u\<lparr>nlri := nlri_stamp flag now n\<rparr>" and "nlri_ok i (nlri_stamp flag now n)"
  using assms high_range_defined
  by (fastforce simp: parse_nlri_entry_def rbind_eq_Inr nlri_ok_def)

lemma parse_nlri_ok:
  "parse_nlri now i u off p flag = Inr pushed \<Longrightarrow> v \<in> set pushed \<Longrightarrow>
     \<exists>n. v = copy_update (u\<lparr>nlri := nlri_stamp flag now n\<rparr>) \<and> nlri_ok i (nlri_stamp flag now n)"
proof (induction now i u off p flag arbitrary: pushed rule: parse_nlri.induct)
  case (1 now i u off p flag)
  from "1.prems" obtain len where len: "rd p off = Inr len" "len \<noteq> 0"
    by (subst (asm) parse_nlri.simps) (auto simp: rbind_eq_Inr split: if_splits)
  with "1.prems"(1) obtain u' rest where
    u': "parse_nlri_entry now i u off p flag len = Inr u'" and
    rest: "parse_nlri now i u' (off + 1 + nlri_byte_length len) p flag = Inr rest" and
    pushed: "pushed = copy_update u' # rest"
    by (subst (asm) parse_nlri.simps) (auto simp: rbind_eq_Inr)
  obtain m where m: "u' = u\<lparr>nlri := nlri_stamp flag now m\<rparr>" "nlri_ok i (nlri_stamp flag now m)"
    using u' by (rule parse_nlri_entry_ok)
  show ?case
  proof (cases "v = copy_update u'")
    case True
    with m show ?thesis by blast
  next
    case False
    with "1.prems"(2) pushed have "v \<in> set rest" by simp
    from "1.IH" [OF len u' rest this] m(1) show ?thesis by simp
  qed
qed

lemma update_wf_nlri [simp]: "update_wf (u\<lparr>nlri := n\<rparr>) = update_wf u"
  by (simp add: update_wf_def split: option.splits)

lemma update_wf_addr_family [simp]: "update_wf (u\<lparr>addr_family := n\<rparr>) = update_wf u"
  by (simp add: update_wf_def split: option.splits)

lemma proc_packet_pushed:
  assumes "proc_packet now i q = Inr (us, ws)"
  shows "(\<forall>u \<in> set us. update_wf u \<and> nlri_ok i (nlri u) \<and> age (nlri u) = now \<and> addr_family u = AF_INET)
       \<and> (\<forall>w \<in> set ws. update_wf w \<and> nlri_ok i (nlri w) \<and> last_withdraw_time (nlri w) = now)
       \<and> (us = [] \<or> ws = [])"
proof -
  from assms obtain p where "packet_block q = Inr p" by (auto simp: proc_packet_def rbind_eq_Inr)
  with assms consider (withdraw) "parse_nlri now i new_update 2 p Nlri_withdraw = Inr ws" "us = []"
    | (announce) l u where "parse_attribs p l 3 0 new_update = Inr u" "ws = []"
        "parse_nlri now i (u\<lparr>addr_family := AF_INET\<rparr>) (unat l + 4) p Nlri_update = Inr us"
    by (auto simp: proc_packet_def rbind_eq_Inr split: if_splits)
  then show ?thesis
  proof cases
    case withdraw
    have "update_wf w \<and> nlri_ok i (nlri w) \<and> last_withdraw_time (nlri w) = now" if "w \<in> set ws" for w
      using parse_nlri_ok [OF withdraw(1) that] by (auto simp: nlri_stamp_def)
    with withdraw show ?thesis by simp
  next
    case announce
    have "update_wf u" using parse_attribs_wf [OF announce(1)] by simp
    then have "update_wf v \<and> nlri_ok i (nlri v) \<and> age (nlri v) = now \<and> addr_family v = AF_INET"
      if "v \<in> set us" for v
      using parse_nlri_ok [OF announce(3) that] by (auto simp: nlri_stamp_def)
    with announce show ?thesis by simp
  qed
qed

text \<open>
  C10: whatever a peer sends, if the parser finishes the message then every update it pushes
  is well formed (arrays as long as their length fields), is tagged with the peer's bgp id,
  has a prefix length between 1 and 32 and the highest address of that prefix, an
  announcement is IPv4 and stamped with the time it was learned, a withdraw with the time it
  was withdrawn, and one message never gives both announcements and withdraws.
\<close>

theorem proc_packet_pushes:
  assumes "proc_packet now i q = Inr (us, ws)"
  shows "(\<forall>u \<in> set us. update_wf u \<and> nlri_ok i (nlri u) \<and> age (nlri u) = now \<and> addr_family u = AF_INET)
       \<and> (\<forall>w \<in> set ws. update_wf w \<and> nlri_ok i (nlri w) \<and> last_withdraw_time (nlri w) = now)
       \<and> (us = [] \<or> ws = [])"
  using assms by (rule proc_packet_pushed)

theorem proc_packet_pushes_witness:
  "proc_packet 3 1 (queued [0, 2, 8, 10, 0, 0]) =
     Inr ([], [new_update\<lparr>nlri := nlri_of Nlri_withdraw 3 1 (8, 10)\<rparr>])
   \<and> nlri_ok 1 (nlri_of Nlri_withdraw 3 1 (8, 10))"
proof -
  have run: "proc_packet 3 1 (queued [0, 2, 8, 10, 0, 0]) =
      Inr ([], [new_update\<lparr>nlri := nlri_of Nlri_withdraw 3 1 (8, 10)\<rparr>])"
    by (simp add: proc_packet_def packet_block_queued rd16_def rd_def be16_def parse_nlri.simps
        parse_nlri_entry_def rd_block_def memcpy_u32_def nlri_byte_length_def nlri_of_def
        get_ipv4_high_range_eq eval_simps)
  then show ?thesis using proc_packet_pushes [OF run] by simp
qed

section \<open>What can go wrong\<close>

text \<open>The two faults a packet can cause: a read past the block, a copy past its destination.\<close>

definition packet_faults :: "ub set" where
  "packet_faults = {Out_of_bounds, Buffer_overflow}"

lemma packet_faults_simps [simp]:
  "Out_of_bounds \<in> packet_faults" "Buffer_overflow \<in> packet_faults"
  by (simp_all add: packet_faults_def)

lemma rd_fault: "rd p i = Inl e \<Longrightarrow> e \<in> packet_faults"
  by (auto simp: rd_def split: if_splits)

lemma rd16_fault: "rd16 p i = Inl e \<Longrightarrow> e \<in> packet_faults"
  by (auto simp: rd16_def rbind_eq_Inl dest: rd_fault)

lemma rd32_fault: "rd32 p i = Inl e \<Longrightarrow> e \<in> packet_faults"
  by (auto simp: rd32_def rbind_eq_Inl dest: rd_fault)

lemma rd_block_fault: "rd_block p i n = Inl e \<Longrightarrow> e \<in> packet_faults"
  by (auto simp: rd_block_def split: if_splits)

lemma memcpy_u32_fault: "memcpy_u32 old bs = Inl e \<Longrightarrow> e \<in> packet_faults"
  by (auto simp: memcpy_u32_def split: if_splits)

lemmas read_faults = rd_fault rd16_fault rd32_fault rd_block_fault memcpy_u32_fault

lemma parse_as_values_fault: "parse_as_values p off n = Inl e \<Longrightarrow> e \<in> packet_faults"
  by (induction n arbitrary: off) (auto simp: rbind_eq_Inl dest: read_faults)

lemma parse_as4_values_fault: "parse_as4_values p off n = Inl e \<Longrightarrow> e \<in> packet_faults"
  by (induction n arbitrary: off) (auto simp: rbind_eq_Inl dest: read_faults)

lemma parse_comm_values_fault: "parse_comm_values p off n = Inl e \<Longrightarrow> e \<in> packet_faults"
  by (induction n arbitrary: off) (auto simp: rbind_eq_Inl dest: read_faults)

lemma parse_aggr_origin_fault: "parse_aggr_origin p i len k = Inl e \<Longrightarrow> e \<in> packet_faults"
  by (auto simp: parse_aggr_origin_def rbind_eq_Inl dest: read_faults)

lemmas value_faults =
  read_faults parse_as_values_fault parse_as4_values_fault parse_comm_values_fault parse_aggr_origin_fault

lemma parse_attrib_value_fault:
  "parse_attrib_value p i ty len u = Inl e \<Longrightarrow> e \<in> packet_faults"
  by (auto simp: parse_attrib_value_def parse_as_path_def parse_as4_path_def parse_community_def
      rbind_eq_Inl split: option.splits bgp_path_attrib.splits if_splits dest: value_faults)

lemma parse_attrib_fault: "parse_attrib p i read_len u = Inl e \<Longrightarrow> e \<in> packet_faults"
  by (auto simp: parse_attrib_def rbind_eq_Inl dest: read_faults parse_attrib_value_fault)

lemma parse_attribs_fault: "parse_attribs p n i read_len u = Inl e \<Longrightarrow> e \<in> packet_faults"
proof (induction p n i read_len u rule: parse_attribs.induct)
  case (1 p n i read_len u)
  from "1.prems" show ?case
    by (subst (asm) parse_attribs.simps)
      (auto simp: rbind_eq_Inl split: if_splits dest: parse_attrib_fault intro: "1.IH")
qed

lemma nlri_byte_length_le: "nlri_byte_length len \<le> 4 \<longleftrightarrow> unat len \<le> 32"
  unfolding nlri_byte_length_def by presburger

lemma parse_nlri_entry_fault:
  "len \<noteq> 0 \<Longrightarrow> parse_nlri_entry now i u off p flag len = Inl e \<Longrightarrow> e \<in> packet_faults"
  by (auto simp: parse_nlri_entry_def rbind_eq_Inl get_ipv4_high_range_eq nlri_byte_length_le
      unat_gt_0 Suc_le_eq split: if_splits dest: read_faults)

lemma parse_nlri_fault: "parse_nlri now i u off p flag = Inl e \<Longrightarrow> e \<in> packet_faults"
proof (induction now i u off p flag rule: parse_nlri.induct)
  case (1 now i u off p flag)
  from "1.prems" show ?case
    by (subst (asm) parse_nlri.simps)
      (auto simp: rbind_eq_Inl split: if_splits dest: read_faults parse_nlri_entry_fault intro: "1.IH")
qed



text \<open>
  the prefix length of the wire is not checked: a withdraw (or, likewise, an announcement)
  that starts with a prefix length above 32 makes \<^verbatim>\<open>parse_nlri\<close> copy more than four bytes
  over the four bytes of \<^verbatim>\<open>nlri.prefix\<close>.
\<close>

theorem proc_packet_long_prefix:
  assumes "packet_block q = Inr (hi # lo # len # rest)" and "be16 hi lo \<noteq> 0" and "32 < unat len"
  shows "proc_packet now i q = Inl Buffer_overflow"
proof -
  let ?p = "hi # lo # len # rest"
  have "len \<noteq> 0" using assms(3) by auto
  then have "parse_nlri now i new_update 2 ?p Nlri_withdraw = Inl Buffer_overflow"
    using assms(3)
    by (subst parse_nlri.simps) (simp add: rd_def parse_nlri_entry_def nlri_byte_length_le)
  then show ?thesis using assms by (simp add: proc_packet_def rd16_def rd_def)
qed

theorem proc_packet_long_prefix_witness:
  "proc_packet 0 0 (queued [0, 6, 33, 10, 0, 0, 0, 0]) = Inl Buffer_overflow"
  by (rule proc_packet_long_prefix [of _ 0 6 33 "[10, 0, 0, 0, 0, 0, 0, 0, 0, 0]"])
    (simp_all add: packet_block_queued be16_def)

end
