(* ===== verification/Core_Proofs.thy ===== *)
theory Core_Proofs
  imports Bgp_Core Session_Proofs Database_Proofs Update_Safety
begin

text \<open>
  The RIB. Its operations refine updates of a finite map from [prefix, bgp id] to updates, the
  operations of the queues never leave the defined behaviour while the invariant holds, and the
  invariant -- the RIB is ordered and well formed, every route belongs to a neighbour, and the
  route counter of every neighbour is the number of its routes -- holds in every state that
  the threads can reach in any interleaving.
\<close>

section \<open>Operations\<close>

lemma set_peer_sel [simp]:
  "thread_q (set_peer k p s) = (thread_q s)[k := p]" "adj_rib_in (set_peer k p s) = adj_rib_in s"
  "adj_rib_in_q (set_peer k p s) = adj_rib_in_q s" "adj_rib_in_wdraw_q (set_peer k p s) = adj_rib_in_wdraw_q s"
  "database (set_peer k p s) = database s" "table_version (set_peer k p s) = table_version s"
  by (simp_all add: set_peer_def)

lemma add_log_sel [simp]:
  "thread_q (add_log ls s) = thread_q s" "adj_rib_in (add_log ls s) = adj_rib_in s"
  "adj_rib_in_q (add_log ls s) = adj_rib_in_q s" "adj_rib_in_wdraw_q (add_log ls s) = adj_rib_in_wdraw_q s"
  "database (add_log ls s) = database s" "table_version (add_log ls s) = table_version s"
  by (simp_all add: add_log_def)

text \<open>The dumper changes its own state only, and cannot fail when it is off or the route printable.\<close>

lemma dump_update_frame: "dump_update now f u s = Inr s' \<Longrightarrow> \<exists>d. s' = s\<lparr>dumper := d\<rparr>"
  by (auto simp: dump_update_def rbind_eq_Inr split: if_splits intro: exI [of _ "dumper s"])

lemma dump_update_defined:
  assumes "dumper_on_off s \<Longrightarrow> update_wf u \<and> printable (thread_q s) u"
  shows "\<exists>d. dump_update now f u s = Inr (s\<lparr>dumper := d\<rparr>)"
proof (cases "dumper_on_off s")
  case True
  with assms obtain line where "dump_text now (thread_q s) u f = Inr line"
    using dump_text_ok by blast
  then obtain d where "translate_and_dump_update now (thread_q s) u f (dumper s) = Inr d"
    using dump_to_file dump_to_sender by (metis option.exhaust)
  with True have "dump_update now f u s = Inr (s\<lparr>dumper := d\<rparr>)" by (simp add: dump_update_def)
  then show ?thesis ..
next
  case False
  then have "dump_update now f u s = Inr (s\<lparr>dumper := dumper s\<rparr>)" by (simp add: dump_update_def)
  then show ?thesis ..
qed

lemma rib_key_copy [simp]: "rib_key (copy_update u) = rib_key u"
  by (simp add: rib_key_def)

lemma snd_rib_key [simp]: "snd (rib_key u) = nlri_bgp_id (nlri u)"
  by (simp add: rib_key_def)

lemma count_entry_sel [simp]:
  "p_bgp_id (count_entry known p) = p_bgp_id p" "state (count_entry known p) = state p"
  "current_rx (count_entry known p) = current_rx p + (if known then 0 else 1)"
  by (simp_all add: count_entry_def Let_def current_rx_def add_current_rx_def)

lemma count_withdraw_sel [simp]:
  "p_bgp_id (count_withdraw p) = p_bgp_id p" "state (count_withdraw p) = state p"
  "current_rx (count_withdraw p) = current_rx p - 1"
  by (simp_all add: count_withdraw_def current_rx_def add_current_rx_def)

text \<open>Inserting a well-formed update into the event database never fails.\<close>

lemma db_insert_wf: "update_wf u \<Longrightarrow> \<exists>db'. db_insert u db = Inr db'"
  using db_record_defined [of u] by (auto simp: db_insert_def case_prod_beta)

lemma assign_index:
  assumes "map_sorted rib_sort m"
  shows "map_assign rib_sort k v (snd (map_index rib_sort d k m)) = map_assign rib_sort k v m"
  by (cases "map_find rib_sort k m") (simp_all add: map_index_def rib.assign_assign)

lemma set_database_same [simp]: "s\<lparr>dumper := d, database := database s\<rparr> = s\<lparr>dumper := d\<rparr>"
  by simp

lemma peer_entry_unknown:
  "get_peer_by_bgp_id (nlri_bgp_id (nlri u)) (thread_q s) = None \<Longrightarrow>
     dump_update now Nlri_update u s = Inr (s\<lparr>dumper := d\<rparr>) \<Longrightarrow> peer_entry now u s = Inr (s\<lparr>dumper := d\<rparr>)"
  by (simp add: peer_entry_def Let_def)

lemma peer_entry_known:
  assumes "rib_inv (adj_rib_in s)" and "get_peer_by_bgp_id (nlri_bgp_id (nlri u)) (thread_q s) = Some k"
    and "dump_update now Nlri_update u s = Inr (s\<lparr>dumper := d\<rparr>)"
  obtains db where "peer_entry now u s =
    Inr ((set_peer k (count_entry (map_find rib_sort (rib_key u) (adj_rib_in s) \<noteq> None) (thread_q s ! k))
           (s\<lparr>dumper := d, database := db\<rparr>))
         \<lparr>adj_rib_in := map_assign rib_sort (rib_key u) (copy_update u) (adj_rib_in s)\<rparr>)"
proof -
  let ?it = "map_find rib_sort (rib_key u) (adj_rib_in s)"
  have "\<exists>db. (case ?it of None \<Rightarrow> Inr (database s) | Some old \<Rightarrow> db_insert old (database s)) = Inr db"
    using rib_find_key [OF assms(1), of "rib_key u"] db_insert_wf by (cases ?it) auto
  then obtain db where db: "(case ?it of None \<Rightarrow> Inr (database s) | Some old \<Rightarrow> db_insert old (database s)) = Inr db" ..
  show thesis
    by (rule that [of db])
      (use assms db assign_index [OF rib_inv_sorted [OF assms(1)]] in
        \<open>auto simp: peer_entry_def Let_def case_prod_beta split: option.splits\<close>)
qed

lemma peer_entry_dumped:
  "peer_entry now u s = Inr s' \<Longrightarrow> \<exists>d. dump_update now Nlri_update u s = Inr (s\<lparr>dumper := d\<rparr>)"
  using dump_update_frame [of now Nlri_update u s]
  by (cases "dump_update now Nlri_update u s") (auto simp: peer_entry_def)

lemma withdraw_absent:
  "map_find rib_sort (rib_key u) (adj_rib_in s) = None \<Longrightarrow> withdraw now u s = Inr s"
  by (simp add: withdraw_def)

lemma withdraw_present:
  assumes "map_find rib_sort (rib_key u) (adj_rib_in s) = Some it"
    and "get_peer_by_bgp_id (nlri_bgp_id (nlri u)) (thread_q s) = Some k"
    and "dump_update now Nlri_withdraw it s = Inr (s\<lparr>dumper := d\<rparr>)"
  shows "withdraw now u s = Inr ((set_peer k (count_withdraw (thread_q s ! k)) (s\<lparr>dumper := d\<rparr>))
    \<lparr>adj_rib_in := map_erase rib_sort (rib_key u) (adj_rib_in s)\<rparr>)"
  using assms by (simp add: withdraw_def Let_def)

lemma withdraw_dumped:
  "withdraw now u s = Inr s' \<Longrightarrow> map_find rib_sort (rib_key u) (adj_rib_in s) = Some it \<Longrightarrow>
     \<exists>d. dump_update now Nlri_withdraw it s = Inr (s\<lparr>dumper := d\<rparr>)"
  using dump_update_frame [of now Nlri_withdraw it s]
  by (cases "dump_update now Nlri_withdraw it s") (auto simp: withdraw_def)

section \<open>Refinement of a finite map\<close>

text \<open>The routes, as a map.\<close>

definition routes :: "bgp \<Rightarrow> prefix_entry \<Rightarrow> bgp_update option" where
  "routes s k = map_find rib_sort k (adj_rib_in s)"

lemma routes_assign:
  "rib_inv r \<Longrightarrow> (\<lambda>k. map_find rib_sort k (map_assign rib_sort j v r)) = (\<lambda>k. map_find rib_sort k r)(j \<mapsto> v)"
  by (auto simp: fun_eq_iff rib.find_assign rib_inv_sorted)

lemma routes_erase:
  "rib_inv r \<Longrightarrow> (\<lambda>k. map_find rib_sort k (map_erase rib_sort j r)) = (\<lambda>k. map_find rib_sort k r)(j := None)"
  by (auto simp: fun_eq_iff rib.find_erase rib_inv_sorted)

text \<open>
  C5: inserting a route. With a neighbour that has the update's bgp id, \<^verbatim>\<open>peer_entry\<close> maps the
  update's [prefix, bgp id] to a copy of the update and changes no other route; without one the
  routes stay. When the dumper is off, or the update can be printed, it never fails, the RIB
  stays ordered and well formed, and a route that is replaced is an implicit withdraw, one that
  is not counts as one more current prefix.
\<close>

theorem peer_entry_routes:
  assumes "rib_inv (adj_rib_in s)" and "update_wf u" and "dumper_on_off s \<Longrightarrow> printable (thread_q s) u"
  shows "\<exists>s'. peer_entry now u s = Inr s' \<and> rib_inv (adj_rib_in s')
    \<and> (case get_peer_by_bgp_id (nlri_bgp_id (nlri u)) (thread_q s) of
         None \<Rightarrow> routes s' = routes s \<and> thread_q s' = thread_q s
       | Some k \<Rightarrow> routes s' = (routes s)(rib_key u \<mapsto> copy_update u)
           \<and> thread_q s' = (thread_q s)[k := count_entry (routes s (rib_key u) \<noteq> None) (thread_q s ! k)])"
proof -
  obtain d where d: "dump_update now Nlri_update u s = Inr (s\<lparr>dumper := d\<rparr>)"
    using dump_update_defined [of s u now Nlri_update] assms(2,3) by blast
  show ?thesis
  proof (cases "get_peer_by_bgp_id (nlri_bgp_id (nlri u)) (thread_q s)")
    case None
    with assms peer_entry_unknown [OF None d] show ?thesis by (simp add: routes_def fun_eq_iff)
  next
    case (Some k)
    obtain db where "peer_entry now u s =
      Inr ((set_peer k (count_entry (map_find rib_sort (rib_key u) (adj_rib_in s) \<noteq> None) (thread_q s ! k))
             (s\<lparr>dumper := d, database := db\<rparr>))
           \<lparr>adj_rib_in := map_assign rib_sort (rib_key u) (copy_update u) (adj_rib_in s)\<rparr>)"
      using assms(1) Some d by (rule peer_entry_known)
    moreover have "rib_inv (map_assign rib_sort (rib_key u) (copy_update u) (adj_rib_in s))"
      using rib_inv_assign [OF assms(1), of "copy_update u"] assms(2) by simp
    ultimately show ?thesis
      using Some routes_assign [OF assms(1)]
      by (simp add: routes_def [abs_def])
  qed
qed

text \<open>A state with one neighbour and one route, for the witnesses.\<close>

definition sample_bgp :: bgp where
  "sample_bgp = (neighbor_start [] (new_peer [] []) (new_bgp True 1))
     \<lparr>adj_rib_in := [((10, 0), sample_update 10 1)]\<rparr>"

lemma sample_bgp_sel [simp]:
  "adj_rib_in sample_bgp = [((10, 0), sample_update 10 1)]"
  "thread_q sample_bgp = [copy_peer [] (new_peer [] [])]"
  "rib_inv [((10, 0), sample_update 10 1)]"
  "get_peer_by_bgp_id 0 [copy_peer [] (new_peer [] [])] = Some 0"
  "\<not> dumper_on_off sample_bgp"
  by (simp_all add: sample_bgp_def neighbor_start_def new_bgp_def start_peer_def rib_inv_def
      get_peer_by_bgp_id_def copy_peer_def new_peer_def bgp_peer.defs tcp_client.defs)

lemma sample_update_id [simp]: "nlri_bgp_id (nlri (sample_update p m)) = 0"
  by (simp add: sample_update_def new_nlri_def)

theorem peer_entry_routes_witness:
  "\<exists>s'. peer_entry 0 (sample_update 10 2) sample_bgp = Inr s'
     \<and> routes s' = (routes sample_bgp)((10, 0) \<mapsto> copy_update (sample_update 10 2))"
  using peer_entry_routes [of sample_bgp "sample_update 10 2" 0] by auto

text \<open>
  C6: withdrawing a route. If the RIB has the withdrawn [prefix, bgp id], and a neighbour with
  that id exists, \<^verbatim>\<open>withdraw\<close> removes exactly this route and counts it; if the RIB does not have
  it nothing changes. If it has the route but no neighbour with the id, the code follows a null
  pointer. The dumper is off or the stored route printable.
\<close>

theorem withdraw_routes:
  assumes "rib_inv (adj_rib_in s)"
    and "\<And>it. routes s (rib_key u) = Some it \<Longrightarrow> dumper_on_off s \<Longrightarrow> printable (thread_q s) it"
  shows "(routes s (rib_key u) = None \<longrightarrow> withdraw now u s = Inr s)
    \<and> (\<forall>it. routes s (rib_key u) = Some it \<longrightarrow>
        (case get_peer_by_bgp_id (nlri_bgp_id (nlri u)) (thread_q s) of
           None \<Rightarrow> withdraw now u s = Inl Null_pointer
         | Some k \<Rightarrow> (\<exists>s'. withdraw now u s = Inr s' \<and> rib_inv (adj_rib_in s')
             \<and> routes s' = (routes s)(rib_key u := None)
             \<and> thread_q s' = (thread_q s)[k := count_withdraw (thread_q s ! k)])))"
proof (cases "map_find rib_sort (rib_key u) (adj_rib_in s)")
  case None
  then show ?thesis by (simp add: routes_def withdraw_absent)
next
  case (Some it)
  then have "update_wf it" using rib_find_key [OF assms(1)] by blast
  with Some assms(2) obtain d where d: "dump_update now Nlri_withdraw it s = Inr (s\<lparr>dumper := d\<rparr>)"
    using dump_update_defined [of s it now Nlri_withdraw] by (auto simp: routes_def)
  show ?thesis
  proof (cases "get_peer_by_bgp_id (nlri_bgp_id (nlri u)) (thread_q s)")
    case None
    with Some d show ?thesis by (simp add: routes_def withdraw_def Let_def)
  next
    case k: (Some k)
    from withdraw_present [OF Some k d] Some k rib_inv_erase [OF assms(1)] routes_erase [OF assms(1)]
    show ?thesis by (simp add: routes_def [abs_def])
  qed
qed

theorem withdraw_routes_witness:
  "\<exists>s'. withdraw 0 (sample_update 10 7) sample_bgp = Inr s' \<and> routes s' = (routes sample_bgp)((10, 0) := None)"
proof -
  have "routes sample_bgp (10, 0) = Some (sample_update 10 1)"
    by (simp add: routes_def rib.irrefl)
  with withdraw_routes [of sample_bgp "sample_update 10 7" 0] show ?thesis by auto
qed

lemma flush_one_False:
  assumes "rib_inv (adj_rib_in s)" and "flush_one k s = (False, s')"
  shows "s' = s" and "filter (\<lambda>x. snd (fst x) \<noteq> p_bgp_id (thread_q s ! k)) (adj_rib_in s) = adj_rib_in s"
    and "rib_count (p_bgp_id (thread_q s ! k)) (adj_rib_in s) = 0"
proof -
  let ?i = "p_bgp_id (thread_q s ! k)"
  from assms(2) have none: "erase_first (\<lambda>u. nlri_bgp_id (nlri u) = ?i) (adj_rib_in s) = None" and "s' = s"
    by (auto simp: flush_one_def flush_peer_def split: option.splits)
  then show "s' = s" by simp
  from none have "\<forall>x \<in> set (adj_rib_in s). nlri_bgp_id (nlri (snd x)) \<noteq> ?i"
    by (simp add: erase_first_None)
  then have "\<forall>x \<in> set (adj_rib_in s). snd (fst x) \<noteq> ?i"
    using rib_inv_entry [OF assms(1)] by (metis prod.collapse snd_rib_key)
  then show "filter (\<lambda>x. snd (fst x) \<noteq> ?i) (adj_rib_in s) = adj_rib_in s" "rib_count ?i (adj_rib_in s) = 0"
    by (auto simp: rib_count_def filter_empty_conv filter_id_conv)
qed

lemma flush_one_True:
  assumes "rib_inv (adj_rib_in s)" and "flush_one k s = (True, s')"
  obtains r where "s' = set_peer k (add_current_rx (-1) (thread_q s ! k)) (s\<lparr>adj_rib_in := r\<rparr>)"
    and "rib_inv r" and "rib_count (p_bgp_id (thread_q s ! k)) (adj_rib_in s) = Suc (rib_count (p_bgp_id (thread_q s ! k)) r)"
    and "\<And>j. j \<noteq> p_bgp_id (thread_q s ! k) \<Longrightarrow> rib_count j r = rib_count j (adj_rib_in s)"
    and "filter (\<lambda>x. snd (fst x) \<noteq> p_bgp_id (thread_q s ! k)) r = filter (\<lambda>x. snd (fst x) \<noteq> p_bgp_id (thread_q s ! k)) (adj_rib_in s)"
    and "set r \<subseteq> set (adj_rib_in s)"
proof -
  let ?i = "p_bgp_id (thread_q s ! k)" and ?P = "\<lambda>u. nlri_bgp_id (nlri u) = p_bgp_id (thread_q s ! k)"
  from assms(2) obtain r where r: "erase_first ?P (adj_rib_in s) = Some r"
    and s': "s' = set_peer k (add_current_rx (-1) (thread_q s ! k)) (s\<lparr>adj_rib_in := r\<rparr>)"
    by (auto simp: flush_one_def flush_peer_def split: option.splits if_splits)
  note inv = rib_inv_erase_first [OF assms(1) r]
  have "filter (\<lambda>x. snd (fst x) \<noteq> ?i) r = filter (\<lambda>x. snd (fst x) \<noteq> ?i) (adj_rib_in s)"
    using filter_erase_first(1) [OF r] filter_rib_peer [OF inv, of "\<lambda>j. j \<noteq> ?i"]
      filter_rib_peer [OF assms(1), of "\<lambda>j. j \<noteq> ?i"] by simp
  then show thesis
    using that [OF s' inv] rib_count_erase_first [OF assms(1) r] set_erase_first [OF r] by simp
qed

text \<open>All routes of a neighbour are flushed, and counted down one by one.\<close>

lemma flush_all_eq:
  "rib_inv (adj_rib_in s) \<Longrightarrow> k < length (thread_q s) \<Longrightarrow>
     flush_all k s =
       set_peer k (add_current_rx (- of_nat (rib_count (p_bgp_id (thread_q s ! k)) (adj_rib_in s))) (thread_q s ! k))
         (s\<lparr>adj_rib_in := filter (\<lambda>x. snd (fst x) \<noteq> p_bgp_id (thread_q s ! k)) (adj_rib_in s)\<rparr>)"
proof (induction k s rule: flush_all.induct)
  case (1 k s)
  let ?i = "p_bgp_id (thread_q s ! k)"
  show ?case
  proof (cases "flush_one k s")
    case (Pair rc s')
    show ?thesis
    proof (cases rc)
      case False
      with Pair flush_one_False [OF "1.prems"(1), of k s'] show ?thesis
        by (subst flush_all.simps) (simp add: set_peer_def)
    next
      case True
      with Pair have one: "flush_one k s = (True, s')" by simp
      obtain r where r: "s' = set_peer k (add_current_rx (-1) (thread_q s ! k)) (s\<lparr>adj_rib_in := r\<rparr>)"
        "rib_inv r" "rib_count ?i (adj_rib_in s) = Suc (rib_count ?i r)"
        "filter (\<lambda>x. snd (fst x) \<noteq> ?i) r = filter (\<lambda>x. snd (fst x) \<noteq> ?i) (adj_rib_in s)"
        by (rule flush_one_True [OF "1.prems"(1) one]) (rule that)
      have "thread_q s' ! k = add_current_rx (-1) (thread_q s ! k)" "k < length (thread_q s')"
        using r(1) "1.prems"(2) by simp_all
      with "1.IH" [OF one [symmetric]] r "1.prems"(2) show ?thesis
        by (subst flush_all.simps) (simp add: one set_peer_def)
    qed
  qed
qed

lemma rib_inv_filter: "rib_inv r \<Longrightarrow> rib_inv (filter P r)"
  by (auto simp: rib_inv_def map_sorted_def sorted_wrt_filter)

lemma find_filter_keys:
  assumes "rib_inv r"
  shows "map_find rib_sort k (filter (\<lambda>x. Q (fst x)) r) = (if Q k then map_find rib_sort k r else None)"
  by (rule option_eqI)
    (use assms rib_inv_filter [OF assms] in \<open>auto simp: rib.find_iff_mem rib_inv_sorted\<close>)

lemma session_end_sel [simp]:
  "adj_rib_in (session_end k s) = adj_rib_in s" "adj_rib_in_q (session_end k s) = adj_rib_in_q s"
  "adj_rib_in_wdraw_q (session_end k s) = adj_rib_in_wdraw_q s"
  "thread_q (session_end k s) = (thread_q s)[k := (disconnect (thread_q s ! k))\<lparr>up_since := 0, in_queue := [], out_queue := []\<rparr>]"
  by (simp_all add: session_end_def Let_def)

text \<open>
  C7: the end of a session removes every route of the neighbour from the RIB and no other
  route, counts them down, closes the connection and empties the queue of messages that were
  received and not yet processed.
\<close>

theorem session_down_routes:
  assumes "rib_inv (adj_rib_in s)" and "k < length (thread_q s)"
  shows "routes (session_down k s) =
      (\<lambda>key. if snd key = p_bgp_id (thread_q s ! k) then None else routes s key)
    \<and> rib_inv (adj_rib_in (session_down k s))
    \<and> current_rx (thread_q (session_down k s) ! k) =
        current_rx (thread_q s ! k) - of_nat (rib_count (p_bgp_id (thread_q s ! k)) (adj_rib_in s))
    \<and> \<not> connected (thread_q (session_down k s) ! k)
    \<and> in_queue (thread_q (session_down k s) ! k) = []
    \<and> (\<forall>j. j \<noteq> k \<longrightarrow> thread_q (session_down k s) ! j = thread_q s ! j)"
  using assms rib_inv_filter [OF assms(1)]
    find_filter_keys [OF assms(1), of _ "\<lambda>key. snd key \<noteq> p_bgp_id (thread_q s ! k)"]
  by (auto simp: session_down_def flush_all_eq [OF assms] routes_def fun_eq_iff current_rx_def
      add_current_rx_def disconnect_def connected_def)

theorem session_down_routes_witness:
  "routes (session_down 0 sample_bgp) = (\<lambda>key. if snd key = 0 then None else routes sample_bgp key)"
  using session_down_routes [of sample_bgp 0]
  by (simp add: copy_peer_def new_peer_def bgp_peer.defs tcp_client.defs)

section \<open>The invariant\<close>

text \<open>Two neighbours share a bgp id only when it is 0, which is the id before the first OPEN.\<close>

definition ids_unique :: "thread_q \<Rightarrow> bool" where
  "ids_unique q \<longleftrightarrow> (\<forall>i < length q. \<forall>j < length q.
     p_bgp_id (q ! i) = p_bgp_id (q ! j) \<longrightarrow> i = j \<or> p_bgp_id (q ! i) = 0)"

definition has_id :: "thread_q \<Rightarrow> u32 \<Rightarrow> bool" where
  "has_id q i \<longleftrightarrow> (\<exists>k < length q. p_bgp_id (q ! k) = i)"

text \<open>The stored highest address is that of the prefix.\<close>

definition range_ok :: "bgp_nlri \<Rightarrow> bool" where
  "range_ok n \<longleftrightarrow> get_ipv4_high_range (prefix n) (prefix_length n) = Inr (prefix_highest n)"

definition queued_ok :: "bgp_update \<Rightarrow> bool" where
  "queued_ok u \<longleftrightarrow> update_wf u \<and> nlri_bgp_id (nlri u) \<noteq> 0 \<and> range_ok (nlri u)"

definition core_inv :: "bgp \<Rightarrow> bool" where
  "core_inv s \<longleftrightarrow>
     rib_inv (adj_rib_in s)
     \<and> ids_unique (thread_q s)
     \<and> (\<forall>p \<in> set (thread_q s). state p \<in> {Openconfirm, Established} \<longrightarrow> p_bgp_id p \<noteq> 0)
     \<and> (\<forall>u \<in> set (adj_rib_in_q s) \<union> set (adj_rib_in_wdraw_q s). queued_ok u)
     \<and> (\<forall>x \<in> set (adj_rib_in s). snd (fst x) \<noteq> 0 \<and> has_id (thread_q s) (snd (fst x)))
     \<and> (\<forall>x \<in> set (adj_rib_in s). range_ok (nlri (snd x)))
     \<and> (\<forall>p \<in> set (thread_q s). current_rx p = of_nat (rib_count (p_bgp_id p) (adj_rib_in s)))"

text \<open>
  What the neighbours have to respect: their router ids are not 0 once the session has an OPEN,
  no two have the same, and a neighbour does not change its id while it has routes in the RIB.
\<close>

definition router_ids :: "bgp \<Rightarrow> bgp \<Rightarrow> bool" where
  "router_ids s s' \<longleftrightarrow>
     ids_unique (thread_q s')
     \<and> (\<forall>p \<in> set (thread_q s'). state p \<in> {Openconfirm, Established} \<longrightarrow> p_bgp_id p \<noteq> 0)
     \<and> (\<forall>k < length (thread_q s). p_bgp_id (thread_q s' ! k) \<noteq> p_bgp_id (thread_q s ! k) \<longrightarrow>
          rib_count (p_bgp_id (thread_q s ! k)) (adj_rib_in s) = 0)"

lemma ids_uniqueD:
  "ids_unique q \<Longrightarrow> i < length q \<Longrightarrow> j < length q \<Longrightarrow> p_bgp_id (q ! i) = p_bgp_id (q ! j) \<Longrightarrow>
     p_bgp_id (q ! i) \<noteq> 0 \<Longrightarrow> i = j"
  by (auto simp: ids_unique_def)

lemma get_peer_unique:
  assumes "ids_unique q" and "k < length q" and "p_bgp_id (q ! k) \<noteq> 0"
  shows "get_peer_by_bgp_id (p_bgp_id (q ! k)) q = Some k"
proof (cases "get_peer_by_bgp_id (p_bgp_id (q ! k)) q")
  case None
  from by_id.look_None [OF None _ assms(2)] show ?thesis by simp
next
  case (Some j)
  from by_id.look_Some [OF this] assms show ?thesis by (auto simp: Some ids_unique_def)
qed

lemma rib_count_absent: "(\<forall>x \<in> set r. snd (fst x) \<noteq> i) \<longleftrightarrow> rib_count i r = 0"
  by (auto simp: rib_count_def filter_empty_conv)

text \<open>A step that changes one neighbour and no route.\<close>

lemma core_inv_peer:
  assumes inv: "core_inv s" and ids: "router_ids s s'" and k: "k < length (thread_q s)"
    and s': "thread_q s' = (thread_q s)[k := p]" "adj_rib_in s' = adj_rib_in s"
      "set (adj_rib_in_q s') \<subseteq> set (adj_rib_in_q s) \<union> {u. queued_ok u}"
      "set (adj_rib_in_wdraw_q s') \<subseteq> set (adj_rib_in_wdraw_q s) \<union> {u. queued_ok u}"
    and p: "current_rx p = current_rx (thread_q s ! k)"
  shows "core_inv s'"
proof -
  let ?i = "p_bgp_id (thread_q s ! k)" and ?j = "p_bgp_id p" and ?r = "adj_rib_in s"
  have routes: "\<forall>x \<in> set ?r. snd (fst x) \<noteq> 0 \<and> has_id (thread_q s) (snd (fst x))"
    and cnt: "\<forall>p \<in> set (thread_q s). current_rx p = of_nat (rib_count (p_bgp_id p) ?r)"
    using inv by (simp_all add: core_inv_def)
  have old: "?j \<noteq> ?i \<Longrightarrow> rib_count ?i ?r = 0"
    using ids k s'(1) by (auto simp: router_ids_def)
  have new: "rib_count ?j ?r = 0" if "?j \<noteq> ?i"
  proof (rule rib_count_absent [THEN iffD1], rule ballI, rule notI)
    fix x assume x: "x \<in> set ?r" "snd (fst x) = ?j"
    with routes obtain m where m: "m < length (thread_q s)" "p_bgp_id (thread_q s ! m) = ?j" "?j \<noteq> 0"
      by (auto simp: has_id_def)
    then have "m \<noteq> k" using that by auto
    moreover have "ids_unique ((thread_q s)[k := p])" using ids s'(1) by (simp add: router_ids_def)
    ultimately show False using ids_uniqueD [of "(thread_q s)[k := p]" m k] m k by simp
  qed
  have "has_id ((thread_q s)[k := p]) (snd (fst x))" if x: "x \<in> set ?r" for x
  proof -
    from routes x obtain m where m: "m < length (thread_q s)" "p_bgp_id (thread_q s ! m) = snd (fst x)"
      by (auto simp: has_id_def)
    show ?thesis
    proof (cases "m = k \<and> ?j \<noteq> ?i")
      case True
      then have "rib_count (snd (fst x)) ?r = 0" using old m by simp
      with x show ?thesis using rib_count_absent by blast
    next
      case False
      with m have "p_bgp_id ((thread_q s)[k := p] ! m) = snd (fst x)" by (cases "m = k") auto
      with m show ?thesis unfolding has_id_def by (intro exI [of _ m]) simp
    qed
  qed
  moreover have "current_rx q = of_nat (rib_count (p_bgp_id q) ?r)" if "q \<in> set ((thread_q s)[k := p])" for q
  proof -
    from that consider "q = p" | "q \<in> set (thread_q s)" using set_update_subset_insert by fast
    then show ?thesis
    proof cases
      case 1
      have "current_rx (thread_q s ! k) = of_nat (rib_count ?i ?r)" using cnt k by simp
      with 1 p old new show ?thesis by (cases "?j = ?i") auto
    qed (use cnt in auto)
  qed
  ultimately show ?thesis
    using inv ids s' routes by (auto simp: core_inv_def router_ids_def)
qed

text \<open>The session code does not touch the prefix counters.\<close>

lemma tcp_read_prefixes: "tcp_read n p = (r, p') \<Longrightarrow> prefixes p' = prefixes p"
  by (auto simp: tcp_read_def Let_def split: if_splits option.splits)

lemma snd_tcp_read_prefixes [simp]: "prefixes (snd (tcp_read n p)) = prefixes p"
  by (cases "tcp_read n p") (simp add: tcp_read_prefixes)

lemma reject_open_prefixes [simp]: "prefixes (reject_open now p sub) = prefixes p"
  by (simp add: reject_open_def notification_def disconnect_def)

lemma decode_open_prefixes: "decode_open b now p packet = Inr p' \<Longrightarrow> prefixes p' = prefixes p"
  by (auto simp: decode_open_def rbind_eq_Inr Let_def split: if_splits)

lemma handle_message_prefixes: "handle_message b now junk ty payload p = Inr (p', ls) \<Longrightarrow> prefixes p' = prefixes p"
  by (auto simp: handle_message_def queue_update_def rbind_eq_Inr Let_def
      split: option.splits bgp_msg_type.splits if_splits dest!: decode_open_prefixes)

lemma established_step_prefixes: "established_step b now junk p = Inr (p', ls) \<Longrightarrow> prefixes p' = prefixes p"
  by (auto simp: established_step_def rbind_eq_Inr Let_def split: option.splits prod.splits if_splits
      dest!: tcp_read_prefixes handle_message_prefixes)

lemma hold_timer_prefixes: "hold_timer_expired now p = (e, p', ls) \<Longrightarrow> prefixes p' = prefixes p"
  by (auto simp: hold_timer_expired_def notification_def disconnect_def split: if_splits)

lemma connect_prefixes: "connect env p = (rc, p') \<Longrightarrow> prefixes p' = prefixes p"
  by (auto simp: connect_def Let_def split: option.splits if_splits prod.splits)

lemma drop_to_idle_prefixes [simp]: "prefixes (drop_to_idle ok p) = prefixes p"
  by (simp add: drop_to_idle_def disconnect_def)

lemma connect_attempt_prefixes: "connect_attempt a p = Inr p' \<Longrightarrow> prefixes p' = prefixes p"
  by (auto simp: connect_attempt_def rbind_eq_Inr Let_def set_bgp_rx_buffer_size_def set_bgp_tx_buffer_size_def
      set_tcp_rx_buffer_size_def set_tcp_tx_buffer_size_def disconnect_def
      split: prod.splits bool.splits dest!: connect_prefixes)

lemma send_open_prefixes [simp]: "prefixes (send_open b now p) = prefixes p"
  by (simp add: send_open_eq)

lemma current_rx_cong: "prefixes p = prefixes q \<Longrightarrow> current_rx p = current_rx q"
  by (simp add: current_rx_def)

lemmas session_prefixes =
  hold_timer_prefixes [THEN current_rx_cong] established_step_prefixes [THEN current_rx_cong]
  connect_attempt_prefixes [THEN current_rx_cong]

text \<open>A step that adds, replaces or removes one route.\<close>

lemma core_inv_route:
  assumes inv: "core_inv s" and k: "k < length (thread_q s)"
    and s': "thread_q s' = (thread_q s)[k := p]" "adj_rib_in s' = r"
      "set (adj_rib_in_q s') \<subseteq> set (adj_rib_in_q s)" "set (adj_rib_in_wdraw_q s') \<subseteq> set (adj_rib_in_wdraw_q s)"
    and r: "rib_inv r" "\<forall>x \<in> set r. x \<in> set (adj_rib_in s) \<or> (snd (fst x) = p_bgp_id p \<and> p_bgp_id p \<noteq> 0 \<and> range_ok (nlri (snd x)))"
    and p: "p_bgp_id p = p_bgp_id (thread_q s ! k)" "state p = state (thread_q s ! k)"
    and cnt: "current_rx p = of_nat (rib_count (p_bgp_id p) r)"
    and others: "\<And>i. i \<noteq> p_bgp_id p \<Longrightarrow> rib_count i r = rib_count i (adj_rib_in s)"
  shows "core_inv s'"
proof -
  have ids: "map p_bgp_id ((thread_q s)[k := p]) = map p_bgp_id (thread_q s)"
    using k p by (simp add: map_update list_update_same_conv)
  then have nth: "p_bgp_id ((thread_q s)[k := p] ! m) = p_bgp_id (thread_q s ! m)" if "m < length (thread_q s)" for m
    using that by (metis length_list_update nth_map)
  have uniq: "ids_unique (thread_q s)" using inv by (simp add: core_inv_def)
  then have uniq': "ids_unique ((thread_q s)[k := p])" by (auto simp: ids_unique_def nth)
  have has: "has_id ((thread_q s)[k := p]) i \<longleftrightarrow> has_id (thread_q s) i" for i
    by (auto simp: has_id_def nth)
  have st: "state q \<in> {Openconfirm, Established} \<longrightarrow> p_bgp_id q \<noteq> 0" if "q \<in> set ((thread_q s)[k := p])" for q
  proof -
    from that consider "q = p" | "q \<in> set (thread_q s)" using set_update_subset_insert by fast
    then show ?thesis using inv k p by cases (auto simp: core_inv_def)
  qed
  have cnt': "current_rx q = of_nat (rib_count (p_bgp_id q) r)" if q: "q \<in> set ((thread_q s)[k := p])" for q
  proof (cases "p_bgp_id q = p_bgp_id p")
    case True
    show ?thesis
    proof (cases "q = p")
      case False
      from q obtain m where m: "m < length (thread_q s)" "q = (thread_q s)[k := p] ! m"
        by (auto simp: in_set_conv_nth)
      with False k have "m \<noteq> k" by auto
      with m True ids_uniqueD [OF uniq, of m k] k p have "p_bgp_id p = 0" by auto
      moreover have "rib_count 0 r = 0"
        using r(2) inv \<open>p_bgp_id p = 0\<close> by (fastforce simp: core_inv_def simp flip: rib_count_absent)
      moreover have "current_rx q = of_nat (rib_count 0 (adj_rib_in s))" "rib_count 0 (adj_rib_in s) = 0"
        using inv m \<open>m \<noteq> k\<close> True \<open>p_bgp_id p = 0\<close> by (auto simp: core_inv_def simp flip: rib_count_absent)
      ultimately show ?thesis using True by simp
    qed (use cnt in simp)
  next
    case False
    then have "q \<in> set (thread_q s)" using q set_update_subset_insert by fast
    with inv False others show ?thesis by (auto simp: core_inv_def)
  qed
  have "\<forall>x \<in> set r. range_ok (nlri (snd x))"
    using r(2) inv by (auto simp: core_inv_def)
  moreover have "snd (fst x) \<noteq> 0 \<and> has_id (thread_q s) (snd (fst x))" if "x \<in> set r" for x
    using r(2) that inv k p unfolding core_inv_def has_id_def by metis
  ultimately show ?thesis using inv s' r(1) uniq' st cnt' has by (auto simp: core_inv_def)
qed

text \<open>A step that changes neither neighbours nor routes.\<close>

lemma core_inv_same:
  assumes "core_inv s" and "thread_q s' = thread_q s" and "adj_rib_in s' = adj_rib_in s"
    and "set (adj_rib_in_q s') \<subseteq> set (adj_rib_in_q s)"
    and "set (adj_rib_in_wdraw_q s') \<subseteq> set (adj_rib_in_wdraw_q s)"
  shows "core_inv s'"
  using assms by (auto simp: core_inv_def)

lemma set_rib_assign: "set (map_assign rib_sort k v r) \<subseteq> insert (k, v) (set r)"
  using set_map_assign_subset [of rib_sort k v r] rib.total by blast

lemma core_inv_peer_entry:
  assumes inv: "core_inv s" and u: "queued_ok u" and run: "peer_entry now u s = Inr s'"
  shows "core_inv s'"
proof (cases "get_peer_by_bgp_id (nlri_bgp_id (nlri u)) (thread_q s)")
  case None
  obtain d where d: "dump_update now Nlri_update u s = Inr (s\<lparr>dumper := d\<rparr>)"
    using peer_entry_dumped [OF run] by blast
  with run peer_entry_unknown [OF None d] show ?thesis by (intro core_inv_same [OF inv]) auto
next
  case (Some k)
  obtain d where d: "dump_update now Nlri_update u s = Inr (s\<lparr>dumper := d\<rparr>)"
    using peer_entry_dumped [OF run] by blast
  let ?known = "map_find rib_sort (rib_key u) (adj_rib_in s) \<noteq> None"
  let ?p = "count_entry ?known (thread_q s ! k)"
  let ?r = "map_assign rib_sort (rib_key u) (copy_update u) (adj_rib_in s)"
  have rinv: "rib_inv (adj_rib_in s)" using inv by (simp add: core_inv_def)
  have k: "k < length (thread_q s)" "p_bgp_id (thread_q s ! k) = nlri_bgp_id (nlri u)"
    using by_id.look_Some [OF Some] by auto
  obtain db where "s' = (set_peer k ?p (s\<lparr>dumper := d, database := db\<rparr>))\<lparr>adj_rib_in := ?r\<rparr>"
    using peer_entry_known [OF rinv Some d] run by auto
  moreover have "rib_inv ?r"
    using rib_inv_assign [OF rinv, of "copy_update u"] u by (simp add: queued_ok_def)
  moreover have "\<forall>x \<in> set ?r. x \<in> set (adj_rib_in s) \<or> (snd (fst x) = p_bgp_id ?p \<and> p_bgp_id ?p \<noteq> 0 \<and> range_ok (nlri (snd x)))"
    using set_rib_assign [of "rib_key u" "copy_update u" "adj_rib_in s"] k u by (auto simp: queued_ok_def)
  moreover have "current_rx ?p = of_nat (rib_count (p_bgp_id ?p) ?r)"
    using inv k by (auto simp: core_inv_def rib_count_assign)
  moreover have "rib_count i ?r = rib_count i (adj_rib_in s)" if "i \<noteq> p_bgp_id ?p" for i
    using that k rinv by (simp add: rib_count_assign)
  ultimately show ?thesis by (intro core_inv_route [OF inv k(1), of s' ?p ?r]) auto
qed

lemma peer_entry_defined:
  assumes "core_inv s" and "\<not> dumper_on_off s"
  shows "\<exists>s'. peer_entry now u s = Inr s' \<and> \<not> dumper_on_off s'"
proof (cases "get_peer_by_bgp_id (nlri_bgp_id (nlri u)) (thread_q s)")
  case (Some k)
  have "rib_inv (adj_rib_in s)" using assms by (simp add: core_inv_def)
  moreover have "dump_update now Nlri_update u s = Inr (s\<lparr>dumper := dumper s\<rparr>)"
    using assms(2) by (simp add: dump_update_def)
  ultimately obtain db where "peer_entry now u s =
    Inr ((set_peer k (count_entry (map_find rib_sort (rib_key u) (adj_rib_in s) \<noteq> None) (thread_q s ! k))
           (s\<lparr>dumper := dumper s, database := db\<rparr>))
         \<lparr>adj_rib_in := map_assign rib_sort (rib_key u) (copy_update u) (adj_rib_in s)\<rparr>)"
    by (rule peer_entry_known [OF _ Some])
  with assms(2) show ?thesis by (simp add: set_peer_def)
qed (use assms(2) in \<open>simp add: peer_entry_def dump_update_def Let_def\<close>)

lemma get_peer_of_route:
  assumes "core_inv s" and "map_find rib_sort key (adj_rib_in s) = Some it"
  obtains k where "get_peer_by_bgp_id (snd key) (thread_q s) = Some k" and "snd key \<noteq> 0"
proof -
  have rinv: "rib_inv (adj_rib_in s)" using assms(1) by (simp add: core_inv_def)
  from assms(2) have "(key, it) \<in> set (adj_rib_in s)"
    using rib.find_iff_mem [OF rib_inv_sorted [OF rinv]] by simp
  with assms(1) obtain k where "k < length (thread_q s)" "p_bgp_id (thread_q s ! k) = snd key" "snd key \<noteq> 0"
    unfolding core_inv_def has_id_def by fastforce
  with get_peer_unique [of "thread_q s" k] assms(1) that show thesis by (simp add: core_inv_def)
qed

lemma core_inv_withdraw:
  assumes inv: "core_inv s" and run: "withdraw now u s = Inr s'"
  shows "core_inv s'"
proof (cases "map_find rib_sort (rib_key u) (adj_rib_in s)")
  case None
  with withdraw_absent [OF None, of now] run inv show ?thesis by simp
next
  case (Some it)
  then obtain k where get: "get_peer_by_bgp_id (nlri_bgp_id (nlri u)) (thread_q s) = Some k"
    using get_peer_of_route [OF inv Some] by auto
  obtain d where d: "dump_update now Nlri_withdraw it s = Inr (s\<lparr>dumper := d\<rparr>)"
    using withdraw_dumped [OF run Some] by blast
  let ?p = "count_withdraw (thread_q s ! k)" and ?r = "map_erase rib_sort (rib_key u) (adj_rib_in s)"
  let ?s = "(set_peer k ?p (s\<lparr>dumper := d\<rparr>))\<lparr>adj_rib_in := ?r\<rparr>"
  have rinv: "rib_inv (adj_rib_in s)" using inv by (simp add: core_inv_def)
  have k: "k < length (thread_q s)" "p_bgp_id (thread_q s ! k) = nlri_bgp_id (nlri u)"
    using by_id.look_Some [OF get] by auto
  have some: "map_find rib_sort (rib_key u) (adj_rib_in s) \<noteq> None" using Some by simp
  have "current_rx ?p = of_nat (rib_count (p_bgp_id ?p) ?r)"
  proof -
    have "current_rx (thread_q s ! k) = of_nat (rib_count (p_bgp_id ?p) (adj_rib_in s))"
      using inv k by (simp add: core_inv_def)
    with rib_count_erase [OF rinv some, of "p_bgp_id ?p"] k show ?thesis by simp
  qed
  moreover have "rib_count i ?r = rib_count i (adj_rib_in s)" if "i \<noteq> p_bgp_id ?p" for i
    using rib_count_erase [OF rinv some, of i] that k by simp
  moreover have "set ?r \<subseteq> set (adj_rib_in s)"
    using rib.set_erase [OF rib_inv_sorted [OF rinv]] by auto
  ultimately have "core_inv ?s"
    using rib_inv_erase [OF rinv] by (intro core_inv_route [OF inv k(1), of ?s ?p ?r]) auto
  with withdraw_present [OF Some get d] run show ?thesis by simp
qed

lemma withdraw_defined:
  assumes "core_inv s" and "\<not> dumper_on_off s"
  shows "\<exists>s'. withdraw now u s = Inr s' \<and> \<not> dumper_on_off s'"
proof (cases "map_find rib_sort (rib_key u) (adj_rib_in s)")
  case (Some it)
  then obtain k where "get_peer_by_bgp_id (nlri_bgp_id (nlri u)) (thread_q s) = Some k"
    using get_peer_of_route [OF assms(1) Some] by auto
  with Some assms(2) show ?thesis by (simp add: withdraw_def dump_update_def set_peer_def)
qed (use assms(2) in \<open>simp add: withdraw_def\<close>)

lemma core_inv_flush_one:
  assumes inv: "core_inv s" and k: "k < length (thread_q s)" and run: "flush_one k s = (True, s')"
  shows "core_inv s'"
proof -
  let ?p = "add_current_rx (-1) (thread_q s ! k)"
  have rinv: "rib_inv (adj_rib_in s)" using inv by (simp add: core_inv_def)
  obtain r where r: "s' = set_peer k ?p (s\<lparr>adj_rib_in := r\<rparr>)" "rib_inv r"
    "rib_count (p_bgp_id (thread_q s ! k)) (adj_rib_in s) = Suc (rib_count (p_bgp_id (thread_q s ! k)) r)"
    "\<And>j. j \<noteq> p_bgp_id (thread_q s ! k) \<Longrightarrow> rib_count j r = rib_count j (adj_rib_in s)"
    "set r \<subseteq> set (adj_rib_in s)"
    by (rule flush_one_True [OF rinv run]) (rule that)
  have "current_rx (thread_q s ! k) = of_nat (rib_count (p_bgp_id (thread_q s ! k)) (adj_rib_in s))"
    using inv k by (simp add: core_inv_def)
  with r show ?thesis by (intro core_inv_route [OF inv k, of s' ?p r]) auto
qed

lemma core_inv_in_q_pop:
  assumes inv: "core_inv s" and ids: "router_ids s s'" and k: "k < length (thread_q s)"
    and up: "state (thread_q s ! k) = Established" and run: "in_q_pop now k q s = Inr s'"
  shows "core_inv s'"
proof -
  let ?p = "thread_q s ! k"
  have id: "p_bgp_id ?p \<noteq> 0" using inv k up by (auto simp: core_inv_def)
  from run obtain us ws where pk: "proc_packet now (p_bgp_id ?p) q = Inr (us, ws)"
    and s': "s' = (set_peer k (?p\<lparr>in_queue := tl (in_queue ?p), in_q := in_q ?p - 1\<rparr>) s)
        \<lparr>adj_rib_in_q := adj_rib_in_q s @ us, adj_rib_in_wdraw_q := adj_rib_in_wdraw_q s @ ws\<rparr>"
    by (auto simp: in_q_pop_def Let_def rbind_eq_Inr)
  have "queued_ok u" if "u \<in> set us \<union> set ws" for u
    using proc_packet_pushed [OF pk] that id by (auto simp: queued_ok_def nlri_ok_def range_ok_def)
  with s' show ?thesis
    by (intro core_inv_peer [OF inv ids k, where p = "?p\<lparr>in_queue := tl (in_queue ?p), in_q := in_q ?p - 1\<rparr>"])
      (auto simp: current_rx_def)
qed

lemma in_set_tlD: "x \<in> set (tl xs) \<Longrightarrow> x \<in> set xs"
  by (cases xs) auto

text \<open>Every action of every thread keeps the invariant.\<close>

lemma core_inv_step:
  assumes "bgp_step s s'" and "router_ids s s'" and "core_inv s"
  shows "core_inv s'"
  using assms
proof (induction rule: bgp_step.induct)
  case (step_timer k s now e p ls)
  show ?case
    using step_timer session_prefixes(1) [OF step_timer.hyps(2)]
    by - (rule core_inv_peer [of s _ k p], auto)
next
  case (step_in_q k s q qs now s')
  then show ?case by (blast intro: core_inv_in_q_pop)
next
  case (step_rib_in s u us now s')
  then obtain s1 where s1: "peer_entry now u s = Inr s1"
    "s' = s1\<lparr>adj_rib_in_q := tl (adj_rib_in_q s1), table_version := table_version s1 + 1\<rparr>"
    by (auto simp: rib_in_pop_def rbind_eq_Inr)
  have "queued_ok u" using step_rib_in by (simp add: core_inv_def)
  with core_inv_peer_entry [OF step_rib_in.prems(2) _ s1(1)] s1(2) show ?case
    by - (rule core_inv_same [of s1], auto dest: in_set_tlD)
next
  case (step_rib_wdraw s u us now s')
  then obtain s1 where s1: "withdraw now u s = Inr s1"
    "s' = s1\<lparr>adj_rib_in_wdraw_q := tl (adj_rib_in_wdraw_q s1), table_version := table_version s1 + 1\<rparr>"
    by (auto simp: rib_wdraw_pop_def rbind_eq_Inr)
  with core_inv_withdraw [OF step_rib_wdraw.prems(2) s1(1)] show ?case
    by - (rule core_inv_same [of s1], auto dest: in_set_tlD)
next
  case (step_recv k s now junk s')
  then obtain p ls where "established_step s now junk (thread_q s ! k) = Inr (p, ls)" "s' = add_log ls (set_peer k p s)"
    by (auto simp: session_recv_def rbind_eq_Inr)
  with step_recv session_prefixes(2) [OF this(1)] show ?case
    by - (rule core_inv_peer [of s _ k p], auto)
next
  case (step_flush k s s')
  then show ?case by (blast intro: core_inv_flush_one)
next
  case (step_end k s)
  then show ?case
    by - (rule core_inv_peer [of s _ k "(disconnect (thread_q s ! k))\<lparr>up_since := 0, in_queue := [], out_queue := []\<rparr>"], auto simp: current_rx_def disconnect_def)
next
  case (step_attempt k s a s')
  then obtain p where "connect_attempt a ((thread_q s ! k)\<lparr>state := Idle\<rparr>) = Inr p" "s' = set_peer k p s"
    by (auto simp: session_attempt_def rbind_eq_Inr)
  with step_attempt session_prefixes(3) [OF this(1)] show ?case
    by - (rule core_inv_peer [of s _ k p], auto simp: current_rx_def)
next
  case (step_open k s now)
  then show ?case
    by - (rule core_inv_peer [of s _ k "send_open s now (thread_q s ! k)"], auto simp: session_open_def current_rx_def)
next
  case (step_neighbor s bip params)
  have "current_rx (copy_peer bip params) = 0" "p_bgp_id (copy_peer bip params) = 0"
    by (simp_all add: copy_peer_def new_peer_def current_rx_def bgp_peer.defs tcp_client.defs
        zero_counter_def zero_current_def)
  moreover have "rib_count 0 (adj_rib_in s) = 0"
    using step_neighbor.prems(2) by (auto simp: core_inv_def simp flip: rib_count_absent)
  moreover have "has_id (thread_q s @ [copy_peer bip params]) i" if "has_id (thread_q s) i" for i
    using that unfolding has_id_def by (metis length_append_singleton less_SucI nth_append)
  ultimately show ?case
    using step_neighbor.prems by (auto simp: core_inv_def router_ids_def neighbor_start_def start_peer_def)
next
  case (step_alias k s code v new p)
  then show ?case
    by - (rule core_inv_peer [of s _ k p], auto simp: current_rx_def dest!: set_translation_keeps)
next
  case (step_rx_buffer k s b a)
  then show ?case
    by - (rule core_inv_peer [of s _ k "(thread_q s ! k)\<lparr>tcp_rx_socket_buffer_size := a, bgp_rx_buffer_size := b\<rparr>"],
        auto simp: current_rx_def)
next
  case (step_tx_buffer k s b a)
  then show ?case
    by - (rule core_inv_peer [of s _ k "(thread_q s ! k)\<lparr>tcp_tx_socket_buffer_size := a, bgp_tx_buffer_size := b\<rparr>"],
        auto simp: current_rx_def)
qed (auto intro: core_inv_same simp: set_id_def)

text \<open>
  The states the threads can reach from a state, in any interleaving, with neighbours that
  respect \<open>router_ids\<close>.
\<close>

inductive bgp_run :: "bgp \<Rightarrow> bgp \<Rightarrow> bool" for s0 :: bgp where
  run_start: "bgp_run s0 s0"
| run_step: "bgp_run s0 s \<Longrightarrow> bgp_step s s' \<Longrightarrow> router_ids s s' \<Longrightarrow> bgp_run s0 s'"

lemma core_inv_run: "bgp_run s0 s \<Longrightarrow> core_inv s0 \<Longrightarrow> core_inv s"
  by (induction rule: bgp_run.induct) (auto intro: core_inv_step)

lemma core_inv_new: "core_inv (new_bgp ok as)"
  by (simp add: core_inv_def new_bgp_def ids_unique_def)

text \<open>
  C4: in every state that the threads of the program can reach from the start, in any
  interleaving, with neighbours whose router ids are distinct, not 0 once a session is open,
  and kept while the neighbour has routes, the RIB is ordered and well formed, every route in it belongs to a configured
  neighbour and carries the highest address of its prefix, and the number of current prefixes each neighbour is shown with is the number of
  routes the RIB has from it.
\<close>

theorem reachable_counts:
  assumes "bgp_run (new_bgp ok as) s"
  shows "rib_inv (adj_rib_in s)
    \<and> (\<forall>x \<in> set (adj_rib_in s). \<exists>p \<in> set (thread_q s). p_bgp_id p = snd (fst x))
    \<and> (\<forall>x \<in> set (adj_rib_in s). range_ok (nlri (snd x)))
    \<and> (\<forall>p \<in> set (thread_q s). current_rx p = of_nat (rib_count (p_bgp_id p) (adj_rib_in s)))"
proof -
  have inv: "core_inv s" using core_inv_run [OF assms core_inv_new] .
  then have "\<exists>p \<in> set (thread_q s). p_bgp_id p = snd (fst x)" if "x \<in> set (adj_rib_in s)" for x
    using that unfolding core_inv_def has_id_def by (metis nth_mem)
  with inv show ?thesis by (simp add: core_inv_def)
qed

lemma run_neighbor: "bgp_run (new_bgp ok as) (neighbor_start bip params (new_bgp ok as))"
  by (rule run_step [OF run_start step_neighbor])
    (simp add: router_ids_def neighbor_start_def start_peer_def new_bgp_def ids_unique_def copy_peer_def
      new_peer_def bgp_peer.defs tcp_client.defs)

lemma rib_in_loop_defined:
  "core_inv s \<Longrightarrow> \<not> dumper_on_off s \<Longrightarrow> \<forall>u \<in> set us. queued_ok u \<Longrightarrow> \<exists>t. rib_in_loop now us s = Inr t"
proof (induction us arbitrary: s)
  case (Cons u us)
  obtain s1 where s1: "peer_entry now u s = Inr s1" "\<not> dumper_on_off s1"
    using Cons.prems peer_entry_defined by blast
  let ?s = "s1\<lparr>adj_rib_in_q := tl (adj_rib_in_q s1), table_version := table_version s1 + 1\<rparr>"
  have "core_inv s1" using core_inv_peer_entry [OF Cons.prems(1) _ s1(1)] Cons.prems(3) by simp
  then have "core_inv ?s" by (rule core_inv_same) (auto dest: in_set_tlD)
  from Cons.IH [OF this] Cons.prems(3) s1 show ?case by (simp add: rib_in_pop_def)
qed simp

lemma rib_wdraw_loop_defined:
  "core_inv s \<Longrightarrow> \<not> dumper_on_off s \<Longrightarrow> \<exists>t. rib_wdraw_loop now us s = Inr t"
proof (induction us arbitrary: s)
  case (Cons u us)
  obtain s1 where s1: "withdraw now u s = Inr s1" "\<not> dumper_on_off s1"
    using Cons.prems withdraw_defined by blast
  let ?s = "s1\<lparr>adj_rib_in_wdraw_q := tl (adj_rib_in_wdraw_q s1), table_version := table_version s1 + 1\<rparr>"
  have "core_inv ?s" using core_inv_withdraw [OF Cons.prems(1) s1(1)] by (rule core_inv_same) (auto dest: in_set_tlD)
  from Cons.IH [OF this] s1 show ?case by (simp add: rib_wdraw_pop_def)
qed simp

lemma dump_update_queues:
  "dump_update now flag u s = Inr s' \<Longrightarrow> adj_rib_in_q s' = adj_rib_in_q s \<and> adj_rib_in_wdraw_q s' = adj_rib_in_wdraw_q s"
  by (auto simp: dump_update_def rbind_eq_Inr split: if_splits)

lemma peer_entry_queues: "peer_entry now u s = Inr s' \<Longrightarrow> adj_rib_in_q s' = adj_rib_in_q s"
  by (auto simp: peer_entry_def Let_def rbind_eq_Inr split_beta dest!: dump_update_queues split: option.splits)

lemma withdraw_queues: "withdraw now u s = Inr s' \<Longrightarrow> adj_rib_in_wdraw_q s' = adj_rib_in_wdraw_q s"
  by (auto simp: withdraw_def rbind_eq_Inr dest!: dump_update_queues split: option.splits)

text \<open>A loop over a queue takes off what it was given.\<close>

lemma rib_in_loop_drains:
  "rib_in_loop now us s = Inr s' \<Longrightarrow> adj_rib_in_q s' = drop (length us) (adj_rib_in_q s)"
  by (induction us arbitrary: s) (auto simp: rib_in_pop_def rbind_eq_Inr drop_Suc dest: peer_entry_queues)

lemma rib_wdraw_loop_drains:
  "rib_wdraw_loop now us s = Inr s' \<Longrightarrow> adj_rib_in_wdraw_q s' = drop (length us) (adj_rib_in_wdraw_q s)"
  by (induction us arbitrary: s) (auto simp: rib_wdraw_pop_def rbind_eq_Inr drop_Suc dest: withdraw_queues)


end
