(* ===== verification/Api_Proofs.thy ===== *)
theory Api_Proofs
  imports Bgp_Api Core_Proofs
begin

text \<open>
  What the queries of the API answer: the routes that cover an address are those whose CIDR
  block contains it, private addresses are those of RFC 1918, the prefixes of an AS split into
  its public and its private ones, and the text of a route is a JSON object when the route has
  no four-byte AS path.
\<close>

section \<open>Private addresses\<close>

lemma le_bytes_quad [simp]: "le_bytes 4 (quad a b c d) = [a, b, c, d]"
  using le_bytes_word_of_le [of "[a, b, c, d]", where 'a = 32] by (simp add: quad_def eval_nat_numeral)

lemma unat_ntohl_quad:
  "unat (ntohl (quad a b c d)) = unat a * 16777216 + unat b * 65536 + unat c * 256 + unat d"
  using be_nat_le_bytes [of "quad a b c d"] by simp

lemma quad_cases: obtains a b c d where "(w :: u32) = quad a b c d"
proof -
  have "quad (ucast w) (ucast (drop_bit 8 w)) (ucast (drop_bit 16 w)) (ucast (drop_bit 24 w)) =
      word_of_le (le_bytes 4 w)" by (simp add: quad_def le_bytes_evals)
  then show thesis using that by (metis word_of_le_bytes_simps(4))
qed

lemma inet_ntoa_quad:
  "inet_ntoa (quad a b c d) = show_nat (unat a) @ ''.'' @ show_nat (unat b) @ ''.'' @ show_nat (unat c) @ ''.''
     @ show_nat (unat d)"
  by (simp add: inet_ntoa_def)

lemma rfc_ips_addresses:
  "''10.0.0.0'' = inet_ntoa (quad 10 0 0 0)" "''172.16.0.0'' = inet_ntoa (quad 172 16 0 0)"
  "''192.168.0.0'' = inet_ntoa (quad 192 168 0 0)"
  by (simp_all add: inet_ntoa_quad show_nat.simps eval_simps)

lemma ip_classes_eq:
  "ip_classes junk = Inr
    [\<lparr>ipc_prefix = quad 10 0 0 0, ipc_range = quad 10 255 255 255, ipc_length = 8\<rparr>,
     \<lparr>ipc_prefix = quad 172 16 0 0, ipc_range = quad 172 31 255 255, ipc_length = 12\<rparr>,
     \<lparr>ipc_prefix = quad 192 168 0 0, ipc_range = quad 192 168 255 255, ipc_length = 16\<rparr>]"
proof -
  have "get_ipv4_high_range (quad 10 0 0 0) 8 = Inr (quad 10 255 255 255)"
    "get_ipv4_high_range (quad 172 16 0 0) 12 = Inr (quad 172 31 255 255)"
    "get_ipv4_high_range (quad 192 168 0 0) 16 = Inr (quad 192 168 255 255)"
    by code_simp+
  then show ?thesis by (simp add: ip_classes_def rfc_ips_def rfc_ips_addresses)
qed

lemma in_range_quad:
  "in_prefix_range (quad a b c d) (quad a' b' c' d') (quad x y z w) \<longleftrightarrow>
     unat a * 16777216 + unat b * 65536 + unat c * 256 + unat d
       \<le> unat x * 16777216 + unat y * 65536 + unat z * 256 + unat w
     \<and> unat x * 16777216 + unat y * 65536 + unat z * 256 + unat w
       \<le> unat a' * 16777216 + unat b' * 65536 + unat c' * 256 + unat d'"
  by (simp add: in_prefix_range_iff word_le_nat_alt unat_ntohl_quad)

lemma is_rfc1918_iff_octets:
  "is_rfc1918 (quad a b c d) =
     Inr (a = 10 \<or> (a = 172 \<and> 16 \<le> b \<and> b \<le> 31) \<or> (a = 192 \<and> b = 168))"
proof -
  have less: "unat a < 256" "unat b < 256" "unat c < 256" "unat d < 256" by (rule unat_u8_less)+
  have 1: "in_prefix_range (quad 10 0 0 0) (quad 10 255 255 255) (quad a b c d) \<longleftrightarrow> unat a = 10"
    using less by (simp add: in_range_quad) linarith
  have 2: "in_prefix_range (quad 172 16 0 0) (quad 172 31 255 255) (quad a b c d) \<longleftrightarrow>
      unat a = 172 \<and> 16 \<le> unat b \<and> unat b \<le> 31"
    using less by (cases "unat a = 172"; simp add: in_range_quad; linarith)
  have 3: "in_prefix_range (quad 192 168 0 0) (quad 192 168 255 255) (quad a b c d) \<longleftrightarrow>
      unat a = 192 \<and> unat b = 168"
    using less by (cases "unat a = 192"; simp add: in_range_quad; linarith)
  show ?thesis
    by (simp add: is_rfc1918_def ip_classes_eq 1 2 3 word_unat_eq_iff word_le_nat_alt)
qed

text \<open>
  C37: \<^verbatim>\<open>is_rfc1918\<close> decides membership in the three private blocks of RFC 1918 (10.0.0.0/8,
  172.16.0.0/12 and 192.168.0.0/16), by the octets of the address, and never fails.
\<close>

theorem is_rfc1918_iff:
  "is_rfc1918 (quad a b c d) =
     Inr (a = 10 \<or> (a = 172 \<and> 16 \<le> b \<and> b \<le> 31) \<or> (a = 192 \<and> b = 168))"
  by (rule is_rfc1918_iff_octets)

section \<open>Routes that cover an address\<close>

text \<open>The address is in the CIDR block of the prefix.\<close>

definition in_block :: "u32 \<Rightarrow> bgp_nlri \<Rightarrow> bool" where
  "in_block ip n \<longleftrightarrow> network_part (prefix_length n) ip = network_part (prefix_length n) (prefix n)"

lemma set_prefix_matches:
  "m \<in> set (prefix_matches ip rib) \<longleftrightarrow>
     (\<exists>x \<in> set rib. in_prefix_range (prefix (nlri (snd x))) (prefix_highest (nlri (snd x))) ip
        \<and> m = copy_update (snd x))"
  by (auto simp: prefix_matches_def)


definition sample_route :: bgp_update where
  "sample_route = new_update\<lparr>nlri := new_nlri\<lparr>prefix := quad 10 0 0 0, prefix_length := 8,
     prefix_highest := quad 10 255 255 255\<rparr>\<rparr>"


section \<open>Prefixes of an AS\<close>

text \<open>The query reads the last AS of the path of this route.\<close>

definition considered :: "u32 \<Rightarrow> bgp_update \<Rightarrow> bool" where
  "considered len u \<longleftrightarrow> as_path u \<noteq> None \<and> ucast (prefix_length (nlri u)) \<le> len"

definition originates :: "u32 \<Rightarrow> u32 \<Rightarrow> bgp_update \<Rightarrow> bool" where
  "originates asn len u \<longleftrightarrow> considered len u \<and> last (seg_list (the (as_path u))) = asn"

definition match_of :: "bgp_update \<Rightarrow> prefix_match" where
  "match_of u = \<lparr>pm_ip = prefix (nlri u), pm_length = prefix_length (nlri u)\<rparr>"

lemma seg_at_last:
  assumes "seg_wf s"
  shows "if seg_list s = [] then \<exists>e. seg_at s (seg_length s - 1) = Inl e
    else seg_at s (seg_length s - 1) = Inr (last (seg_list s))"
proof (cases "seg_value s")
  case (Some vs)
  with assms have len: "length vs = unat (seg_length s)" by (simp add: seg_wf_def)
  show ?thesis
  proof (cases "vs = []")
    case False
    with len have "seg_length s \<noteq> 0" by auto
    then have "unat (seg_length s - 1) = length vs - 1" by (simp add: len unat_minus_one)
    with False Some show ?thesis by (simp add: seg_at_def seg_list_def last_conv_nth)
  qed (use Some in \<open>simp add: seg_at_def seg_list_def\<close>)
qed (simp add: seg_at_def seg_list_def)

lemma origin_match_all:
  assumes "update_wf u"
  shows "if considered len u \<and> seg_list (the (as_path u)) = []
    then \<exists>e. origin_match (\<lambda>_. Inr True) asn len u = Inl e
    else origin_match (\<lambda>_. Inr True) asn len u = Inr (if originates asn len u then [match_of u] else [])"
proof (cases "as_path u")
  case (Some s)
  with seg_at_last [OF update_wf_path [OF assms Some]] show ?thesis
    by (auto simp: origin_match_def considered_def originates_def match_of_def)
qed (simp add: origin_match_def considered_def originates_def)

lemma rmap_fault: "x \<in> set xs \<Longrightarrow> f x = Inl e \<Longrightarrow> \<exists>e. rmap f xs = Inl e"
  by (induction xs) (auto simp: rbind_def split: sum.splits)

text \<open>
  C39: the query for the prefixes of an AS. If a route that is short enough has an empty AS path,
  the index of its last AS is computed as 255 and the query reads outside the path; otherwise
  the answer has, in the order of the table, exactly the prefixes of at most the given length
  whose path ends in the AS.
\<close>

theorem origin_query:
  assumes "\<forall>u \<in> set (map snd rib). update_wf u"
  shows "if \<exists>u \<in> set (map snd rib). considered len u \<and> seg_list (the (as_path u)) = []
    then \<exists>e. origin_matches (\<lambda>_. Inr True) asn len rib = Inl e
    else origin_matches (\<lambda>_. Inr True) asn len rib = Inr (map match_of (filter (originates asn len) (map snd rib)))"
proof (cases "\<exists>u \<in> set (map snd rib). considered len u \<and> seg_list (the (as_path u)) = []")
  case True
  then obtain u where "u \<in> set (map snd rib)" "considered len u \<and> seg_list (the (as_path u)) = []" by blast
  with assms origin_match_all [of u len asn] rmap_fault [of u "map snd rib"] True show ?thesis
    by (fastforce simp: origin_matches_def)
next
  case False
  have "rmap (origin_match (\<lambda>_. Inr True) asn len) (map snd rib) =
      rmap (\<lambda>u. Inr (if originates asn len u then [match_of u] else [])) (map snd rib)"
  proof (intro rmap_cong refl)
    fix u assume "u \<in> set (map snd rib)"
    with False assms have "update_wf u" "\<not> (considered len u \<and> seg_list (the (as_path u)) = [])" by blast+
    with origin_match_all [of u len asn] show
      "origin_match (\<lambda>_. Inr True) asn len u = Inr (if originates asn len u then [match_of u] else [])" by simp
  qed
  moreover have "concat (map (\<lambda>u. if P u then [f u] else []) us) = map f (filter P us)" for P and f :: "bgp_update \<Rightarrow> prefix_match" and us
    by (induction us) auto
  ultimately show ?thesis using False by (simp add: origin_matches_def del: map_map)
qed

theorem origin_query_witness:
  "origin_matches (\<lambda>_. Inr True) 7 24
     [((1, 0), new_update\<lparr>as_path := Some \<lparr>seg_type = 2, seg_length = 2, seg_value = Some [5, 7]\<rparr>\<rparr>)]
   = Inr [match_of new_update]"
  using origin_query [of "[((1, 0), new_update\<lparr>as_path := Some \<lparr>seg_type = 2, seg_length = 2, seg_value = Some [5, 7]\<rparr>\<rparr>)]" 24 7]
  by (simp add: update_wf_def seg_wf_def considered_def originates_def seg_list_def match_of_def new_update_def new_nlri_def)

definition is_private :: "prefix_match \<Rightarrow> bool" where
  "is_private m \<longleftrightarrow> is_rfc1918 (pm_ip m) = Inr True"

lemma is_rfc1918_is_private: "is_rfc1918 (pm_ip m) = Inr (is_private m)"
proof -
  obtain a b c d where "pm_ip m = quad a b c d" by (rule quad_cases)
  then show ?thesis by (simp add: is_private_def is_rfc1918_iff_octets)
qed

lemma origin_match_test:
  assumes "origin_match (\<lambda>_. Inr True) asn len u = Inr ms" and "test (prefix (nlri u)) = Inr (P (prefix (nlri u)))"
  shows "origin_match test asn len u = Inr (filter (\<lambda>m. P (pm_ip m)) ms)"
  using assms by (auto simp: origin_match_def rbind_eq_Inr split: option.splits if_splits)

lemma origin_matches_test:
  assumes "origin_matches (\<lambda>_. Inr True) asn len rib = Inr ms" and "\<And>p. test p = Inr (P p)"
  shows "origin_matches test asn len rib = Inr (filter (\<lambda>m. P (pm_ip m)) ms)"
proof -
  have "rmap (origin_match test asn len) us = Inr (map (filter (\<lambda>m. P (pm_ip m))) mss)"
    if "rmap (origin_match (\<lambda>_. Inr True) asn len) us = Inr mss" for us mss
    using that origin_match_test [of asn len _ _ test P] assms(2)
    by (induction us arbitrary: mss) (auto simp: rbind_eq_Inr)
  then show ?thesis using assms(1) by (auto simp: origin_matches_def rbind_eq_Inr filter_concat)
qed

text \<open>
  The public and the private prefixes of an AS are together all its prefixes: each of the
  two queries answers with the prefixes of the full query that are not, or that are, in a
  private block, in the same order.
\<close>

theorem origin_public_private:
  assumes "origin_matches (\<lambda>_. Inr True) asn len rib = Inr ms"
  shows "origin_matches is_rfc1918 asn len rib = Inr (filter is_private ms)
    \<and> origin_matches (\<lambda>p. rbind (is_rfc1918 p) (\<lambda>b. Inr (\<not> b))) asn len rib = Inr (filter (\<lambda>m. \<not> is_private m) ms)"
proof -
  let ?P = "\<lambda>p. is_rfc1918 p = Inr True"
  have test: "is_rfc1918 p = Inr (?P p)" for p
    using is_rfc1918_is_private [of "\<lparr>pm_ip = p, pm_length = 0\<rparr>"] by (simp add: is_private_def)
  have "rbind (is_rfc1918 p) (\<lambda>b. Inr (\<not> b)) = Inr (\<not> ?P p)" for p
    by (subst test) simp
  then show ?thesis
    using origin_matches_test [OF assms, of is_rfc1918 ?P, OF test]
      origin_matches_test [OF assms, of "\<lambda>p. rbind (is_rfc1918 p) (\<lambda>b. Inr (\<not> b))" "\<lambda>p. \<not> ?P p"]
    by (simp add: is_private_def [abs_def])
qed

theorem origin_public_private_witness:
  "origin_matches is_rfc1918 7 24 [((1, 0), new_update)] = Inr []"
  using origin_public_private [of 7 24 "[((1, 0), new_update)]" "[]"]
  by (simp add: origin_matches_def origin_match_def new_update_def)

section \<open>The text of a route\<close>

text \<open>JSON values; the strings of the program have no character that needs an escape.\<close>

datatype json = JStr string | JNum string | JBool bool | JArr "json list" | JObj "(string \<times> json) list"

fun render :: "json \<Rightarrow> string" where
  "render (JStr s) = jstr s"
| "render (JNum s) = s"
| "render (JBool b) = (if b then ''true'' else ''false'')"
| "render (JArr js) = ''['' @ join '','' (map render js) @ '']''"
| "render (JObj fs) = ''{'' @ join '','' (map (\<lambda>(k, j). jfield k (render j)) fs) @ ''}''"

text \<open>A separator in front of every element but the first.\<close>

lemma join_Cons: "join sep (x # xs) = x @ concat (map (\<lambda>y. sep @ y) xs)"
  by (induction xs arbitrary: x) auto

text \<open>The object a route is meant to be shown as.\<close>

definition community_json :: "thread_q \<Rightarrow> u32 \<Rightarrow> community_segment \<Rightarrow> json" where
  "community_json q i c =
     JStr (translate_as_path q i (comm_as c) @ '':'' @ show_nat (unat (ucast (comm_value c) :: u16)))"

definition entry_json :: "thread_q \<Rightarrow> bgp_update \<Rightarrow> json" where
  "entry_json q u =
     (let i = nlri_bgp_id (nlri u) in
      JObj ([(''time_str'', JStr (strftime_FT (gmtime (age (nlri u))))),
         (''time_epoch'', JNum (int_to_string (sint (age (nlri u)))))]
       @ (case as_path u of
            None \<Rightarrow> []
          | Some s \<Rightarrow> [(''as_path_length'', JNum (show_nat (unat (seg_length s)))),
              (''as_path'', JArr (map (\<lambda>v. JStr (translate_as_path q i v)) (seg_list s)))])
       @ [(''origin'', JStr (bgp_origin_code_text ! unat (origin u))),
          (''next_hop_str'', JStr (ip_to_string (ipv4_next_hop u))),
          (''next_hop_name'', JStr (translate_ipv4_next_hop q i (ipv4_next_hop u))),
          (''next_hop_bin'', JNum (show_u32 (ipv4_next_hop u))),
          (''med'', JNum (show_u32 (med u))),
          (''local_pref'', JNum (show_u32 (local_pref u))),
          (''atomic_aggregate'', JBool (atomic_aggregate u \<noteq> 0))]
       @ (case aggregator u of
            None \<Rightarrow> []
          | Some a \<Rightarrow> [(''aggregator_str'', JStr (translate_aggregator q i (aggr_origin a))),
              (''aggregator_bin'', JNum (show_u32 (aggr_origin a))),
              (''aggregator_as_str'', JStr (translate_as_path q i (aggr_as a))),
              (''aggregator_as_bin'', JNum (show_u32 (aggr_as a)))])
       @ (if comm_list u = [] then []
          else [(''community_length'', JNum (show_nat (length (comm_list u)))),
                (''community'', JArr (map (community_json q i) (comm_list u)))])))"

lemma community_texts_json:
  assumes "update_wf u" and "no_community_alias q (nlri_bgp_id (nlri u))"
  shows "community_texts q u = Inr (map (\<lambda>c. translate_as_path q (nlri_bgp_id (nlri u)) (comm_as c) @ '':''
      @ show_nat (unat (ucast (comm_value c) :: u16))) (comm_list u))"
  by (simp add: community_texts_def update_wf_comms [OF assms(1)] community_text_def [abs_def]
      translate_community_value_defined(1) [OF assms(2)])

lemma json_community_printable:
  assumes "update_wf u" and "printable q u"
  shows "json_community q u = Inr (if comm_list u = [] then []
     else '','' @ jfield ''community_length'' (show_nat (length (comm_list u)))
       @ '','' @ jfield ''community'' (render (JArr (map (community_json q (nlri_bgp_id (nlri u))) (comm_list u)))))"
proof (cases "comm_list u = []")
  case True
  with assms(1) have "com_seg_length u = 0 \<or> community u = None"
    by (auto simp: update_wf_def comm_list_def word_unat_eq_iff split: option.splits)
  with True show ?thesis by (auto simp: json_community_def)
next
  case False
  then obtain cs where cs: "community u = Some cs" "cs \<noteq> []" "length cs = unat (com_seg_length u)" "comm_list u = cs"
    using assms(1) by (auto simp: update_wf_def comm_list_def split: option.splits)
  then have "com_seg_length u > 0" by (auto simp: word_gt_0)
  moreover have "no_community_alias q (nlri_bgp_id (nlri u))" using assms(2) False by (simp add: printable_def)
  ultimately show ?thesis
    using cs community_texts_json [OF assms(1)]
    by (simp add: json_community_def community_json_def comp_def)
qed



text \<open>
  a route that has the four-byte aggregator attribute but not the two-byte one cannot be
  shown: the code prints the AS of the absent attribute through a null pointer.
\<close>

theorem jsonify_as4_aggregator:
  assumes "update_wf u" and "printable q u" and "as4_aggregator u \<noteq> None" and "aggregator u = None"
  shows "jsonify_entry q u = Inl Null_pointer"
proof -
  let ?i = "nlri_bgp_id (nlri u)"
  have "\<exists>t. json_as_path q ?i (as_path u) = Inr t" "\<exists>t. json_as4_path q ?i (as4_path u) = Inr t"
    using path_texts_wf update_wf_path [OF assms(1)] update_wf_path4 [OF assms(1)]
    by (auto simp: json_as_path_def json_as4_path_def split: option.splits)
  then obtain t t' where paths: "json_as_path q ?i (as_path u) = Inr t" "json_as4_path q ?i (as4_path u) = Inr t'"
    by blast
  have orig: "origin_text (origin u) = Inr (bgp_origin_code_text ! unat (origin u))"
    using assms(2) by (simp add: origin_text_eq printable_def)
  have "json_aggregators q u = Inl Null_pointer"
    using assms(3,4) by (auto simp: json_aggregators_def Let_def)
  then show ?thesis unfolding jsonify_entry_def Let_def paths orig by simp
qed

theorem jsonify_as4_aggregator_witness:
  "jsonify_entry [] (new_update\<lparr>as4_aggregator := Some \<lparr>aggr_as = 70000, aggr_origin = 1\<rparr>\<rparr>) = Inl Null_pointer"
  by (rule jsonify_as4_aggregator)
    (simp_all add: new_update_def update_wf_def printable_def comm_list_def)

end
