(* ===== verification/Cmd_Parser.thy ===== *)
theory Cmd_Parser
  imports Libc "HOL-Library.Char_ord" "HOL-Library.List_Lexorder"
begin

text \<open>
  The command tree and its search: \<^verbatim>\<open>include/cli/bgp_cmdparser.h\<close>,
  \<^verbatim>\<open>include/cli/bgp_command_struct.h\<close> and \<^verbatim>\<open>cli/bgp_cmdparser.cpp\<close>. The functions a command
  points to are the constructors of \<open>cmd_func\<close>; the theory of the command line gives each its
  meaning.
\<close>

section \<open>The tree\<close>

datatype cmd_func =
    Api_get_prefix | Api_get_all_origin_as | Api_get_public_origin_as | Api_get_private_origin_as
  | Show | Show_bgp_prefix | Show_bgp_neighbors | Show_bgp_adj_rib_in | Show_bgp_adj_rib_wdrawn
  | Write_configs | Proto_bgp_toggle_update_dump | Proto_bgp_neighbor | Set_peer_logging
  | Proto_bgp_peer_rcv_buffer_size | Proto_bgp_peer_snd_buffer_size | Proto_bgp_peer_timers
  | Proto_bgp_peer_attribute | Proto_bgp_attribute_bgp_id | Proto_bgp_attribute_origin
  | Proto_bgp_attribute_aspath | Proto_bgp_attribute_nexthop | Proto_bgp_attribute_v4nexthop
  | Proto_bgp_attribute_med | Proto_bgp_attribute_localpref | Proto_bgp_attribute_atomicaggr
  | Proto_bgp_attribute_community | Set_bgp_id | Kill_all_signal

text \<open>\<^verbatim>\<open>struct COMMAND\<close>; the function of the entry that ends the table is null.\<close>

datatype COMMAND = COMMAND (cmd_name: string) (cmd_func: "cmd_func option") (sub_command: "COMMAND list")

text \<open>An entry without sub commands, and one with.\<close>

abbreviation (input) leaf :: "string \<Rightarrow> cmd_func \<Rightarrow> COMMAND" where
  "leaf n f \<equiv> COMMAND n (Some f) []"

abbreviation (input) node :: "string \<Rightarrow> cmd_func \<Rightarrow> COMMAND list \<Rightarrow> COMMAND" where
  "node n f cs \<equiv> COMMAND n (Some f) cs"

definition cmds_api_get :: COMMAND where
  "cmds_api_get = node ''api-get'' Api_get_prefix
     [node ''prefix'' Api_get_prefix [leaf ''<x.x.x.x>'' Api_get_prefix],
      node ''all-from-asn'' Api_get_all_origin_as
        [node ''<ASN>'' Api_get_all_origin_as [leaf ''<LENGTH>'' Api_get_all_origin_as]],
      node ''all-public-asn'' Api_get_public_origin_as
        [node ''<ASN>'' Api_get_public_origin_as [leaf ''<LENGTH>'' Api_get_public_origin_as]],
      node ''all-private-asn'' Api_get_private_origin_as
        [node ''<ASN>'' Api_get_private_origin_as [leaf ''<LENGTH>'' Api_get_private_origin_as]]]"

definition cmds_show :: COMMAND where
  "cmds_show = node ''show'' Show
     [node ''bgp'' Show
        [node ''ipv4'' Show_bgp_prefix [leaf ''<x.x.x.x>'' Show_bgp_prefix],
         leaf ''neighbors'' Show_bgp_neighbors,
         leaf ''adj-rib-in'' Show_bgp_adj_rib_in,
         leaf ''rib-withdrawn'' Show_bgp_adj_rib_wdrawn]]"

definition cmds_attribute :: COMMAND where
  "cmds_attribute = node ''attribute'' Proto_bgp_peer_attribute
     [node ''bgp-id'' Proto_bgp_attribute_bgp_id
        [node ''alias'' Proto_bgp_attribute_bgp_id [leaf ''<value>'' Proto_bgp_attribute_bgp_id]],
      node ''origin'' Proto_bgp_attribute_origin [leaf ''alias'' Proto_bgp_attribute_origin],
      node ''as-path'' Proto_bgp_attribute_aspath
        [node ''alias'' Proto_bgp_attribute_aspath
          [node ''<value>'' Proto_bgp_attribute_aspath [leaf ''<new value>'' Proto_bgp_attribute_aspath]]],
      node ''next-hop'' Proto_bgp_attribute_nexthop
        [node ''alias'' Proto_bgp_attribute_nexthop
          [node ''ipv4'' Proto_bgp_attribute_v4nexthop
            [node ''<x.x.x.x>'' Proto_bgp_attribute_v4nexthop [leaf ''<value>'' Proto_bgp_attribute_v4nexthop]],
           node ''ipv6'' Proto_bgp_attribute_v4nexthop
            [node ''<x:x:x:x:x:x:x:>'' Proto_bgp_attribute_v4nexthop [leaf ''<value>'' Proto_bgp_attribute_v4nexthop]]]],
      node ''med'' Proto_bgp_attribute_med
        [node ''alias'' Proto_bgp_attribute_med [leaf ''<value>'' Proto_bgp_attribute_med]],
      node ''local-pref'' Proto_bgp_attribute_localpref
        [node ''alias'' Proto_bgp_attribute_localpref [leaf ''<value>'' Proto_bgp_attribute_localpref]],
      node ''atomic-aggr'' Proto_bgp_attribute_atomicaggr
        [node ''alias'' Proto_bgp_attribute_atomicaggr [leaf ''boolean'' Proto_bgp_attribute_atomicaggr]],
      node ''community'' Proto_bgp_attribute_community
        [node ''alias'' Proto_bgp_attribute_community
          [node ''<0-65535>'' Proto_bgp_attribute_community [leaf ''<value>'' Proto_bgp_attribute_community]]]]"

definition cmds_neighbor :: COMMAND where
  "cmds_neighbor = node ''neighbor'' Proto_bgp_neighbor
     [node ''<x.x.x.x>'' Proto_bgp_neighbor
       [node ''logging'' Set_peer_logging
          [node ''host'' Set_peer_logging
            [node ''<x.x.x.x>'' Set_peer_logging [leaf ''<port>'' Set_peer_logging]]],
        node ''rx-buffer'' Proto_bgp_peer_rcv_buffer_size
          [node ''<512-131072>'' Proto_bgp_peer_rcv_buffer_size [leaf ''<512-131072>'' Proto_bgp_peer_rcv_buffer_size]],
        node ''tx-buffer'' Proto_bgp_peer_snd_buffer_size
          [node ''<512-131072>'' Proto_bgp_peer_snd_buffer_size [leaf ''<512-131072>'' Proto_bgp_peer_snd_buffer_size]],
        node ''remote-as'' Proto_bgp_neighbor [leaf ''<1-65535>'' Proto_bgp_neighbor],
        node ''timers'' Proto_bgp_peer_timers
          [node ''<0-65535>'' Proto_bgp_peer_timers [leaf ''<0-65535>'' Proto_bgp_peer_timers]],
        cmds_attribute]]"

definition cmds :: "COMMAND list" where
  "cmds =
     [cmds_api_get, cmds_show, leaf ''write'' Write_configs,
      node ''dumper'' Proto_bgp_toggle_update_dump
        [leaf ''on'' Proto_bgp_toggle_update_dump, leaf ''off'' Proto_bgp_toggle_update_dump],
      cmds_neighbor,
      node ''bgp-id'' Set_bgp_id [leaf ''<x.x.x.x>'' Set_bgp_id],
      leaf ''kill-all'' Kill_all_signal,
      COMMAND [] None []]"

section \<open>Sorting\<close>

definition compare_cmd :: "COMMAND \<Rightarrow> COMMAND \<Rightarrow> bool" where
  "compare_cmd a b \<longleftrightarrow> cmd_name a < cmd_name b"

text \<open>\<^verbatim>\<open>std::sort\<close> with this order; the names of a level differ, so the result is determined.\<close>

definition sort_cmds :: "COMMAND list \<Rightarrow> COMMAND list" where
  "sort_cmds = sort_key cmd_name"

lemma sort_cmds_sorted: "sorted_wrt (\<lambda>a b. \<not> compare_cmd b a) (sort_cmds cs)"
proof -
  have "sorted (map cmd_name (sort_cmds cs))" by (simp add: sort_cmds_def)
  then show ?thesis by (simp add: sorted_map compare_cmd_def not_less)
qed

lemma set_sort_cmds [simp]: "set (sort_cmds cs) = set cs" "sort_cmds cs = [] \<longleftrightarrow> cs = []"
  by (simp_all add: sort_cmds_def flip: set_empty)

lemma size_sub_command: "size_list size (sub_command c) < size c"
  by (cases c) simp

lemma size_last_sub:
  assumes "cs \<noteq> []"
  shows "size_list size (sub_command (last (sort_cmds cs))) < size_list size cs"
proof (rule size_list_estimation)
  have "sort_cmds cs \<noteq> []" using assms by simp
  then have "last (sort_cmds cs) \<in> set (sort_cmds cs)" by (rule last_in_set)
  then show "last (sort_cmds cs) \<in> set cs" by simp
qed (rule size_sub_command)

text \<open>
  The loop of \<^verbatim>\<open>CmdInit\<close> over the levels below a command: a level is sorted, and the next level is
  that of its last entry.
\<close>

function sort_levels :: "COMMAND list \<Rightarrow> COMMAND list" where
  "sort_levels cs =
     (if cs = [] then []
      else
        (let sorted = sort_cmds cs; c = last sorted
         in butlast sorted @ [COMMAND (cmd_name c) (cmd_func c) (sort_levels (sub_command c))]))"
  by pat_completeness auto
termination
  by (relation "measure (size_list size)") (auto simp: size_last_sub)

declare sort_levels.simps [simp del]

definition CmdInit :: "COMMAND list \<Rightarrow> COMMAND list" where
  "CmdInit table =
     sort_cmds (map (\<lambda>c. COMMAND (cmd_name c) (cmd_func c) (sort_levels (sub_command c)))
       (takeWhile (\<lambda>c. cmd_name c \<noteq> []) table))"

section \<open>Search\<close>

text \<open>\<^verbatim>\<open>!name.compare(0, cmd.length(), cmd)\<close>: a command may be abbreviated.\<close>

definition abbreviates :: "string \<Rightarrow> COMMAND \<Rightarrow> bool" where
  "abbreviates tok c \<longleftrightarrow> take (length tok) (cmd_name c) = tok"

text \<open>On the levels below, a name in angle brackets stands for any token.\<close>

definition sub_matches :: "string \<Rightarrow> COMMAND \<Rightarrow> bool" where
  "sub_matches tok c \<longleftrightarrow> abbreviates tok c \<or> (case cmd_name c of [] \<Rightarrow> False | ch # _ \<Rightarrow> ch = CHR ''<'')"

text \<open>The loop over the tokens after the first: a token that fits no sub command is passed over.\<close>

fun find_sub :: "COMMAND \<Rightarrow> string list \<Rightarrow> COMMAND" where
  "find_sub cur [] = cur"
| "find_sub cur (tok # toks) =
     (case find (sub_matches tok) (sub_command cur) of
        None \<Rightarrow> find_sub cur toks
      | Some c \<Rightarrow> find_sub c toks)"

text \<open>On the first level the last entry that fits is taken.\<close>

definition FindCommand :: "COMMAND list \<Rightarrow> string list \<Rightarrow> COMMAND option" where
  "FindCommand commands tokens =
     (case tokens of
        [] \<Rightarrow> None
      | tok # toks \<Rightarrow>
          (case find (abbreviates tok) (rev commands) of
             None \<Rightarrow> None
           | Some c \<Rightarrow> Some (find_sub c toks)))"

section \<open>Every command can be typed\<close>

text \<open>The words that lead from a command to one below it: names, or any word for a placeholder.\<close>

definition placeholder :: "COMMAND \<Rightarrow> bool" where
  "placeholder c \<longleftrightarrow> (case cmd_name c of [] \<Rightarrow> False | ch # _ \<Rightarrow> ch = CHR ''<'')"

inductive spells :: "COMMAND \<Rightarrow> string list \<Rightarrow> COMMAND \<Rightarrow> bool" where
  spells_here: "spells c [] c"
| spells_sub: "e \<in> set (sub_command c) \<Longrightarrow> tok = cmd_name e \<or> placeholder e \<Longrightarrow> spells e toks d \<Longrightarrow>
     spells c (tok # toks) d"

inductive_simps spells_Nil [simp]: "spells c [] d"
inductive_simps spells_Cons: "spells c (tok # toks) d"

code_pred spells .

text \<open>No name of a level is an abbreviation of another, and a placeholder is alone.\<close>

fun level_ok :: "COMMAND list \<Rightarrow> bool" where
  "level_ok [] \<longleftrightarrow> True"
| "level_ok (c # cs) \<longleftrightarrow>
     list_all (\<lambda>d. \<not> sub_matches (cmd_name c) d \<and> \<not> sub_matches (cmd_name d) c) cs \<and> level_ok cs"

fun tree_ok :: "COMMAND \<Rightarrow> bool" where
  "tree_ok (COMMAND n f cs) \<longleftrightarrow> level_ok cs \<and> list_all tree_ok cs"

lemma sub_matches_placeholder: "sub_matches tok c \<longleftrightarrow> abbreviates tok c \<or> placeholder c"
  by (simp add: sub_matches_def placeholder_def)

lemma abbreviates_self [simp]: "abbreviates (cmd_name c) c"
  by (simp add: abbreviates_def)

lemma level_okD:
  "level_ok cs \<Longrightarrow> e \<in> set cs \<Longrightarrow> d \<in> set cs \<Longrightarrow> d \<noteq> e \<Longrightarrow> \<not> sub_matches (cmd_name e) d"
  by (induction cs) (auto simp: list_all_iff)

lemma find_unique:
  assumes "e \<in> set cs" and "P e" and "\<forall>d \<in> set cs. P d \<longrightarrow> d = e"
  shows "find P cs = Some e"
proof (cases "find P cs")
  case None
  with assms(1,2) show ?thesis by (simp add: find_None_iff)
next
  case (Some d)
  then have "d \<in> set cs" "P d" by (auto simp: find_Some_iff)
  with assms(3) Some show ?thesis by simp
qed

lemma find_level:
  assumes "level_ok cs" and "e \<in> set cs" and "tok = cmd_name e \<or> placeholder e"
  shows "find (sub_matches tok) cs = Some e"
proof (rule find_unique [OF assms(2)])
  show "sub_matches tok e" using assms(3) by (auto simp: sub_matches_placeholder)
  show "\<forall>d \<in> set cs. sub_matches tok d \<longrightarrow> d = e"
  proof (intro ballI impI, rule ccontr)
    fix d assume d: "d \<in> set cs" "sub_matches tok d" "d \<noteq> e"
    have "\<not> placeholder e"
      using level_okD [OF assms(1) d(1) assms(2)] d(3) by (auto simp: sub_matches_placeholder)
    then show False using level_okD [OF assms(1,2) d(1)] d(2,3) assms(3) by auto
  qed
qed

lemma find_sub_spells: "spells c toks d \<Longrightarrow> tree_ok c \<Longrightarrow> find_sub c toks = d"
proof (induction rule: spells.induct)
  case (spells_sub e c tok toks d)
  then have "level_ok (sub_command c)" "tree_ok e" by (cases c; simp add: list_all_iff)+
  with spells_sub show ?case by (simp add: find_level [of _ e])
qed simp

text \<open>Sorting reorders the levels; what can be spelled stays.\<close>

definition sorted_command :: "COMMAND \<Rightarrow> COMMAND" where
  "sorted_command c = COMMAND (cmd_name c) (cmd_func c) (sort_levels (sub_command c))"

lemma sorted_command_sel [simp]:
  "cmd_name (sorted_command c) = cmd_name c" "cmd_func (sorted_command c) = cmd_func c"
  "sub_command (sorted_command c) = sort_levels (sub_command c)" "placeholder (sorted_command c) = placeholder c"
  by (simp_all add: sorted_command_def placeholder_def)

lemma in_sort_levels: "e \<in> set cs \<Longrightarrow> e \<in> set (sort_levels cs) \<or> sorted_command e \<in> set (sort_levels cs)"
proof -
  assume e: "e \<in> set cs"
  then have "e \<in> set (butlast (sort_cmds cs) @ [last (sort_cmds cs)])"
    by (metis append_butlast_last_id empty_iff set_empty set_sort_cmds(1))
  with e show ?thesis by (subst (1 2) sort_levels.simps) (auto simp: Let_def sorted_command_def)
qed

lemma spells_sorted:
  "spells c toks d \<Longrightarrow> \<exists>d'. spells (sorted_command c) toks d' \<and> cmd_name d' = cmd_name d \<and> cmd_func d' = cmd_func d"
proof (induction rule: spells.induct)
  case (spells_sub e c tok toks d)
  from in_sort_levels [OF spells_sub.hyps(1)] show ?case
  proof
    assume "e \<in> set (sort_levels (sub_command c))"
    with spells_sub show ?thesis by (auto simp: spells_Cons)
  next
    assume "sorted_command e \<in> set (sort_levels (sub_command c))"
    with spells_sub show ?thesis by (auto simp: spells_Cons) (metis sorted_command_sel(1,4))+
  qed
qed auto

lemma commands_ok: "level_ok (CmdInit cmds)" "list_all tree_ok (CmdInit cmds)"
  by code_simp+

lemma CmdInit_sorted: "CmdInit table = sort_cmds (map sorted_command (takeWhile (\<lambda>c. cmd_name c \<noteq> []) table))"
  by (simp add: CmdInit_def sorted_command_def [abs_def])

text \<open>A first word that is a name of the first level; no name there is a placeholder.\<close>

lemma find_root:
  assumes "level_ok cs" and "c \<in> set cs"
  shows "find (abbreviates (cmd_name c)) (rev cs) = Some c"
  using assms level_okD [OF assms(1,2)] by (intro find_unique) (auto simp: sub_matches_placeholder)

lemma in_commands: "c \<in> set cmds \<Longrightarrow> cmd_name c \<noteq> [] \<Longrightarrow> sorted_command c \<in> set (CmdInit cmds)"
  by (auto simp: CmdInit_sorted cmds_def cmds_api_get_def cmds_show_def cmds_neighbor_def)

lemma find_spelled:
  assumes "c \<in> set cmds" and "cmd_name c \<noteq> []" and "spells c toks d"
  shows "\<exists>d'. FindCommand (CmdInit cmds) (cmd_name c # toks) = Some d'
    \<and> cmd_name d' = cmd_name d \<and> cmd_func d' = cmd_func d"
proof -
  have c: "sorted_command c \<in> set (CmdInit cmds)" by (rule in_commands [OF assms(1,2)])
  then have "tree_ok (sorted_command c)" using commands_ok(2) by (simp add: list_all_iff)
  moreover from spells_sorted [OF assms(3)] obtain d' where
    d': "spells (sorted_command c) toks d'" "cmd_name d' = cmd_name d" "cmd_func d' = cmd_func d" by blast
  ultimately have "find_sub (sorted_command c) toks = d'" by (intro find_sub_spells)
  then show ?thesis using find_root [OF commands_ok(1) c] d' by (simp add: FindCommand_def)
qed

text \<open>
  C16: every command of the table can be typed: after the sorting of the tree, the words that spell
  a command, names in full and any word for a placeholder, find the command with that name and
  function. No command is hidden by another whose name it begins with, on any level.
\<close>

theorem FindCommand_spelled:
  assumes "c \<in> set cmds" and "cmd_name c \<noteq> []" and "spells c toks d"
  shows "\<exists>d'. FindCommand (CmdInit cmds) (cmd_name c # toks) = Some d'
    \<and> cmd_name d' = cmd_name d \<and> cmd_func d' = cmd_func d"
  using assms by (rule find_spelled)

lemma spells_step:
  "spells c (tok # toks) d \<longleftrightarrow> (\<exists>e \<in> set (sub_command c). (tok = cmd_name e \<or> placeholder e) \<and> spells e toks d)"
  by (auto simp: spells_Cons)

lemma spells_neighbor: "spells cmds_neighbor [t, ''remote-as'', n] (leaf ''<1-65535>'' Proto_bgp_neighbor)"
  by (simp add: spells_step cmds_neighbor_def placeholder_def)

theorem FindCommand_spelled_witness:
  "\<exists>d. FindCommand (CmdInit cmds) [''neighbor'', ''10.0.0.1'', ''remote-as'', ''65001''] = Some d
     \<and> cmd_func d = Some Proto_bgp_neighbor"
  using FindCommand_spelled [OF _ _ spells_neighbor [of "''10.0.0.1''" "''65001''"]]
  by (auto simp: cmds_def cmds_neighbor_def)

end
