(* ===== verification/Bgp_Cli.thy ===== *)
theory Bgp_Cli
  imports Bgp_Api Cmd_Parser
begin

text \<open>
  The commands of \<^verbatim>\<open>cli/bgp_cli.cpp\<close> and \<^verbatim>\<open>ExecuteLine\<close> of \<^verbatim>\<open>cli/bgp_cmdparser.cpp\<close>. A command
  takes the words of its line and the instance and gives the text for the client and the new
  instance; \<open>Inl\<close> is undefined behaviour, such as a word the line does not have, and \<open>None\<close> a
  command that does not return. What the operating system answers and what uninitialised
  variables hold is an argument.
\<close>

section \<open>The environment of a command\<close>

record cli_env =
  cli_now :: time_t               \<comment> \<open>\<^verbatim>\<open>time(NULL)\<close>\<close>
  cli_addr :: u32                 \<comment> \<open>an \<^verbatim>\<open>in_addr\<close> that was not set\<close>
  cli_p_ip :: string              \<comment> \<open>the printable address of a new \<^verbatim>\<open>bgp_peer\<close>\<close>
  cli_b_ip :: string              \<comment> \<open>its printable BGP ID\<close>
  cli_udp_socket :: int           \<comment> \<open>the result of \<^verbatim>\<open>socket\<close>\<close>
  cli_config_opens :: bool        \<comment> \<open>whether the configuration file can be opened\<close>
  cli_sock_ok :: bool             \<comment> \<open>whether \<^verbatim>\<open>setsockopt\<close> succeeds\<close>
  cli_buf_ok :: bool              \<comment> \<open>whether \<^verbatim>\<open>setvbuf\<close> succeeds\<close>
  cli_rcvbuf :: "int \<Rightarrow> int"      \<comment> \<open>\<^verbatim>\<open>SO_RCVBUF\<close> of a descriptor\<close>
  cli_sndbuf :: "int \<Rightarrow> int"      \<comment> \<open>\<^verbatim>\<open>SO_SNDBUF\<close> of a descriptor\<close>
  cli_rib_bytes :: nat            \<comment> \<open>\<^verbatim>\<open>sizeof\<close> the map\<close>
  cli_update_bytes :: nat         \<comment> \<open>\<^verbatim>\<open>sizeof (bgp_update)\<close>\<close>
  cli_rib_max :: nat              \<comment> \<open>\<^verbatim>\<open>max_size\<close> of the map\<close>

type_synonym reply = "(string \<times> bgp) result option"

definition token :: "string list \<Rightarrow> nat \<Rightarrow> string result" where
  "token tokens i = (if i < length tokens then Inr (tokens ! i) else Inl Out_of_bounds)"

definition nl :: string where "nl = [CHR 0x0A]"
definition tab :: string where "tab = [CHR 0x09]"

text \<open>\<^verbatim>\<open>std::setw\<close> with blanks, text to the right and to the left.\<close>

definition pad_left :: "nat \<Rightarrow> string \<Rightarrow> string" where
  "pad_left w s = replicate (w - length s) (CHR '' '') @ s"

definition pad_right :: "nat \<Rightarrow> string \<Rightarrow> string" where
  "pad_right w s = s @ replicate (w - length s) (CHR '' '')"

section \<open>The instance\<close>

text \<open>\<^verbatim>\<open>inet_aton\<close> never returns -1, so any text is accepted as an identifier.\<close>

definition set_bgp_id :: "cli_env \<Rightarrow> string list \<Rightarrow> bgp \<Rightarrow> reply" where
  "set_bgp_id env tokens s =
     Some (rbind (token tokens 1) (\<lambda>t.
       Inr ([], set_id (case inet_aton t of Some a \<Rightarrow> a | None \<Rightarrow> cli_addr env) s)))"

definition proto_bgp_toggle_update_dump :: "cli_env \<Rightarrow> string list \<Rightarrow> bgp \<Rightarrow> reply" where
  "proto_bgp_toggle_update_dump env tokens s =
     Some (rbind (token tokens 1) (\<lambda>t.
       if t = ''on'' then
         Inr (''% Warning: with this option enabled, performance '' @
              ''will be degraded during initial convergence'' @ nl, s\<lparr>dumper_on_off := True\<rparr>)
       else if t = ''off'' then Inr ([], s\<lparr>dumper_on_off := False\<rparr>)
       else Inr ([], s)))"

definition kill_all_signal :: "cli_env \<Rightarrow> string list \<Rightarrow> bgp \<Rightarrow> reply" where
  "kill_all_signal env tokens s = Some (Inr (''% Sent: this->kill_all()'', s\<lparr>stop_and_exit_instance := True\<rparr>))"

section \<open>Neighbours\<close>

text \<open>The parameters of a new neighbour; without an IPv4 address its text is not set.\<close>

definition neighbor_params :: "cli_env \<Rightarrow> string \<Rightarrow> bgp_peer" where
  "neighbor_params env t =
     (let p = new_peer (cli_p_ip env) (cli_b_ip env)
      in case inet_pton t of
           None \<Rightarrow> p
         | Some a \<Rightarrow> p\<lparr>p_addr_family := AF_INET, ipv4 := a, p_ip := inet_ntoa a\<rparr>)"

definition proto_bgp_neighbor :: "cli_env \<Rightarrow> string list \<Rightarrow> bgp \<Rightarrow> reply" where
  "proto_bgp_neighbor env tokens s =
     (case token tokens 1 of
        Inl e \<Rightarrow> Some (Inl e)
      | Inr t \<Rightarrow>
          (let peer = neighbor_params env t
           in case peer_exists (Some peer) (thread_q s) of
                None \<Rightarrow> None
              | Some True \<Rightarrow> Some (Inr (''% Neighbor '' @ p_ip peer @ '' already exists in table'' @ nl, s))
              | Some False \<Rightarrow>
                  Some (rbind (token tokens 3) (\<lambda>as.
                    Inr ([], neighbor_start (cli_b_ip env) (peer\<lparr>p_AS := of_int (atoi as)\<rparr>) s)))))"

text \<open>The look-up that the commands for an existing neighbour begin with.\<close>

definition no_peer :: "string \<Rightarrow> string" where
  "no_peer t = ''% Peer '' @ t @ '' does not exist'' @ nl"

definition on_peer :: "string list \<Rightarrow> (nat \<Rightarrow> bgp \<Rightarrow> (string \<times> bgp) result) \<Rightarrow> bgp \<Rightarrow> reply" where
  "on_peer tokens f s =
     Some (rbind (token tokens 1) (\<lambda>t.
       case get_peer_by_str_ip t (thread_q s) of
         None \<Rightarrow> Inr (no_peer t, s)
       | Some k \<Rightarrow> f k s))"

definition buffer_later :: "string \<Rightarrow> bgp_peer \<Rightarrow> string" where
  "buffer_later which p =
     ''% Peer '' @ p_ip p @ '' state is '' @ peer_state_text ! unat (peer_state_code (state p))
     @ '': will resize '' @ which @ ''-buffers on Established'' @ nl"

definition proto_bgp_peer_rcv_buffer_size :: "cli_env \<Rightarrow> string list \<Rightarrow> bgp \<Rightarrow> reply" where
  "proto_bgp_peer_rcv_buffer_size env tokens =
     on_peer tokens (\<lambda>k s.
       rbind (token tokens 3) (\<lambda>t3. rbind (token tokens 4) (\<lambda>t4.
       let tcp = atoi t3; bgp = atoi t4;
           p = (thread_q s ! k)\<lparr>tcp_rx_socket_buffer_size := tcp, bgp_rx_buffer_size := bgp\<rparr>
       in if connected p then
            rbind (set_tcp_bgp_rx_buffer_size (cli_sock_ok env) (cli_buf_ok env) tcp bgp p) (\<lambda>(ok, p').
            Inr (if ok then [] else ''% Error setting receive buffer size to tcp='' @ t3 @ '' and bgp='' @ t4 @ nl,
                 set_peer k p' s))
          else
            (let (ok, p') = set_tcp_rx_buffer_size (cli_sock_ok env) tcp p
             in Inr (buffer_later ''rx'' p', set_peer k p' s)))))"

definition proto_bgp_peer_snd_buffer_size :: "cli_env \<Rightarrow> string list \<Rightarrow> bgp \<Rightarrow> reply" where
  "proto_bgp_peer_snd_buffer_size env tokens =
     on_peer tokens (\<lambda>k s.
       rbind (token tokens 3) (\<lambda>t3. rbind (token tokens 4) (\<lambda>t4.
       let tcp = atoi t3; bgp = atoi t4;
           p = (thread_q s ! k)\<lparr>tcp_tx_socket_buffer_size := tcp, bgp_tx_buffer_size := bgp\<rparr>
       in if connected p then
            rbind (set_tcp_bgp_tx_buffer_size (cli_sock_ok env) (cli_buf_ok env) tcp bgp p) (\<lambda>(ok, p').
            Inr (if ok then [] else ''% Error setting send buffer size to tcp='' @ t3 @ '' and bgp='' @ t4 @ nl,
                 set_peer k p' s))
          else
            (let (ok, p') = set_tcp_tx_buffer_size (cli_sock_ok env) tcp p
             in Inr (buffer_later ''tx'' p', set_peer k p' s)))))"

text \<open>
  \<^verbatim>\<open>port\<close> is converted to network byte order here and once more by the sender. A host that is no
  address is refused only if the unset variable of \<^verbatim>\<open>string_to_ip\<close> happens to be 0.
\<close>

definition set_peer_logging :: "cli_env \<Rightarrow> string list \<Rightarrow> bgp \<Rightarrow> reply" where
  "set_peer_logging env tokens =
     on_peer tokens (\<lambda>k s.
       rbind (token tokens 4) (\<lambda>logging_host.
       if string_to_ip (cli_addr env) logging_host = 0
       then Inr (''% '' @ logging_host @ '' is not a valid host address'' @ nl, s)
       else
         rbind (token tokens 5) (\<lambda>logging_port.
         let port = htons (string_to_uint16_t logging_port)
         in Inr ([], s\<lparr>dumper := add_dest_host (cli_udp_socket env) (p_bgp_id (thread_q s ! k))
                          logging_host port (dumper s)\<rparr>))))"

section \<open>Aliases\<close>

text \<open>The call of \<^verbatim>\<open>set_translation\<close>, which returns the empty string.\<close>

definition set_alias :: "nat \<Rightarrow> bgp_path_attrib \<Rightarrow> u32 \<Rightarrow> string \<Rightarrow> bgp \<Rightarrow> (string \<times> bgp) result" where
  "set_alias k code v new s =
     rbind (set_translation code v new (thread_q s ! k)) (\<lambda>p. Inr ([], set_peer k p s))"

definition proto_bgp_attribute_bgp_id_translate_value :: "string list \<Rightarrow> bgp \<Rightarrow> reply" where
  "proto_bgp_attribute_bgp_id_translate_value tokens =
     on_peer tokens (\<lambda>k s.
       rbind (token tokens 5) (\<lambda>new. set_alias k Attr_bgp_id (p_bgp_id (thread_q s ! k)) new s))"

definition proto_bgp_attribute_origin_translate_value :: "string list \<Rightarrow> bgp \<Rightarrow> reply" where
  "proto_bgp_attribute_origin_translate_value tokens =
     on_peer tokens (\<lambda>k. set_alias k Attr_origin 0 [])"

text \<open>The four commands that read a number and a label.\<close>

definition number_alias :: "bgp_path_attrib \<Rightarrow> string list \<Rightarrow> bgp \<Rightarrow> reply" where
  "number_alias code tokens =
     on_peer tokens (\<lambda>k s.
       rbind (token tokens 5) (\<lambda>t5. rbind (token tokens 6) (\<lambda>new.
       set_alias k code (string_to_uint32_t t5) new s)))"

definition proto_bgp_attribute_aspath_translate_value :: "string list \<Rightarrow> bgp \<Rightarrow> reply" where
  "proto_bgp_attribute_aspath_translate_value = number_alias Attr_as_path"

definition proto_bgp_attribute_med_translate_value :: "string list \<Rightarrow> bgp \<Rightarrow> reply" where
  "proto_bgp_attribute_med_translate_value = number_alias Attr_multi_exit_disc"

definition proto_bgp_attribute_localpref_translate_value :: "string list \<Rightarrow> bgp \<Rightarrow> reply" where
  "proto_bgp_attribute_localpref_translate_value = number_alias Attr_local_pref"

definition proto_bgp_attribute_community_translate_value :: "string list \<Rightarrow> bgp \<Rightarrow> reply" where
  "proto_bgp_attribute_community_translate_value = number_alias Attr_community"

text \<open>\<^verbatim>\<open>inet_pton\<close> is never negative for this family: text that is no address counts as 0.0.0.0.\<close>

definition proto_bgp_attribute_v4nexthop_translate_value :: "string list \<Rightarrow> bgp \<Rightarrow> reply" where
  "proto_bgp_attribute_v4nexthop_translate_value tokens =
     on_peer tokens (\<lambda>k s.
       rbind (token tokens 6) (\<lambda>t6. rbind (token tokens 7) (\<lambda>new.
       set_alias k Attr_next_hop (case inet_pton t6 of Some a \<Rightarrow> a | None \<Rightarrow> 0) new s)))"

section \<open>Showing routes\<close>

text \<open>A path, with a blank after every number.\<close>

definition display_path :: "thread_q \<Rightarrow> u32 \<Rightarrow> as_path_segment option \<Rightarrow> string result" where
  "display_path q i p =
     (case p of
        None \<Rightarrow> Inr []
      | Some seg \<Rightarrow> rbind (path_texts q i seg) (\<lambda>ts. Inr (concat (map (\<lambda>t. t @ '' '') ts))))"

definition display_aggregator :: "string \<Rightarrow> string \<Rightarrow> thread_q \<Rightarrow> u32 \<Rightarrow> aggregator_segment option \<Rightarrow> string" where
  "display_aggregator l1 l2 q i a =
     (case a of
        None \<Rightarrow> []
      | Some seg \<Rightarrow> nl @ tab @ l1 @ translate_aggregator q i (aggr_origin seg) @ l2 @ translate_as_path q i (aggr_as seg))"

definition display_community :: "thread_q \<Rightarrow> bgp_update \<Rightarrow> string result" where
  "display_community q u =
     (if com_seg_length u > 0 \<and> community u \<noteq> None then
        rbind (community_texts q u) (\<lambda>ts. Inr (nl @ tab @ ''Community: '' @ concat (map (\<lambda>t. t @ '' '') ts)))
      else Inr [])"

definition display_entry :: "thread_q \<Rightarrow> bgp_update \<Rightarrow> string result" where
  "display_entry q u =
     (let i = nlri_bgp_id (nlri u) in
      rbind (display_path q i (as_path u)) (\<lambda>path.
      rbind (display_path q i (as4_path u)) (\<lambda>path4.
      rbind (origin_text (origin u)) (\<lambda>orig.
      rbind (display_community q u) (\<lambda>comm.
      Inr (tab @ ''Last Modified: '' @ strftime_c (gmtime (age (nlri u))) @ '' (UTC)''
           @ nl @ tab @ ''Path: '' @ path @ path4 @ orig
           @ nl @ tab @ ''Next hop: '' @ translate_ipv4_next_hop q i (ipv4_next_hop u) @ '' ''
           @ ''Metric: '' @ translate_med q i (med u) @ '' ''
           @ ''Local Pref: '' @ translate_local_pref q i (local_pref u) @ '' ''
           @ (if atomic_aggregate u \<noteq> 0 then '' Atomic Aggregate: true'' else [])
           @ display_aggregator ''Aggregator Origin: '' '' Aggregator AS: '' q i (aggregator u)
           @ display_aggregator ''AS4 Aggregator Origin: '' '' Aggregator AS4: '' q i (as4_aggregator u)
           @ comm))))))"

definition display_heading :: "thread_q \<Rightarrow> bgp_nlri \<Rightarrow> string" where
  "display_heading q n =
     nl @ ''BGP routing table entry for '' @ ip_to_string (prefix n) @ ''/'' @ show_nat (unat (prefix_length n))
     @ '' : ('' @ ip_to_string (prefix n) @ '' - '' @ ip_to_string (prefix_highest n) @ '')'' @ nl
     @ ''Received from '' @ ip_to_string (nlri_bgp_id n)
     @ (if peer_doing_alias (nlri_bgp_id n) q then ''('' @ translate_bgp_id q (nlri_bgp_id n) @ '')'' else [])"

definition show_entry :: "bool \<Rightarrow> bgp \<Rightarrow> bgp_update \<Rightarrow> (string \<times> bgp) result option" where
  "show_entry dump_history s u =
     (case display_entry (thread_q s) u of
        Inl e \<Rightarrow> Some (Inl e)
      | Inr d \<Rightarrow>
          (let t = display_heading (thread_q s) (nlri u) @ nl @ ''[c]'' @ d
           in if dump_history then
                (case db_get_entries u (database s) of
                   None \<Rightarrow> None
                 | Some (recs, db) \<Rightarrow>
                     Some (rbind (rmap (display_entry (thread_q s)) recs) (\<lambda>ts.
                       Inr (t @ concat (map (\<lambda>h. nl @ nl @ ''[h]'' @ h) ts) @ nl, s\<lparr>database := db\<rparr>))))
              else Some (Inr (t @ nl, s))))"

fun show_entries :: "bool \<Rightarrow> bgp \<Rightarrow> bgp_update list \<Rightarrow> (string \<times> bgp) result option" where
  "show_entries h s [] = Some (Inr ([], s))"
| "show_entries h s (u # us) =
     (case show_entry h s u of
        None \<Rightarrow> None
      | Some (Inl e) \<Rightarrow> Some (Inl e)
      | Some (Inr (t, s')) \<Rightarrow>
          (case show_entries h s' us of
             None \<Rightarrow> None
           | Some r \<Rightarrow> Some (rbind r (\<lambda>(ts, s''). Inr (t @ ts, s'')))))"

definition show_bgp_prefix :: "string list \<Rightarrow> bgp \<Rightarrow> reply" where
  "show_bgp_prefix tokens s =
     (case token tokens 3 of
        Inl e \<Rightarrow> Some (Inl e)
      | Inr t \<Rightarrow>
          (case inet_aton t of
             None \<Rightarrow> Some (Inr ([], s))
           | Some ip \<Rightarrow>
               (let ms = prefix_matches ip (adj_rib_in s);
                    dump_history = (length tokens = 5 \<and> tokens ! 4 = ''history'')
                in if ms = [] then Some (Inr (''% Network not in table'' @ nl, s))
                   else
                     map_option (\<lambda>r. rbind r (\<lambda>(ts, s').
                       Inr (nl @ ''Entries: ('' @ show_nat (length ms) @ '' available)'' @ nl @ ''[c] = current''
                            @ (if dump_history then '' [h] = historical'' @ nl else nl) @ ts @ nl, s')))
                       (show_entries dump_history s ms))))"

text \<open>
  The table of routes. After the first heading with \<^verbatim>\<open>std::ios::right\<close> both adjustment flags are
  set, which pads on the left.
\<close>

definition prefixv4_wlen_print :: "bgp_nlri \<Rightarrow> string" where
  "prefixv4_wlen_print n = pad_right 32 (inet_ntoa (prefix n) @ ''/'' @ int_to_string (uint (prefix_length n)))"

definition next_hopv4_print :: "bgp_update \<Rightarrow> string" where
  "next_hopv4_print u = pad_right 32 (inet_ntoa (ipv4_next_hop u))"

definition rib_path :: "bgp_update \<Rightarrow> string result" where
  "rib_path u =
     (case as_path u of
        None \<Rightarrow> Inl Null_pointer
      | Some seg \<Rightarrow>
          rbind (case as4_path u of
                   Some seg4 \<Rightarrow>
                     rbind (array_read (unat (seg_length seg4)) (seg_value seg4)) (\<lambda>vs.
                     Inr (''AS4_PATH('' @ join '' '' (map show_u32 vs) @ '')''))
                 | None \<Rightarrow>
                     rbind (array_read (unat (seg_length seg)) (seg_value seg)) (\<lambda>vs.
                     Inr (join '' '' (map show_u32 vs)))) (\<lambda>path.
          Inr (if seg_type seg = as_set then pad_left 2 ''{'' @ path @ ''}'' else pad_left 2 [] @ path)))"

definition rib_line :: "bgp_update \<Rightarrow> string result" where
  "rib_line u =
     rbind (rib_path u) (\<lambda>path.
     rbind (origin_text (origin u)) (\<lambda>orig.
     Inr (''   ''
          @ (if addr_family u = AF_INET then prefixv4_wlen_print (nlri u) @ pad_left 32 (next_hopv4_print u) else [])
          @ pad_left 10 (show_u32 (med u)) @ pad_left 7 (show_u32 (local_pref u)) @ pad_left 7 (show_nat 0)
          @ path @ '' '' @ orig @ nl)))"

definition bgp_rib_code_text :: string where
  "bgp_rib_code_text = ''sdh*>irS''"

definition rib_code :: "nat \<Rightarrow> string" where
  "rib_code i = [bgp_rib_code_text ! i]"

definition rib_header :: "cli_env \<Rightarrow> bgp \<Rightarrow> string" where
  "rib_header env s =
     nl @ ''BGP table version is '' @ int_to_string (sint (table_version s)) @ '', local router ID is '' @ my_b_ip s @ nl
     @ ''Status codes: '' @ rib_code 0 @ '' suppressed, '' @ rib_code 1 @ '' damped, '' @ rib_code 2 @ '' history, ''
     @ rib_code 3 @ '' valid, '' @ rib_code 4 @ '' best, '' @ rib_code 5 @ '' - internal, '' @ nl @ tab
     @ rib_code 6 @ '' RIB-failure, '' @ rib_code 7 @ '' Stale'' @ nl
     @ ''Origin codes: '' @ bgp_origin_code_text ! 0 @ '' - IGP, '' @ bgp_origin_code_text ! 1 @ '' - EGP, ''
     @ bgp_origin_code_text ! 2 @ '' - incomplete'' @ nl @ nl
     @ ''RIB total size'' @ tab @ tab @ ''= '' @ show_nat (cli_rib_bytes env + cli_update_bytes env * length (adj_rib_in s))
     @ ''(bytes allocated) ''
     @ nl @ ''RIB max size'' @ tab @ tab @ ''= '' @ show_nat (cli_rib_max env) @ ''(entries)''
     @ nl @ ''RIB updates in queue'' @ tab @ tab @ ''='' @ show_nat (length (adj_rib_in_q s))
     @ nl @ ''RIB withdraws in queue'' @ tab @ tab @ ''='' @ show_nat (length (adj_rib_in_wdraw_q s))
     @ nl @ nl @ ''   '' @ pad_right 32 ''Network'' @ pad_right 32 ''Next Hop'' @ pad_left 10 ''Metric''
     @ pad_left 7 ''LocPrf'' @ pad_left 7 ''Weight'' @ pad_left 7 (''Path'' @ nl)"

definition show_bgp_adj_rib_in :: "cli_env \<Rightarrow> string list \<Rightarrow> bgp \<Rightarrow> reply" where
  "show_bgp_adj_rib_in env tokens s =
     Some (rbind (rmap rib_line (map snd (adj_rib_in s))) (\<lambda>ls.
       Inr (rib_header env s @ concat ls @ nl @ nl, s)))"

section \<open>Showing neighbours\<close>

definition tx_rx_row :: "string \<Rightarrow> u32 \<Rightarrow> u32 \<Rightarrow> string" where
  "tx_rx_row label a b = nl @ ''    '' @ label @ ''   '' @ pad_left 5 (show_u32 a) @ tab @ ''   '' @ pad_left 5 (show_u32 b)"

definition prefix_row :: "string \<Rightarrow> u32 \<Rightarrow> u32 \<Rightarrow> string" where
  "prefix_row label a b = ''    '' @ label @ pad_left 10 (show_u32 a) @ pad_left 16 (show_u32 b) @ nl"

definition socket_rows :: "string \<Rightarrow> int \<Rightarrow> int \<Rightarrow> string" where
  "socket_rows which sys conf =
     nl @ nl @ ''  TCP '' @ which @ '' socket size (bytes)'' @ nl @ nl
     @ tab @ tab @ tab @ ''System'' @ tab @ tab @ ''Config'' @ nl
     @ ''    '' @ tab @ tab @ tab @ ''   '' @ pad_left 5 (int_to_string sys) @ tab @ ''   '' @ pad_left 5 (int_to_string conf)"

text \<open>\<^verbatim>\<open>t > 0 ? time(NULL) - t : 0\<close>\<close>

definition since :: "time_t \<Rightarrow> time_t \<Rightarrow> time_t" where
  "since now t = (if 0 < sint t then now - t else 0)"

definition router_id_text :: "thread_q \<Rightarrow> bgp_peer \<Rightarrow> string" where
  "router_id_text q p =
     (if is_aliasing p then translate_bgp_id q (p_bgp_id p)
      else if p_bgp_id p \<noteq> 0 then p_b_ip p else ''NOT_SET'')"

definition neighbor_session :: "cli_env \<Rightarrow> bgp \<Rightarrow> bgp_peer \<Rightarrow> string" where
  "neighbor_session env s p =
     nl @ ''BGP neighbor is '' @ p_ip p @ '', remote AS '' @ show_nat (unat (p_AS p))
     @ (if my_AS s = p_AS p then '', internal link'' else '', external link'') @ nl
     @ ''  BGP version '' @ show_nat (unat (p_version p)) @ '', remote router ID '' @ router_id_text (thread_q s) p @ nl
     @ ''  BGP state = '' @ peer_state_text ! unat (peer_state_code (state p))
     @ (if state p = Established then '', up for '' @ time_hh_mm_ss (since (cli_now env) (up_since p)) else [])
     @ nl @ ''  Last read '' @ time_hh_mm_ss (since (cli_now env) (last_read (last_IO p)))
     @ '', last write '' @ time_hh_mm_ss (since (cli_now env) (last_write (last_IO p)))
     @ '', hold time is '' @ show_nat (unat (p_hold_time p))
     @ '', keepalive interval is '' @ show_nat (unat (keep_alive p)) @ '' seconds'' @ nl
     @ ''  Minimum holdtime from neighbor is '' @ show_nat (unat (min_hold_time p)) @ '' seconds'' @ nl"

definition neighbor_messages :: "bgp_peer \<Rightarrow> string" where
  "neighbor_messages p =
     ''  Message statistics:'' @ nl @ ''    InQ depth is '' @ show_nat (unat (in_q p))
     @ nl @ ''    OutQ depth is '' @ show_nat (unat (out_q p))
     @ nl @ tab @ tab @ tab @ ''Sent'' @ tab @ tab @ ''Rcvd''
     @ tx_rx_row (''Opens:'' @ tab @ tab) (cnt_tx (opens p)) (cnt_rx (opens p))
     @ tx_rx_row (''Notifications:'' @ tab) (cnt_tx (notify p)) (cnt_rx (notify p))
     @ tx_rx_row (''Updates:'' @ tab @ tab) (cnt_tx (update_cnt p)) (cnt_rx (update_cnt p))
     @ tx_rx_row (''Keepalives:'' @ tab @ tab) (cnt_tx (keepaliv p)) (cnt_rx (keepaliv p))
     @ tx_rx_row (''Route Refresh:'' @ tab) (cnt_tx (routeref p)) (cnt_rx (routeref p))
     @ tx_rx_row (''Total:'' @ tab @ tab)
         (cnt_tx (opens p) + cnt_tx (notify p) + cnt_tx (update_cnt p) + cnt_tx (keepaliv p) + cnt_tx (routeref p))
         (cnt_rx (opens p) + cnt_rx (notify p) + cnt_rx (update_cnt p) + cnt_rx (keepaliv p) + cnt_rx (routeref p))"

definition neighbor_prefixes :: "bgp_peer \<Rightarrow> string" where
  "neighbor_prefixes p =
     nl @ nl @ ''  Prefix activity:'' @ pad_left 13 (tab @ ''Sent'' @ tab @ tab @ ''Rcvd'' @ nl)
     @ prefix_row ''Prefixes Current: '' (cur_tx (current (prefixes p))) (cur_rx (current (prefixes p)))
     @ prefix_row ''Prefixes Total:   '' (cnt_tx (prefixes p)) (cnt_rx (prefixes p))
     @ prefix_row ''Implicit Withdraw:'' (cur_tx (implicit_withdraw p)) (cur_rx (implicit_withdraw p))
     @ prefix_row ''Explicit Withdraw:'' (cur_tx (explicit_withdraw p)) (cur_rx (explicit_withdraw p))"

definition neighbor_text :: "cli_env \<Rightarrow> bgp \<Rightarrow> bgp_peer \<Rightarrow> string" where
  "neighbor_text env s p =
     neighbor_session env s p @ neighbor_messages p @ neighbor_prefixes p
     @ socket_rows ''RCV'' (cli_rcvbuf env (tcp_socket p)) (tcp_rx_socket_buffer_size p)
     @ socket_rows ''SND'' (cli_sndbuf env (tcp_socket p)) (tcp_tx_socket_buffer_size p) @ nl"

definition show_bgp_neighbors :: "cli_env \<Rightarrow> string list \<Rightarrow> bgp \<Rightarrow> reply" where
  "show_bgp_neighbors env tokens s =
     Some (Inr (if peer_count (thread_q s) = 0 then ''% Peer table is empty'' @ nl
                else concat (map (neighbor_text env s) (thread_q s)) @ nl @ nl, s))"

section \<open>Writing the configuration\<close>

text \<open>
  The line of an alias. For the attributes the switch does not implement, the beginning of the
  line is written and never ended.
\<close>

definition alias_line :: "string \<Rightarrow> translate_attribs_base \<Rightarrow> string" where
  "alias_line ip t =
     ''  neighbor '' @ ip @ '' attribute ''
     @ (case tr_code t of
          Attr_bgp_id \<Rightarrow> ''bgp-id alias '' @ printable_attrib t @ nl
        | Attr_as_path \<Rightarrow> ''as-path alias '' @ show_u32 (tr_value t) @ '' '' @ printable_attrib t @ nl
        | Attr_next_hop \<Rightarrow> ''next-hop alias ipv4 '' @ ip_to_string (tr_value t) @ '' '' @ printable_attrib t @ nl
        | Attr_community \<Rightarrow> ''community alias '' @ show_u32 (tr_value t) @ '' '' @ printable_attrib t @ nl
        | _ \<Rightarrow> [])"

definition logging_line :: "bgp_syslog \<Rightarrow> bgp_peer \<Rightarrow> string" where
  "logging_line d p =
     (case map_find udp_sort (p_bgp_id p) (udp_map d) of
        None \<Rightarrow> []
      | Some u \<Rightarrow> ''neighbor '' @ p_ip p @ '' logging host '' @ us_host u @ '' '' @ show_nat (unat (us_port u)) @ nl)"

definition peer_config :: "bgp_syslog \<Rightarrow> bgp_peer \<Rightarrow> string" where
  "peer_config d p =
     ''  !'' @ nl
     @ ''  neighbor '' @ p_ip p @ '' remote-as '' @ show_nat (unat (p_AS p)) @ nl
     @ ''  neighbor '' @ p_ip p @ '' tx-buffer '' @ int_to_string (tcp_tx_socket_buffer_size p)
     @ '' '' @ int_to_string (bgp_tx_buffer_size p) @ nl
     @ ''  neighbor '' @ p_ip p @ '' rx-buffer '' @ int_to_string (tcp_rx_socket_buffer_size p)
     @ '' '' @ int_to_string (bgp_rx_buffer_size p) @ nl
     @ logging_line d p
     @ (if is_aliasing p then concat (map (alias_line (p_ip p)) (translate_attribs p)) else [])"

definition config_text :: "bgp \<Rightarrow> string" where
  "config_text s =
     ''!'' @ nl @ ''protocol bgp '' @ show_nat (unat (my_AS s)) @ nl
     @ '' bgp-id '' @ my_b_ip s @ nl
     @ (if dumper_on_off s then '' dumper on'' @ nl @ ''!'' @ nl else [])
     @ concat (map (peer_config (dumper s)) (thread_q s))
     @ ''!'' @ nl"

definition write_configs :: "cli_env \<Rightarrow> string list \<Rightarrow> bgp \<Rightarrow> reply" where
  "write_configs env tokens s =
     (if cli_config_opens env then Some (Inr (''[OK]'', s\<lparr>conf_file := config_text s\<rparr>))
      else Some (Inr (''[FAILED]'', s)))"

section \<open>Command lines\<close>

text \<open>The call through the function pointer of a command; it is null in no command of the tree.\<close>

fun run_command :: "cmd_func \<Rightarrow> cli_env \<Rightarrow> string list \<Rightarrow> bgp \<Rightarrow> reply" where
  "run_command Api_get_prefix env tokens s = api_get_prefix tokens s"
| "run_command Api_get_all_origin_as env tokens s = Some (rbind (api_get_all_origin_as tokens s) (\<lambda>t. Inr (t, s)))"
| "run_command Api_get_public_origin_as env tokens s = Some (rbind (api_get_public_origin_as tokens s) (\<lambda>t. Inr (t, s)))"
| "run_command Api_get_private_origin_as env tokens s = Some (rbind (api_get_private_origin_as tokens s) (\<lambda>t. Inr (t, s)))"
| "run_command Show env tokens s = Some (Inr ([], s))"
| "run_command Show_bgp_prefix env tokens s = show_bgp_prefix tokens s"
| "run_command Show_bgp_neighbors env tokens s = show_bgp_neighbors env tokens s"
| "run_command Show_bgp_adj_rib_in env tokens s = show_bgp_adj_rib_in env tokens s"
| "run_command Show_bgp_adj_rib_wdrawn env tokens s = Some (Inr (''% not implemented'', s))"
| "run_command Write_configs env tokens s = write_configs env tokens s"
| "run_command Proto_bgp_toggle_update_dump env tokens s = proto_bgp_toggle_update_dump env tokens s"
| "run_command Proto_bgp_neighbor env tokens s = proto_bgp_neighbor env tokens s"
| "run_command Set_peer_logging env tokens s = set_peer_logging env tokens s"
| "run_command Proto_bgp_peer_rcv_buffer_size env tokens s = proto_bgp_peer_rcv_buffer_size env tokens s"
| "run_command Proto_bgp_peer_snd_buffer_size env tokens s = proto_bgp_peer_snd_buffer_size env tokens s"
| "run_command Proto_bgp_peer_timers env tokens s = Some (Inr ([], s))"
| "run_command Proto_bgp_peer_attribute env tokens s = Some (Inr ([], s))"
| "run_command Proto_bgp_attribute_bgp_id env tokens s = proto_bgp_attribute_bgp_id_translate_value tokens s"
| "run_command Proto_bgp_attribute_origin env tokens s = proto_bgp_attribute_origin_translate_value tokens s"
| "run_command Proto_bgp_attribute_aspath env tokens s = proto_bgp_attribute_aspath_translate_value tokens s"
| "run_command Proto_bgp_attribute_nexthop env tokens s = Some (Inr ([], s))"
| "run_command Proto_bgp_attribute_v4nexthop env tokens s = proto_bgp_attribute_v4nexthop_translate_value tokens s"
| "run_command Proto_bgp_attribute_med env tokens s = proto_bgp_attribute_med_translate_value tokens s"
| "run_command Proto_bgp_attribute_localpref env tokens s = proto_bgp_attribute_localpref_translate_value tokens s"
| "run_command Proto_bgp_attribute_atomicaggr env tokens s = Some (Inr ([], s))"
| "run_command Proto_bgp_attribute_community env tokens s = proto_bgp_attribute_community_translate_value tokens s"
| "run_command Set_bgp_id env tokens s = set_bgp_id env tokens s"
| "run_command Kill_all_signal env tokens s = kill_all_signal env tokens s"

definition ExecuteLine :: "cli_env \<Rightarrow> string \<Rightarrow> bgp \<Rightarrow> reply" where
  "ExecuteLine env line s =
     (if line = [] then Some (Inr ([], s))
      else
        (case FindCommand (CmdInit cmds) (words line) of
           None \<Rightarrow> Some (Inr (line @ '' % invalid command.'' @ nl, s))
         | Some c \<Rightarrow>
             (case cmd_func c of
                None \<Rightarrow> Some (Inl Null_pointer)
              | Some f \<Rightarrow> run_command f env (words line) s)))"

text \<open>Lines one after the other, as a client sends them; the replies are left out.\<close>

fun execute_lines :: "cli_env \<Rightarrow> string list \<Rightarrow> bgp \<Rightarrow> bgp result option" where
  "execute_lines env [] s = Some (Inr s)"
| "execute_lines env (l # ls) s =
     (case ExecuteLine env l s of
        None \<Rightarrow> None
      | Some (Inl e) \<Rightarrow> Some (Inl e)
      | Some (Inr (_, s')) \<Rightarrow> execute_lines env ls s')"

end
