(* ===== verification/Cli_Proofs.thy ===== *)
theory Cli_Proofs
  imports Bgp_Cli Core_Proofs
begin

text \<open>
  Command lines against the rest of the program: every command that returns is a sequence of
  steps of \<open>bgp_step\<close>, so what holds in the reachable states holds after it; and the
  configuration \<^verbatim>\<open>write_configs\<close> writes, typed again line by line, configures the same neighbours.
\<close>

section \<open>Commands are steps\<close>

lemma bgp_run_trans: "bgp_run s1 s2 \<Longrightarrow> bgp_run s0 s1 \<Longrightarrow> bgp_run s0 s2"
  by (induction rule: bgp_run.induct) (auto intro: bgp_run.intros)

text \<open>A step that changes no router id and no session.\<close>

lemma run_config:
  assumes "core_inv s" and "bgp_step s s'"
    and "map (\<lambda>p. (p_bgp_id p, state p)) (thread_q s') = map (\<lambda>p. (p_bgp_id p, state p)) (thread_q s)"
  shows "bgp_run s s'"
proof (rule run_step [OF run_start assms(2)])
  have len: "length (thread_q s') = length (thread_q s)" using arg_cong [OF assms(3), of length] by simp
  have same: "p_bgp_id (thread_q s' ! k) = p_bgp_id (thread_q s ! k)" "state (thread_q s' ! k) = state (thread_q s ! k)"
    if "k < length (thread_q s)" for k
    using that len arg_cong [OF assms(3), of "\<lambda>xs. xs ! k"] by simp_all
  show "router_ids s s'"
    using assms(1) len same unfolding core_inv_def router_ids_def ids_unique_def by (simp add: all_set_conv_all_nth)
qed

lemma run_config_peer:
  assumes "core_inv s" and "k < length (thread_q s)" and "bgp_step s (set_peer k p s)"
    and "p_bgp_id p = p_bgp_id (thread_q s ! k)" and "state p = state (thread_q s ! k)"
  shows "bgp_run s (set_peer k p s)"
  using assms by (intro run_config) (auto simp: map_update list_update_same_conv set_peer_def)

lemma run_same_q: "core_inv s \<Longrightarrow> bgp_step s s' \<Longrightarrow> thread_q s' = thread_q s \<Longrightarrow> bgp_run s s'"
  by (rule run_config) simp_all

lemma run_neighbor_start:
  assumes "core_inv s"
  shows "bgp_run s (neighbor_start bip params s)"
proof (rule run_step [OF run_start step_neighbor])
  have "p_bgp_id (copy_peer bip params) = 0" "state (copy_peer bip params) = Idle"
    by (simp_all add: copy_peer_def new_peer_def bgp_peer.defs tcp_client.defs)
  with assms show "router_ids s (neighbor_start bip params s)"
    by (auto simp: core_inv_def router_ids_def ids_unique_def neighbor_start_def start_peer_def nth_append)
qed

lemma run_query:
  "core_inv s \<Longrightarrow> db_get_entries u (database s) = Some (recs, db) \<Longrightarrow> bgp_run s (s\<lparr>database := db\<rparr>)"
  by (rule run_same_q [OF _ step_query]) simp_all

text \<open>The two loops over the matches of a query read the event database once for every match.\<close>

lemma api_entries_run:
  "api_entries h s us = Some (Inr (ts, s')) \<Longrightarrow> core_inv s \<Longrightarrow> bgp_run s s'"
proof (induction us arbitrary: s ts)
  case (Cons u us)
  from Cons.prems obtain t s1 ts' where e: "api_entry h s u = Some (Inr (t, s1))" "api_entries h s1 us = Some (Inr (ts', s'))"
    by (auto simp: rbind_eq_Inr split: option.splits sum.splits prod.splits)
  have "bgp_run s s1"
    using e(1) Cons.prems(2) by (auto simp: api_entry_def rbind_eq_Inr run_start intro: run_query split: option.splits sum.splits if_splits)
  with Cons.IH [OF e(2)] core_inv_run Cons.prems(2) show ?case by (blast intro: bgp_run_trans)
qed (simp add: run_start)

lemma show_entries_run:
  "show_entries h s us = Some (Inr (ts, s')) \<Longrightarrow> core_inv s \<Longrightarrow> bgp_run s s'"
proof (induction us arbitrary: s ts)
  case (Cons u us)
  from Cons.prems obtain t s1 ts' where e: "show_entry h s u = Some (Inr (t, s1))" "show_entries h s1 us = Some (Inr (ts', s'))"
    by (auto simp: rbind_eq_Inr split: option.splits sum.splits prod.splits)
  have "bgp_run s s1"
    using e(1) Cons.prems(2) by (auto simp: show_entry_def Let_def rbind_eq_Inr run_start intro: run_query split: option.splits sum.splits if_splits)
  with Cons.IH [OF e(2)] core_inv_run Cons.prems(2) show ?case by (blast intro: bgp_run_trans)
qed (simp add: run_start)

lemma api_get_prefix_run: "core_inv s \<Longrightarrow> api_get_prefix tokens s = Some (Inr (t, s')) \<Longrightarrow> bgp_run s s'"
  by (auto simp: api_get_prefix_def Let_def rbind_eq_Inr run_start intro: api_entries_run split: option.splits if_splits)

lemma show_bgp_prefix_run: "core_inv s \<Longrightarrow> show_bgp_prefix tokens s = Some (Inr (t, s')) \<Longrightarrow> bgp_run s s'"
  by (auto simp: show_bgp_prefix_def Let_def rbind_eq_Inr run_start intro: show_entries_run split: option.splits sum.splits if_splits)

lemma proto_bgp_neighbor_run: "core_inv s \<Longrightarrow> proto_bgp_neighbor env tokens s = Some (Inr (t, s')) \<Longrightarrow> bgp_run s s'"
  by (auto simp: proto_bgp_neighbor_def Let_def rbind_eq_Inr run_start run_neighbor_start
      split: option.splits sum.splits bool.splits)

lemma on_peer_run:
  assumes "on_peer tokens f s = Some (Inr (t, s'))"
    and "\<And>k t s'. k < length (thread_q s) \<Longrightarrow> f k s = Inr (t, s') \<Longrightarrow> bgp_run s s'"
  shows "bgp_run s s'"
proof -
  from assms(1) obtain t1 where "token tokens 1 = Inr t1"
    and c: "(case get_peer_by_str_ip t1 (thread_q s) of None \<Rightarrow> Inr (no_peer t1, s) | Some k \<Rightarrow> f k s) = Inr (t, s')"
    by (auto simp: on_peer_def rbind_eq_Inr)
  show ?thesis
  proof (cases "get_peer_by_str_ip t1 (thread_q s)")
    case None
    with c show ?thesis by (simp add: run_start)
  next
    case (Some k)
    with c by_ip.look_Some [OF Some] show ?thesis by (intro assms(2)) auto
  qed
qed

lemma set_alias_run:
  assumes "core_inv s" and "k < length (thread_q s)" and "set_alias k code v new s = Inr (t, s')"
  shows "bgp_run s s'"
proof -
  from assms(3) obtain p where p: "set_translation code v new (thread_q s ! k) = Inr p" "s' = set_peer k p s"
    by (auto simp: set_alias_def rbind_eq_Inr)
  from set_translation_keeps [OF p(1)] assms(1,2) p(2) step_alias [OF assms(2) p(1)] show ?thesis
    by (auto intro: run_config_peer)
qed

lemma buffer_swap:
  "(p :: bgp_peer)\<lparr>bgp_rx_buffer_size := b, tcp_rx_socket_buffer_size := a\<rparr> = p\<lparr>tcp_rx_socket_buffer_size := a, bgp_rx_buffer_size := b\<rparr>"
  "(p :: bgp_peer)\<lparr>bgp_tx_buffer_size := b, tcp_tx_socket_buffer_size := a\<rparr> = p\<lparr>tcp_tx_socket_buffer_size := a, bgp_tx_buffer_size := b\<rparr>"
  by simp_all

lemma rx_buffer_run:
  "core_inv s \<Longrightarrow> k < length (thread_q s) \<Longrightarrow>
     bgp_run s (set_peer k ((thread_q s ! k)\<lparr>tcp_rx_socket_buffer_size := a, bgp_rx_buffer_size := b\<rparr>) s)"
  by (rule run_config_peer) (simp_all add: step_rx_buffer)

lemma tx_buffer_run:
  "core_inv s \<Longrightarrow> k < length (thread_q s) \<Longrightarrow>
     bgp_run s (set_peer k ((thread_q s ! k)\<lparr>tcp_tx_socket_buffer_size := a, bgp_tx_buffer_size := b\<rparr>) s)"
  by (rule run_config_peer) (simp_all add: step_tx_buffer)

lemma rcv_buffer_run:
  "core_inv s \<Longrightarrow> proto_bgp_peer_rcv_buffer_size env tokens s = Some (Inr (t, s')) \<Longrightarrow> bgp_run s s'"
  unfolding proto_bgp_peer_rcv_buffer_size_def
  by (erule on_peer_run)
    (auto simp: Let_def rbind_eq_Inr set_tcp_bgp_rx_buffer_size_def set_tcp_rx_buffer_size_def buffer_swap rx_buffer_run split: if_splits)

lemma snd_buffer_run:
  "core_inv s \<Longrightarrow> proto_bgp_peer_snd_buffer_size env tokens s = Some (Inr (t, s')) \<Longrightarrow> bgp_run s s'"
  unfolding proto_bgp_peer_snd_buffer_size_def
  by (erule on_peer_run)
    (auto simp: Let_def rbind_eq_Inr set_tcp_bgp_tx_buffer_size_def set_tcp_tx_buffer_size_def buffer_swap tx_buffer_run split: if_splits)

lemma dumper_run: "core_inv s \<Longrightarrow> bgp_run s (s\<lparr>dumper := d\<rparr>)" "core_inv s \<Longrightarrow> bgp_run s (s\<lparr>dumper_on_off := b\<rparr>)"
  using run_same_q [OF _ step_dumper [where s = s and on = "dumper_on_off s" and d = d]] run_same_q [OF _ step_dumper [where s = s and on = b and d = "dumper s"]] by simp_all

lemma logging_run: "core_inv s \<Longrightarrow> set_peer_logging env tokens s = Some (Inr (t, s')) \<Longrightarrow> bgp_run s s'"
  unfolding set_peer_logging_def
  by (erule on_peer_run) (auto simp: Let_def rbind_eq_Inr run_start dumper_run split: if_splits)

lemma number_alias_run: "core_inv s \<Longrightarrow> number_alias code tokens s = Some (Inr (t, s')) \<Longrightarrow> bgp_run s s'"
  unfolding number_alias_def by (erule on_peer_run) (auto simp: rbind_eq_Inr intro: set_alias_run)

lemma alias_run:
  "core_inv s \<Longrightarrow> proto_bgp_attribute_bgp_id_translate_value tokens s = Some (Inr (t, s')) \<Longrightarrow> bgp_run s s'"
  "core_inv s \<Longrightarrow> proto_bgp_attribute_origin_translate_value tokens s = Some (Inr (t, s')) \<Longrightarrow> bgp_run s s'"
  "core_inv s \<Longrightarrow> proto_bgp_attribute_v4nexthop_translate_value tokens s = Some (Inr (t, s')) \<Longrightarrow> bgp_run s s'"
  unfolding proto_bgp_attribute_bgp_id_translate_value_def proto_bgp_attribute_origin_translate_value_def
    proto_bgp_attribute_v4nexthop_translate_value_def
  by (erule on_peer_run, auto simp: rbind_eq_Inr intro: set_alias_run)+

lemma toggle_run: "core_inv s \<Longrightarrow> proto_bgp_toggle_update_dump env tokens s = Some (Inr (t, s')) \<Longrightarrow> bgp_run s s'"
  by (auto simp: proto_bgp_toggle_update_dump_def rbind_eq_Inr run_start dumper_run split: if_splits)

lemma instance_run:
  "core_inv s \<Longrightarrow> set_bgp_id env tokens s = Some (Inr (t, s')) \<Longrightarrow> bgp_run s s'"
  "core_inv s \<Longrightarrow> kill_all_signal env tokens s = Some (Inr (t, s')) \<Longrightarrow> bgp_run s s'"
  "core_inv s \<Longrightarrow> write_configs env tokens s = Some (Inr (t, s')) \<Longrightarrow> bgp_run s s'"
  by (auto simp: set_bgp_id_def kill_all_signal_def write_configs_def rbind_eq_Inr run_start set_id_def
      intro: run_same_q step_id [unfolded set_id_def] step_stop step_conf split: if_splits)

lemmas command_runs = run_start api_get_prefix_run show_bgp_prefix_run proto_bgp_neighbor_run rcv_buffer_run
  snd_buffer_run logging_run alias_run toggle_run instance_run number_alias_run

lemma run_command_run: "core_inv s \<Longrightarrow> run_command f env tokens s = Some (Inr (t, s')) \<Longrightarrow> bgp_run s s'"
  by (cases f)
    (auto intro: command_runs simp: rbind_eq_Inr show_bgp_neighbors_def show_bgp_adj_rib_in_def
      proto_bgp_attribute_aspath_translate_value_def proto_bgp_attribute_med_translate_value_def
      proto_bgp_attribute_localpref_translate_value_def proto_bgp_attribute_community_translate_value_def)

lemma ExecuteLine_run: "core_inv s \<Longrightarrow> ExecuteLine env line s = Some (Inr (t, s')) \<Longrightarrow> bgp_run s s'"
  by (auto simp: ExecuteLine_def run_start intro: run_command_run split: if_splits option.splits)

text \<open>
  C15: a command line keeps the program in its reachable states: whatever is typed in a reachable
  state, if the command returns then the state after it is reachable by the steps of the threads,
  with no requirement on router ids left open. So every invariant of the reachable states holds
  after any sequence of commands.
\<close>

theorem command_reachable:
  assumes "bgp_run (new_bgp ok as) s" and "ExecuteLine env line s = Some (Inr (reply, s'))"
  shows "bgp_run (new_bgp ok as) s'"
  using bgp_run_trans [OF ExecuteLine_run [OF core_inv_run [OF assms(1) core_inv_new] assms(2)] assms(1)] .

text \<open>An environment in which every system call succeeds.\<close>

definition plain_env :: cli_env where
  "plain_env = \<lparr>cli_now = 0, cli_addr = 0, cli_p_ip = [], cli_b_ip = [], cli_udp_socket = 3,
     cli_config_opens = True, cli_sock_ok = True, cli_buf_ok = True, cli_rcvbuf = (\<lambda>_. 0), cli_sndbuf = (\<lambda>_. 0),
     cli_rib_bytes = 48, cli_update_bytes = 120, cli_rib_max = 0\<rparr>"

section \<open>Typing a command\<close>

lemma ExecuteLine_spelled:
  assumes "c \<in> set cmds" and "cmd_name c \<noteq> []" and "spells c toks d" and "cmd_func d = Some f"
    and "words line = cmd_name c # toks"
  shows "ExecuteLine env line s = run_command f env (cmd_name c # toks) s"
proof -
  from find_spelled [OF assms(1-3)] obtain d' where
    "FindCommand (CmdInit cmds) (cmd_name c # toks) = Some d'" "cmd_func d' = Some f" using assms(4) by auto
  moreover have "line \<noteq> []" using assms(5) by auto
  ultimately show ?thesis using assms(5) by (simp add: ExecuteLine_def)
qed

lemma root_commands: "cmds_neighbor \<in> set cmds" "node ''bgp-id'' Set_bgp_id [leaf ''<x.x.x.x>'' Set_bgp_id] \<in> set cmds"
  "node ''dumper'' Proto_bgp_toggle_update_dump
     [leaf ''on'' Proto_bgp_toggle_update_dump, leaf ''off'' Proto_bgp_toggle_update_dump] \<in> set cmds"
  "leaf ''write'' Write_configs \<in> set cmds" "leaf ''kill-all'' Kill_all_signal \<in> set cmds" "cmds_show \<in> set cmds"
  by (simp_all add: cmds_def)

lemma cmds_neighbor_name [simp]: "cmd_name cmds_neighbor = ''neighbor''"
  by (simp add: cmds_neighbor_def)

text \<open>The lines that configure a neighbour.\<close>

text \<open>The function that the words below \<^verbatim>\<open>neighbor\<close> lead to.\<close>

definition leads_to :: "COMMAND \<Rightarrow> string list \<Rightarrow> cmd_func \<Rightarrow> bool" where
  "leads_to c toks f \<longleftrightarrow> (\<exists>d. spells c toks d \<and> cmd_func d = Some f)"

lemma leads_to_simps:
  "leads_to c [] f \<longleftrightarrow> cmd_func c = Some f"
  "leads_to c (tok # toks) f \<longleftrightarrow> (\<exists>e \<in> set (sub_command c). (tok = cmd_name e \<or> placeholder e) \<and> leads_to e toks f)"
  by (auto simp: leads_to_def spells_step)

lemmas tree_simps = leads_to_simps placeholder_def cmds_neighbor_def cmds_attribute_def cmds_show_def

lemma ExecuteLine_leads:
  assumes "c \<in> set cmds" and "words line = cmd_name c # toks" and "cmd_name c \<noteq> []" and "leads_to c toks f"
  shows "ExecuteLine env line s = run_command f env (words line) s"
  using assms ExecuteLine_spelled [OF assms(1,3)] by (auto simp: leads_to_def)

lemmas neighbor_leads = ExecuteLine_leads [OF root_commands(1), unfolded cmds_neighbor_name]

lemma neighbor_lines:
  "words line = [''neighbor'', ip, ''remote-as'', n] \<Longrightarrow>
     ExecuteLine env line s = proto_bgp_neighbor env (words line) s"
  "words line = [''neighbor'', ip, ''tx-buffer'', n, m] \<Longrightarrow>
     ExecuteLine env line s = proto_bgp_peer_snd_buffer_size env (words line) s"
  "words line = [''neighbor'', ip, ''rx-buffer'', n, m] \<Longrightarrow>
     ExecuteLine env line s = proto_bgp_peer_rcv_buffer_size env (words line) s"
  "words line = [''neighbor'', ip, ''logging'', ''host'', h, n] \<Longrightarrow>
     ExecuteLine env line s = set_peer_logging env (words line) s"
  "words line = [''neighbor'', ip] \<Longrightarrow> ExecuteLine env line s = proto_bgp_neighbor env (words line) s"
  using neighbor_leads [where f = Proto_bgp_neighbor] neighbor_leads [where f = Proto_bgp_peer_snd_buffer_size]
    neighbor_leads [where f = Proto_bgp_peer_rcv_buffer_size] neighbor_leads [where f = Set_peer_logging]
  by (simp_all add: tree_simps)

lemma alias_lines:
  "words line = [''neighbor'', ip, ''attribute'', ''bgp-id'', ''alias'', t] \<Longrightarrow>
     ExecuteLine env line s = proto_bgp_attribute_bgp_id_translate_value (words line) s"
  "words line = [''neighbor'', ip, ''attribute'', ''as-path'', ''alias'', n, t] \<Longrightarrow>
     ExecuteLine env line s = number_alias Attr_as_path (words line) s"
  "words line = [''neighbor'', ip, ''attribute'', ''next-hop'', ''alias'', ''ipv4'', n, t] \<Longrightarrow>
     ExecuteLine env line s = proto_bgp_attribute_v4nexthop_translate_value (words line) s"
  "words line = [''neighbor'', ip, ''attribute'', ''community'', ''alias'', n, t] \<Longrightarrow>
     ExecuteLine env line s = number_alias Attr_community (words line) s"
  using neighbor_leads [where f = Proto_bgp_attribute_bgp_id] neighbor_leads [where f = Proto_bgp_attribute_aspath]
    neighbor_leads [where f = Proto_bgp_attribute_v4nexthop] neighbor_leads [where f = Proto_bgp_attribute_community]
  by (simp_all add: tree_simps proto_bgp_attribute_aspath_translate_value_def
      proto_bgp_attribute_community_translate_value_def)

lemma instance_lines:
  "words line = [''bgp-id'', t] \<Longrightarrow> ExecuteLine env line s = set_bgp_id env (words line) s"
  "words line = [''dumper'', ''on''] \<Longrightarrow> ExecuteLine env line s = proto_bgp_toggle_update_dump env (words line) s"
  "words line = [''write''] \<Longrightarrow> ExecuteLine env line s = write_configs env (words line) s"
  "words line = [''kill-all''] \<Longrightarrow> ExecuteLine env line s = kill_all_signal env (words line) s"
  "words line = [''show'', ''bgp'', ''neighbors''] \<Longrightarrow> ExecuteLine env line s = show_bgp_neighbors env (words line) s"
  using ExecuteLine_leads [OF root_commands(2), where f = Set_bgp_id]
    ExecuteLine_leads [OF root_commands(3), where f = Proto_bgp_toggle_update_dump]
    ExecuteLine_leads [OF root_commands(4), where f = Write_configs]
    ExecuteLine_leads [OF root_commands(5), where f = Kill_all_signal]
    ExecuteLine_leads [OF root_commands(6), where f = Show_bgp_neighbors]
  by (simp_all add: tree_simps)

text \<open>A first word that begins no command.\<close>

lemma set_commands: "set (CmdInit cmds) = sorted_command ` set (takeWhile (\<lambda>c. cmd_name c \<noteq> []) cmds)"
  by (simp add: CmdInit_sorted)

lemma abbreviates_sorted [simp]: "abbreviates t (sorted_command c) = abbreviates t c"
  by (simp add: abbreviates_def)

lemma no_command: "find (abbreviates t) (rev (CmdInit cmds)) = None" if "t = ''protocol'' \<or> t = ''!''"
proof -
  have "\<forall>c \<in> set (CmdInit cmds). \<not> abbreviates t c"
    using that by (simp add: set_commands) (auto simp: cmds_def cmds_api_get_def cmds_show_def abbreviates_def split: if_splits)
  then show ?thesis by (simp add: find_None_iff)
qed

lemma other_lines:
  "words line = t # ts \<Longrightarrow> t = ''protocol'' \<or> t = ''!'' \<Longrightarrow>
     ExecuteLine env line s = Some (Inr (line @ '' % invalid command.'' @ nl, s))"
  by (simp add: ExecuteLine_def FindCommand_def no_command) auto

text \<open>Lines made of literals and of words without blanks.\<close>

lemma words_first: "is_token w \<Longrightarrow> words (w @ '' '' @ x) = w # words x"
  by (simp add: words_token words_space)

lemma words_last: "is_token w \<Longrightarrow> words w = [w]"
  using words_token [of w "[]"] by simp

lemma literal_words:
  "words (''  neighbor '' @ x) = ''neighbor'' # words x" "words ('' remote-as '' @ x) = ''remote-as'' # words x"
  "words ('' tx-buffer '' @ x) = ''tx-buffer'' # words x" "words ('' rx-buffer '' @ x) = ''rx-buffer'' # words x"
  "words ('' attribute '' @ x) = ''attribute'' # words x" "words (''bgp-id alias '' @ x) = ''bgp-id'' # ''alias'' # words x"
  "words (''as-path alias '' @ x) = ''as-path'' # ''alias'' # words x"
  "words (''next-hop alias ipv4 '' @ x) = ''next-hop'' # ''alias'' # ''ipv4'' # words x"
  "words (''community alias '' @ x) = ''community'' # ''alias'' # words x"
  "words ('' bgp-id '' @ x) = ''bgp-id'' # words x" "words (''protocol bgp '' @ x) = ''protocol'' # ''bgp'' # words x"
  "words (''neighbor '' @ x) = ''neighbor'' # words x"
  by (subst words.simps, simp add: is_space_def words_space)+

lemma mid_words:
  assumes "is_token w"
  shows "words (w @ '' remote-as '' @ x) = w # ''remote-as'' # words x"
    "words (w @ '' tx-buffer '' @ x) = w # ''tx-buffer'' # words x"
    "words (w @ '' rx-buffer '' @ x) = w # ''rx-buffer'' # words x"
    "words (w @ '' attribute '' @ x) = w # ''attribute'' # words x"
  by (subst words_token [OF assms], simp, simp only: literal_words)+

lemmas line_words = literal_words mid_words words_first words_last show_nat_token inet_ntoa_token

section \<open>The configuration that is written can be read\<close>

text \<open>The lines of a text, typed one after the other.\<close>

definition execute_text :: "cli_env \<Rightarrow> string \<Rightarrow> bgp \<Rightarrow> bgp result option" where
  "execute_text env t s = execute_lines env (split_on (CHR 0x0A) t) s"

lemma execute_text_line:
  "ExecuteLine env l s = Some (Inr (r, s')) \<Longrightarrow> CHR 0x0A \<notin> set l \<Longrightarrow>
     execute_text env (l @ nl @ rest) s = execute_text env rest s'"
  by (simp add: execute_text_def nl_def split_on_append)

lemma execute_text_words:
  assumes "words l = ws" and "ExecuteLine env l s = h (words l) s" and "h ws s = Some (Inr (r, s'))"
    and "CHR 0x0A \<notin> set l"
  shows "execute_text env (l @ nl @ rest) s = execute_text env rest s'"
  using assms by (intro execute_text_line) simp_all

lemma ExecuteLine_empty [simp]: "ExecuteLine env [] s = Some (Inr ([], s))"
  by (simp only: ExecuteLine_def if_True refl simp_thms)

lemma execute_text_end: "execute_text env [] s = Some (Inr s)"
  by (simp add: execute_text_def)

lemma token_no_newline: "is_token w \<Longrightarrow> CHR 0x0A \<notin> set w"
proof -
  assume "is_token w"
  moreover have "is_space (CHR 0x0A)" by (simp add: is_space_def)
  ultimately show ?thesis unfolding is_token_def by blast
qed

lemmas newline_simps = token_no_newline [OF show_nat_token] token_no_newline [OF inet_ntoa_token]

text \<open>
  The identifier that an alias of the router id is stored under is the one the neighbour has when
  the alias is set, 0 before its first OPEN.
\<close>

definition alias_replay :: "translate_attribs_base \<Rightarrow> translate_attribs_base" where
  "alias_replay t = (if tr_code t = Attr_bgp_id then t\<lparr>tr_value := 0\<rparr> else t)"

text \<open>What can be configured of a neighbour.\<close>

definition peer_view ::
    "bgp_peer \<Rightarrow> string \<times> u16 \<times> (int \<times> int) \<times> (int \<times> int) \<times> translate_attribs_base list" where
  "peer_view p = (p_ip p, p_AS p, (tcp_tx_socket_buffer_size p, bgp_tx_buffer_size p),
     (tcp_rx_socket_buffer_size p, bgp_rx_buffer_size p), map alias_replay (translate_attribs p))"

text \<open>What the format can hold: aliases of the attributes it implements, labels without blanks.\<close>

definition alias_savable :: "translate_attribs_base \<Rightarrow> bool" where
  "alias_savable t \<longleftrightarrow>
     tr_code t \<in> {Attr_bgp_id, Attr_as_path, Attr_next_hop, Attr_community} \<and> is_token (printable_attrib t)"

definition aliases_savable :: "translate_attribs_base list \<Rightarrow> bool" where
  "aliases_savable ts \<longleftrightarrow>
     list_all alias_savable ts \<and> sorted (map tr_code ts)
     \<and> distinct (map (\<lambda>t. (tr_code t, tr_value (alias_replay t))) ts)"

definition size_ok :: "int \<Rightarrow> bool" where
  "size_ok n \<longleftrightarrow> 0 \<le> n \<and> n < 2 ^ 31"

definition peer_savable :: "bgp_syslog \<Rightarrow> bgp_peer \<Rightarrow> bool" where
  "peer_savable d p \<longleftrightarrow>
     inet_pton (p_ip p) \<noteq> Some 0 \<and> inet_pton (p_ip p) \<noteq> None \<and> p_ip p = inet_ntoa (the (inet_pton (p_ip p)))
     \<and> size_ok (tcp_tx_socket_buffer_size p) \<and> size_ok (bgp_tx_buffer_size p)
     \<and> size_ok (tcp_rx_socket_buffer_size p) \<and> size_ok (bgp_rx_buffer_size p)
     \<and> aliases_savable (translate_attribs p) \<and> is_aliasing p = (translate_attribs p \<noteq> [])
     \<and> map_find udp_sort (p_bgp_id p) (udp_map d) = None"

lemma get_last_peer:
  "p_ip p = ip \<Longrightarrow> ip \<noteq> [] \<Longrightarrow> ip \<notin> p_ip ` set q \<Longrightarrow> get_peer_by_str_ip ip (q @ [p]) = Some (length q)"
proof -
  assume *: "p_ip p = ip" "ip \<noteq> []" "ip \<notin> p_ip ` set q"
  then have "find_index (\<lambda>x. ip = p_ip x) q = None" by (auto simp: find_index_None)
  with * show ?thesis by (simp add: get_peer_by_str_ip_def find_index_append)
qed

lemma size_text: "size_ok n \<Longrightarrow> int_to_string n = show_nat (nat n)" "size_ok n \<Longrightarrow> atoi (show_nat (nat n)) = n"
  by (simp_all add: size_ok_def int_to_string_def atoi_show_nat nat_less_iff)

lemma inet_ntoa_not_Nil [simp]: "inet_ntoa a \<noteq> []"
  using inet_ntoa_token [of a] by (simp add: is_token_def)

text \<open>The last neighbour is the one being configured: \<open>q\<close> are those before it.\<close>

definition with_last :: "bgp \<Rightarrow> bgp_peer list \<Rightarrow> bgp_peer \<Rightarrow> bgp" where
  "with_last s q p = s\<lparr>thread_q := q @ [p]\<rparr>"

lemma with_last_simps [simp]:
  "thread_q (with_last s q p) = q @ [p]" "set_peer (length q) p' (with_last s q p) = with_last s q p'"
  by (simp_all add: with_last_def set_peer_def)

lemma tx_line:
  assumes "p_ip p = inet_ntoa a" "inet_ntoa a \<notin> p_ip ` set q" "rx p = None" "size_ok n" "size_ok m"
  shows "execute_text env (''  neighbor '' @ inet_ntoa a @ '' tx-buffer '' @ int_to_string n @ '' '' @ int_to_string m @ nl @ rest)
      (with_last s q p) =
    execute_text env rest (with_last s q (p\<lparr>tcp_tx_socket_buffer_size := n, bgp_tx_buffer_size := m\<rparr>))"
proof -
  let ?l = "''  neighbor '' @ inet_ntoa a @ '' tx-buffer '' @ show_nat (nat n) @ '' '' @ show_nat (nat m)"
  let ?ws = "[''neighbor'', inet_ntoa a, ''tx-buffer'', show_nat (nat n), show_nat (nat m)]"
  have w: "words ?l = ?ws" by (simp only: line_words)
  have h: "\<exists>r. proto_bgp_peer_snd_buffer_size env ?ws (with_last s q p) =
      Some (Inr (r, with_last s q (p\<lparr>tcp_tx_socket_buffer_size := n, bgp_tx_buffer_size := m\<rparr>)))"
    using assms by (simp add: proto_bgp_peer_snd_buffer_size_def on_peer_def token_def
        get_last_peer connected_def set_tcp_tx_buffer_size_def size_text buffer_swap Let_def)
  then obtain r where r: "proto_bgp_peer_snd_buffer_size env ?ws (with_last s q p) =
      Some (Inr (r, with_last s q (p\<lparr>tcp_tx_socket_buffer_size := n, bgp_tx_buffer_size := m\<rparr>)))" ..
  have "CHR 0x0A \<notin> set ?l" by (simp add: newline_simps)
  from execute_text_words [where h = "proto_bgp_peer_snd_buffer_size env", OF w neighbor_lines(2) [OF w] r this, of rest] show ?thesis
    by (simp only: append_assoc size_text [OF assms(4)] size_text [OF assms(5)])
qed

lemma rx_line:
  assumes "p_ip p = inet_ntoa a" "inet_ntoa a \<notin> p_ip ` set q" "rx p = None" "size_ok n" "size_ok m"
  shows "execute_text env (''  neighbor '' @ inet_ntoa a @ '' rx-buffer '' @ int_to_string n @ '' '' @ int_to_string m @ nl @ rest)
      (with_last s q p) =
    execute_text env rest (with_last s q (p\<lparr>tcp_rx_socket_buffer_size := n, bgp_rx_buffer_size := m\<rparr>))"
proof -
  let ?l = "''  neighbor '' @ inet_ntoa a @ '' rx-buffer '' @ show_nat (nat n) @ '' '' @ show_nat (nat m)"
  let ?ws = "[''neighbor'', inet_ntoa a, ''rx-buffer'', show_nat (nat n), show_nat (nat m)]"
  have w: "words ?l = ?ws" by (simp only: line_words)
  have h: "\<exists>r. proto_bgp_peer_rcv_buffer_size env ?ws (with_last s q p) =
      Some (Inr (r, with_last s q (p\<lparr>tcp_rx_socket_buffer_size := n, bgp_rx_buffer_size := m\<rparr>)))"
    using assms by (simp add: proto_bgp_peer_rcv_buffer_size_def on_peer_def token_def
        get_last_peer connected_def set_tcp_rx_buffer_size_def size_text buffer_swap Let_def)
  then obtain r where r: "proto_bgp_peer_rcv_buffer_size env ?ws (with_last s q p) =
      Some (Inr (r, with_last s q (p\<lparr>tcp_rx_socket_buffer_size := n, bgp_rx_buffer_size := m\<rparr>)))" ..
  have "CHR 0x0A \<notin> set ?l" by (simp add: newline_simps)
  from execute_text_words [where h = "proto_bgp_peer_rcv_buffer_size env", OF w neighbor_lines(3) [OF w] r this, of rest] show ?thesis
    by (simp only: append_assoc size_text [OF assms(4)] size_text [OF assms(5)])
qed

text \<open>The neighbour that \<^verbatim>\<open>neighbor ... remote-as\<close> starts.\<close>

lemma unat_u16_less: "unat (w :: u16) < 2 ^ 31"
  by (rule less_le_trans [OF unsigned_less]) simp

lemma u16_text [simp]: "of_int (atoi (show_nat (unat w))) = (w :: u16)"
  by (simp only: atoi_show_nat [OF unat_u16_less]) simp

lemma peer_exists_fresh:
  "\<forall>x \<in> set q. ipv4 x = 0 \<Longrightarrow> ipv4 p \<noteq> 0 \<Longrightarrow> length q \<le> 255 \<Longrightarrow> peer_exists (Some p) q = Some False"
  by (auto simp: peer_exists_def list_ex_iff dest!: in_set_takeD)

lemma as_words: "words (''  neighbor '' @ inet_ntoa a @ '' remote-as '' @ show_nat n) = [''neighbor'', inet_ntoa a, ''remote-as'', show_nat n]"
  by (simp only: line_words)

lemma neighbor_started:
  assumes "a \<noteq> 0" "\<forall>x \<in> set (thread_q s). ipv4 x = 0" "length (thread_q s) \<le> 255"
  shows "proto_bgp_neighbor env [''neighbor'', inet_ntoa a, ''remote-as'', show_nat (unat as)] s =
    Some (Inr ([], with_last s (thread_q s)
      ((new_peer [] (cli_b_ip env))\<lparr>p_AS := as, p_addr_family := AF_INET, p_ip := inet_ntoa a\<rparr>)))"
proof -
  have "peer_exists (Some (neighbor_params env (inet_ntoa a))) (thread_q s) = Some False"
    using assms by (intro peer_exists_fresh) (simp_all add: neighbor_params_def Let_def)
  moreover have "take 16 (inet_ntoa a) = inet_ntoa a" using length_inet_ntoa [of a] by simp
  ultimately show ?thesis
    by (simp add: proto_bgp_neighbor_def token_def neighbor_start_def start_peer_def with_last_def copy_peer_def
        neighbor_params_def Let_def)
qed

lemma as_line:
  assumes "a \<noteq> 0" "\<forall>x \<in> set (thread_q s). ipv4 x = 0" "length (thread_q s) \<le> 255"
  shows "execute_text env (''  neighbor '' @ inet_ntoa a @ '' remote-as '' @ show_nat (unat as) @ nl @ rest) s =
    execute_text env rest
      (with_last s (thread_q s) ((new_peer [] (cli_b_ip env))\<lparr>p_AS := as, p_addr_family := AF_INET, p_ip := inet_ntoa a\<rparr>))"
proof -
  have "CHR 0x0A \<notin> set (''  neighbor '' @ inet_ntoa a @ '' remote-as '' @ show_nat (unat as))"
    by (simp add: newline_simps)
  from execute_text_words [where h = "proto_bgp_neighbor env", OF as_words neighbor_lines(1) [OF as_words]
      neighbor_started [OF assms] this, of rest]
  show ?thesis by (simp only: append_assoc)
qed

text \<open>One alias, typed for the last neighbour before its first session.\<close>

lemma set_translation_last:
  assumes "\<forall>t \<in> set (translate_attribs p). \<not> alias_matches code v t" "\<forall>t \<in> set (translate_attribs p). tr_code t \<le> code"
    "sorted (map tr_code (translate_attribs p))"
  shows "set_translation code v new p =
    Inr (p\<lparr>translate_attribs := translate_attribs p @ [\<lparr>tr_code = code, tr_value = v, printable_attrib = new\<rparr>],
           is_aliasing := True\<rparr>)"
proof -
  have "sorted (map tr_code (translate_attribs p @ [\<lparr>tr_code = code, tr_value = v, printable_attrib = new\<rparr>]))"
    using assms(2,3) by (simp add: sorted_append)
  from sort_key_id_if_sorted [OF this] alias_loop_no_match [OF assms(1), of 0 "length (translate_attribs p)"]
  show ?thesis by (simp add: set_translation_def alias_sort_def)
qed

definition alias_words :: "string \<Rightarrow> translate_attribs_base \<Rightarrow> string list" where
  "alias_words ip t =
     [''neighbor'', ip, ''attribute''] @
     (case tr_code t of
        Attr_bgp_id \<Rightarrow> [''bgp-id'', ''alias'', printable_attrib t]
      | Attr_as_path \<Rightarrow> [''as-path'', ''alias'', show_u32 (tr_value t), printable_attrib t]
      | Attr_next_hop \<Rightarrow> [''next-hop'', ''alias'', ''ipv4'', ip_to_string (tr_value t), printable_attrib t]
      | _ \<Rightarrow> [''community'', ''alias'', show_u32 (tr_value t), printable_attrib t])"

lemma alias_line_words:
  assumes "alias_savable t" and "is_token ip"
  obtains l where "alias_line ip t = l @ nl" and "words l = alias_words ip t" and "CHR 0x0A \<notin> set l"
proof -
  let ?v = "printable_attrib t"
  have tok: "is_token ?v" using assms(1) by (simp add: alias_savable_def)
  note no = newline_simps token_no_newline [OF tok] token_no_newline [OF assms(2)]
  from assms(1) consider "tr_code t = Attr_bgp_id" | "tr_code t = Attr_as_path" | "tr_code t = Attr_next_hop"
    | "tr_code t = Attr_community" by (auto simp: alias_savable_def)
  then show thesis
  proof cases
    case 1
    have "words (''  neighbor '' @ ip @ '' attribute '' @ ''bgp-id alias '' @ ?v) = alias_words ip t"
      by (simp only: line_words assms(2) tok) (simp add: alias_words_def 1)
    then show ?thesis by (rule that [rotated]) (simp_all add: alias_line_def 1 no)
  next
    case 2
    have "words (''  neighbor '' @ ip @ '' attribute '' @ ''as-path alias '' @ show_u32 (tr_value t) @ '' '' @ ?v) = alias_words ip t"
      by (simp only: line_words assms(2) tok show_u32_def) (simp add: alias_words_def 2 show_u32_def)
    then show ?thesis by (rule that [rotated]) (simp_all add: alias_line_def 2 no show_u32_def)
  next
    case 3
    have "words (''  neighbor '' @ ip @ '' attribute '' @ ''next-hop alias ipv4 '' @ ip_to_string (tr_value t) @ '' '' @ ?v) = alias_words ip t"
      by (simp only: line_words assms(2) tok ip_to_string_def) (simp add: alias_words_def 3 ip_to_string_def)
    then show ?thesis by (rule that [rotated]) (simp_all add: alias_line_def 3 no ip_to_string_def)
  next
    case 4
    have "words (''  neighbor '' @ ip @ '' attribute '' @ ''community alias '' @ show_u32 (tr_value t) @ '' '' @ ?v) = alias_words ip t"
      by (simp only: line_words assms(2) tok show_u32_def) (simp add: alias_words_def 4 show_u32_def)
    then show ?thesis by (rule that [rotated]) (simp_all add: alias_line_def 4 no show_u32_def)
  qed
qed

lemma alias_replay_sel [simp]:
  "tr_code (alias_replay t) = tr_code t" "printable_attrib (alias_replay t) = printable_attrib t"
  by (simp_all add: alias_replay_def)

lemma alias_replay_eq:
  "\<lparr>tr_code = tr_code t, tr_value = tr_value (alias_replay t), printable_attrib = printable_attrib t\<rparr> = alias_replay t"
  by (cases t) (simp add: alias_replay_def)

lemma alias_line_run:
  assumes t: "alias_savable t" and p: "p_ip p = inet_ntoa a" "inet_ntoa a \<notin> p_ip ` set q" "p_bgp_id p = 0"
    and ts: "\<forall>x \<in> set (translate_attribs p). \<not> alias_matches (tr_code t) (tr_value (alias_replay t)) x"
      "\<forall>x \<in> set (translate_attribs p). tr_code x \<le> tr_code t" "sorted (map tr_code (translate_attribs p))"
  shows "execute_text env (alias_line (inet_ntoa a) t @ rest) (with_last s q p) =
    execute_text env rest (with_last s q (p\<lparr>translate_attribs := translate_attribs p @ [alias_replay t], is_aliasing := True\<rparr>))"
    (is "_ = execute_text env rest ?s")
proof -
  obtain l where l: "alias_line (inet_ntoa a) t = l @ nl" "words l = alias_words (inet_ntoa a) t" "CHR 0x0A \<notin> set l"
    by (rule alias_line_words [OF t inet_ntoa_token])
  have tr: "set_translation (tr_code t) (tr_value (alias_replay t)) (printable_attrib t) p =
      Inr (p\<lparr>translate_attribs := translate_attribs p @ [alias_replay t], is_aliasing := True\<rparr>)"
    using set_translation_last [OF ts, of "printable_attrib t"] by (simp only: alias_replay_eq)
  note get = get_last_peer [OF p(1) inet_ntoa_not_Nil p(2)]
  from t consider "tr_code t = Attr_bgp_id" | "tr_code t = Attr_as_path" | "tr_code t = Attr_next_hop"
    | "tr_code t = Attr_community" by (auto simp: alias_savable_def)
  then have "ExecuteLine env l (with_last s q p) = Some (Inr ([], ?s))"
  proof cases
    case 1
    with tr show ?thesis
      by (subst alias_lines(1)) (simp_all add: l(2) alias_words_def on_peer_def token_def get set_alias_def
          proto_bgp_attribute_bgp_id_translate_value_def alias_replay_def p)
  next
    case 2
    with tr show ?thesis
      by (subst alias_lines(2)) (simp_all add: l(2) alias_words_def on_peer_def token_def get set_alias_def
          number_alias_def alias_replay_def show_u32_def)
  next
    case 3
    with tr show ?thesis
      by (subst alias_lines(3)) (simp_all add: l(2) alias_words_def on_peer_def token_def get set_alias_def
          proto_bgp_attribute_v4nexthop_translate_value_def alias_replay_def ip_to_string_def)
  next
    case 4
    with tr show ?thesis
      by (subst alias_lines(4)) (simp_all add: l(2) alias_words_def on_peer_def token_def get set_alias_def
          number_alias_def alias_replay_def show_u32_def)
  qed
  from execute_text_line [OF this l(3)] l(1) show ?thesis by simp
qed

lemma aliases_run:
  assumes "aliases_savable (done @ ts)" and "translate_attribs p = map alias_replay done"
    and "p_ip p = inet_ntoa a" "inet_ntoa a \<notin> p_ip ` set q" "p_bgp_id p = 0"
  shows "execute_text env (concat (map (alias_line (inet_ntoa a)) ts) @ rest) (with_last s q p) =
    execute_text env rest (with_last s q (p\<lparr>translate_attribs := map alias_replay (done @ ts),
      is_aliasing := (is_aliasing p \<or> ts \<noteq> [])\<rparr>))"
  using assms
proof (induction ts arbitrary: "done" p)
  case Nil
  then show ?case by (simp flip: Nil.prems(2))
next
  case (Cons t ts)
  let ?p = "p\<lparr>translate_attribs := translate_attribs p @ [alias_replay t], is_aliasing := True\<rparr>"
  have sav: "alias_savable t" "\<forall>x \<in> set done. tr_code x \<le> tr_code t" "sorted (map tr_code done)"
    "(tr_code t, tr_value (alias_replay t)) \<notin> (\<lambda>t. (tr_code t, tr_value (alias_replay t))) ` set done"
    using Cons.prems(1) by (auto simp: aliases_savable_def sorted_append)
  have step: "execute_text env (alias_line (inet_ntoa a) t @ r) (with_last s q p) = execute_text env r (with_last s q ?p)" for r
    using sav Cons.prems(2-) by (intro alias_line_run) (auto simp: alias_matches_def o_def image_iff)
  have "aliases_savable ((done @ [t]) @ ts)" using Cons.prems(1) by simp
  from Cons.IH [OF this, of ?p] Cons.prems(2-) step show ?case by simp
qed

lemma bang_lines:
  "execute_text env (''  !'' @ nl @ rest) s = execute_text env rest s"
  "execute_text env (''!'' @ nl @ rest) s = execute_text env rest s"
  by (rule execute_text_line [OF other_lines [of _ "''!''" "[]"]];
      simp add: words.simps [of "''  !''"] words.simps [of "''!''"] is_space_def)+

lemma new_peer_sel [simp]:
  "rx (new_peer ip bip) = None" "p_bgp_id (new_peer ip bip) = 0" "ipv4 (new_peer ip bip) = 0"
  "translate_attribs (new_peer ip bip) = []" "is_aliasing (new_peer ip bip) = False"
  by (simp_all add: new_peer_def bgp_peer.defs tcp_client.defs new_tcp_client_def)

lemma peer_config_run:
  assumes p: "peer_savable d p" and s: "p_ip p \<notin> p_ip ` set (thread_q s)" "\<forall>x \<in> set (thread_q s). ipv4 x = 0"
    "length (thread_q s) \<le> 255"
  obtains p' where "\<And>rest. execute_text env (peer_config d p @ rest) s = execute_text env rest (with_last s (thread_q s) p')"
    and "peer_view p' = peer_view p" and "ipv4 p' = 0"
proof -
  obtain a where "inet_pton (p_ip p) = Some a" using p by (auto simp: peer_savable_def)
  then have a: "a \<noteq> 0" "p_ip p = inet_ntoa a" using p by (auto simp: peer_savable_def)
  let ?q = "thread_q s"
  let ?p1 = "(new_peer [] (cli_b_ip env))\<lparr>p_AS := p_AS p, p_addr_family := AF_INET, p_ip := inet_ntoa a\<rparr>"
  let ?p2 = "?p1\<lparr>tcp_tx_socket_buffer_size := tcp_tx_socket_buffer_size p, bgp_tx_buffer_size := bgp_tx_buffer_size p\<rparr>"
  let ?p3 = "?p2\<lparr>tcp_rx_socket_buffer_size := tcp_rx_socket_buffer_size p, bgp_rx_buffer_size := bgp_rx_buffer_size p\<rparr>"
  let ?ts = "if is_aliasing p then translate_attribs p else []"
  let ?p4 = "?p3\<lparr>translate_attribs := map alias_replay ?ts, is_aliasing := (?ts \<noteq> [])\<rparr>"
  have q: "inet_ntoa a \<notin> p_ip ` set ?q" using s(1) a(2) by simp
  have sz: "size_ok (tcp_tx_socket_buffer_size p)" "size_ok (bgp_tx_buffer_size p)" "size_ok (tcp_rx_socket_buffer_size p)"
    "size_ok (bgp_rx_buffer_size p)" and ts: "aliases_savable ([] @ ?ts)" "translate_attribs p = ?ts"
    and no_log: "logging_line d p = []"
    using p by (auto simp: peer_savable_def aliases_savable_def logging_line_def)
  have lines: "peer_config d p @ rest =
     ''  !'' @ nl
     @ ''  neighbor '' @ inet_ntoa a @ '' remote-as '' @ show_nat (unat (p_AS p)) @ nl
     @ ''  neighbor '' @ inet_ntoa a @ '' tx-buffer '' @ int_to_string (tcp_tx_socket_buffer_size p)
       @ '' '' @ int_to_string (bgp_tx_buffer_size p) @ nl
     @ ''  neighbor '' @ inet_ntoa a @ '' rx-buffer '' @ int_to_string (tcp_rx_socket_buffer_size p)
       @ '' '' @ int_to_string (bgp_rx_buffer_size p) @ nl
     @ concat (map (alias_line (inet_ntoa a)) ?ts) @ rest" for rest
    by (simp add: peer_config_def a(2) no_log)
  have "execute_text env (peer_config d p @ rest) s = execute_text env rest (with_last s ?q ?p4)" for rest
  proof -
    have "execute_text env (concat (map (alias_line (inet_ntoa a)) ?ts) @ rest) (with_last s ?q ?p3) =
        execute_text env rest (with_last s ?q ?p4)"
      using aliases_run [OF ts(1), of ?p3 a ?q env rest s] q by simp
    moreover have "execute_text env (peer_config d p @ rest) s =
        execute_text env (concat (map (alias_line (inet_ntoa a)) ?ts) @ rest) (with_last s ?q ?p3)"
      unfolding lines bang_lines as_line [OF a(1) s(2,3)]
      by (subst tx_line [OF _ q _ sz(1,2)], simp, simp, subst rx_line [OF _ q _ sz(3,4)]) simp_all
    ultimately show ?thesis by simp
  qed
  moreover have "peer_view ?p4 = peer_view p"
    using ts(2) a(2) by (cases "is_aliasing p") (simp_all add: peer_view_def alias_replay_def)
  ultimately show thesis by (rule that) simp
qed

lemma peers_run:
  assumes "\<forall>p \<in> set ps. peer_savable d p" and "distinct (map p_ip (thread_q s @ ps))"
    and "\<forall>x \<in> set (thread_q s). ipv4 x = 0" and "length (thread_q s @ ps) \<le> 256"
  shows "\<exists>q'. map peer_view q' = map peer_view ps \<and>
    (\<forall>rest. execute_text env (concat (map (peer_config d) ps) @ rest) s =
       execute_text env rest (s\<lparr>thread_q := thread_q s @ q'\<rparr>))"
  using assms
proof (induction ps arbitrary: s)
  case Nil
  then show ?case by (intro exI [of _ "[]"]) simp
next
  case (Cons p ps)
  obtain p' where p': "\<And>rest. execute_text env (peer_config d p @ rest) s = execute_text env rest (with_last s (thread_q s) p')"
    "peer_view p' = peer_view p" "ipv4 p' = 0"
    by (rule peer_config_run [of d p s env]) (use Cons.prems in auto)
  have "p_ip p' = p_ip p" using p'(2) by (simp add: peer_view_def)
  with Cons.prems p'(3) obtain q' where "map peer_view q' = map peer_view ps"
    "\<forall>rest. execute_text env (concat (map (peer_config d) ps) @ rest) (with_last s (thread_q s) p') =
       execute_text env rest ((with_last s (thread_q s) p')\<lparr>thread_q := thread_q (with_last s (thread_q s) p') @ q'\<rparr>)"
    using Cons.IH [of "with_last s (thread_q s) p'"] by auto
  with p' show ?case by (intro exI [of _ "p' # q'"]) (simp add: with_last_def)
qed

text \<open>An instance whose configuration can be saved.\<close>

definition config_savable :: "bgp \<Rightarrow> bool" where
  "config_savable s \<longleftrightarrow>
     (\<forall>p \<in> set (thread_q s). peer_savable (dumper s) p) \<and> distinct (map p_ip (thread_q s))
     \<and> length (thread_q s) \<le> 256 \<and> my_b_ip s = inet_ntoa (my_bgp_id s)"

lemma header_run:
  "execute_text env (''!'' @ nl @ ''protocol bgp '' @ show_nat n @ nl @ '' bgp-id '' @ inet_ntoa i @ nl
     @ (if on then '' dumper on'' @ nl @ ''!'' @ nl else []) @ rest) s =
   execute_text env rest ((set_id i s)\<lparr>dumper_on_off := (on \<or> dumper_on_off s)\<rparr>)"
proof -
  have w: "words (''protocol bgp '' @ show_nat n) = [''protocol'', ''bgp'', show_nat n]"
    "words ('' bgp-id '' @ inet_ntoa i) = [''bgp-id'', inet_ntoa i]" by (simp_all only: line_words)
  have w3: "words '' dumper on'' = [''dumper'', ''on'']" by code_simp
  have 1: "execute_text env (''protocol bgp '' @ show_nat n @ nl @ r) s = execute_text env r s" for r
    using execute_text_line [OF other_lines [OF w(1)], where rest = r and env = env and s = s] by (simp add: newline_simps)
  have 2: "execute_text env ('' bgp-id '' @ inet_ntoa i @ nl @ r) s = execute_text env r (set_id i s)" for r
    using execute_text_words [where h = "set_bgp_id env", OF w(2) instance_lines(1) [OF w(2)], where s = s and rest = r]
    by (simp add: set_bgp_id_def token_def newline_simps)
  have 3: "execute_text env ('' dumper on'' @ nl @ r) t = execute_text env r (t\<lparr>dumper_on_off := True\<rparr>)" for r t
    using execute_text_words [where h = "proto_bgp_toggle_update_dump env", OF w3 instance_lines(2) [OF w3], where s = t and rest = r]
    by (simp add: proto_bgp_toggle_update_dump_def token_def)
  have 4: "(set_id i s)\<lparr>dumper_on_off := dumper_on_off s\<rparr> = set_id i s"
    by (cases s) (simp add: set_id_def)
  show ?thesis
    unfolding bang_lines(2) 1 2 by (cases on) (simp_all only: append_assoc if_True if_False 3 bang_lines(2) append_Nil, simp_all add: 4)
qed

lemma config_text_run:
  assumes "config_savable s" and "thread_q s0 = []"
  shows "\<exists>q'. map peer_view q' = map peer_view (thread_q s) \<and>
    execute_text env (config_text s) s0 =
      Some (Inr ((set_id (my_bgp_id s) s0)\<lparr>dumper_on_off := (dumper_on_off s \<or> dumper_on_off s0), thread_q := q'\<rparr>))"
proof -
  let ?s = "(set_id (my_bgp_id s) s0)\<lparr>dumper_on_off := (dumper_on_off s \<or> dumper_on_off s0)\<rparr>"
  have q: "thread_q ?s = []" using assms(2) by (simp add: set_id_def)
  obtain q' where q': "map peer_view q' = map peer_view (thread_q s)"
    "\<And>rest. execute_text env (concat (map (peer_config (dumper s)) (thread_q s)) @ rest) ?s =
       execute_text env rest (?s\<lparr>thread_q := thread_q ?s @ q'\<rparr>)"
    using peers_run [of "thread_q s" "dumper s" ?s env] assms(1) q by (auto simp: config_savable_def)
  have "config_text s = ''!'' @ nl @ ''protocol bgp '' @ show_nat (unat (my_AS s)) @ nl @ '' bgp-id '' @ inet_ntoa (my_bgp_id s) @ nl
     @ (if dumper_on_off s then '' dumper on'' @ nl @ ''!'' @ nl else [])
     @ concat (map (peer_config (dumper s)) (thread_q s)) @ ''!'' @ nl @ []"
    using assms(1) by (simp add: config_text_def config_savable_def)
  then have "execute_text env (config_text s) s0 = Some (Inr (?s\<lparr>thread_q := q'\<rparr>))"
    by (simp only: header_run q'(2))
      (simp only: bang_lines(2) execute_text_end q append_Nil)
  with q'(1) show ?thesis by blast
qed


text \<open>One neighbour with two aliases, as in the configuration that comes with the program.\<close>

definition config_peer :: bgp_peer where
  "config_peer = (new_peer [] [])\<lparr>p_AS := 33070, p_ip := inet_ntoa 0x0A070C0A,
     translate_attribs := [\<lparr>tr_code = Attr_as_path, tr_value = 3356, printable_attrib = ''(Level3)''\<rparr>,
       \<lparr>tr_code = Attr_community, tr_value = 800, printable_attrib = ''(FCP)''\<rparr>], is_aliasing := True\<rparr>"

definition config_instance :: bgp where
  "config_instance = (set_id 0x0A00000A (new_bgp True 65301))\<lparr>thread_q := [config_peer]\<rparr>"

lemma config_instance_savable: "config_savable config_instance"
  by (simp add: config_savable_def config_instance_def set_id_def new_bgp_def peer_savable_def config_peer_def
      new_peer_def bgp_peer.defs tcp_client.defs new_tcp_client_def DEFAULT_TCP_BUFFER_SIZE_def
      DEFAULT_BGP_BUFFER_SIZE_def size_ok_def aliases_savable_def alias_savable_def is_token_def is_space_def
      new_syslog_def  less_eq_bgp_path_attrib_def alias_replay_def)


lemma bgp_run_kill: "core_inv s \<Longrightarrow> bgp_run s (s\<lparr>stop_and_exit_instance := True\<rparr>)"
  by (rule run_same_q [OF _ step_stop]) simp_all

theorem command_reachable_witness:
  "bgp_run (new_bgp True 1) ((new_bgp True 1)\<lparr>stop_and_exit_instance := True\<rparr>)"
proof -
  have w: "words ''kill-all'' = [''kill-all'']" by code_simp
  have "ExecuteLine plain_env ''kill-all'' (new_bgp True 1) =
      Some (Inr (''% Sent: this->kill_all()'', (new_bgp True 1)\<lparr>stop_and_exit_instance := True\<rparr>))"
    unfolding instance_lines(4) [OF w] by (simp add: kill_all_signal_def)
  from command_reachable [OF run_start this] show ?thesis .
qed

end
