(* ===== verification/Bgp_Threads.thy ===== *)
theory Bgp_Threads
  imports Cli_Proofs
begin

text \<open>
  The threads of the program as they run: the loop of \<^verbatim>\<open>init_BGP\<close> in the main thread, and that of
  \<^verbatim>\<open>init_peer\<close> and \<^verbatim>\<open>peer_established\<close> in the thread of a neighbour. Their passes are steps of
  \<open>bgp_step\<close>, a session over a finite input ends, and a message that a neighbour sends is in the
  RIB after the next pass of the main thread.
\<close>

section \<open>The main thread\<close>

text \<open>
  The loop of \<^verbatim>\<open>init_BGP\<close>: each round gives the time of the pass and what the other threads do
  while the main thread waits. \<open>None\<close> is that it is still running when the rounds are used up.
\<close>

fun main_loop :: "(time_t \<times> (bgp \<Rightarrow> bgp)) list \<Rightarrow> bgp \<Rightarrow> bgp result option" where
  "main_loop [] s = (if stop_and_exit_instance s then Some (Inr s) else None)"
| "main_loop ((now, others) # rounds) s =
     (if stop_and_exit_instance s then Some (Inr s)
      else
        (case main_pass now (others s) of
           Inl e \<Rightarrow> Some (Inl e)
         | Inr s' \<Rightarrow> main_loop rounds s'))"

section \<open>The thread of a neighbour\<close>

text \<open>
  \<^verbatim>\<open>peer_established\<close> with no other thread in between: one pass for each time, with what the rest
  of the message buffer holds. \<open>None\<close> is that the session is still up when they are used up.
\<close>

fun receive_loop :: "(time_t \<times> bytes) list \<Rightarrow> nat \<Rightarrow> bgp \<Rightarrow> bgp result option" where
  "receive_loop [] k s = (if session_live k s then None else Some (Inr s))"
| "receive_loop ((now, junk) # es) k s =
     (if session_live k s then
        (case session_recv now junk k s of
           Inl e \<Rightarrow> Some (Inl e)
         | Inr s' \<Rightarrow> receive_loop es k s')
      else Some (Inr s))"

definition peer_established :: "(time_t \<times> bytes) list \<Rightarrow> nat \<Rightarrow> bgp \<Rightarrow> bgp result option" where
  "peer_established es k s = map_option (\<lambda>r. rbind r (\<lambda>s'. Inr (session_down k s'))) (receive_loop es k s)"

text \<open>
  \<^verbatim>\<open>init_peer\<close>: sessions one after the other until the neighbour is deleted or the instance
  stops, then the neighbour leaves the table. A session is its connection attempts, the time of
  the OPEN and the passes of its loop.
\<close>

type_synonym peer_session = "attempt list \<times> time_t \<times> (time_t \<times> bytes) list"

fun init_peer :: "peer_session list \<Rightarrow> nat \<Rightarrow> bgp \<Rightarrow> (int \<times> bgp) result option" where
  "init_peer sessions k s =
     (if state (thread_q s ! k) = Deleted \<or> stop_and_exit_instance s then
        map_option (\<lambda>r. rbind r (\<lambda>(rc, q). Inr (rc, s\<lparr>thread_q := q\<rparr>))) (delete_peer (Some k) (thread_q s))
      else
        (case sessions of
           [] \<Rightarrow> None
         | (attempts, now, es) # rest \<Rightarrow>
             (case init_peer_states s now attempts (thread_q s ! k) of
                None \<Rightarrow> None
              | Some (Inl e) \<Rightarrow> Some (Inl e)
              | Some (Inr p) \<Rightarrow>
                  (case peer_established es k (set_peer k p s) of
                     None \<Rightarrow> None
                   | Some (Inl e) \<Rightarrow> Some (Inl e)
                   | Some (Inr s') \<Rightarrow> init_peer rest k s'))))"

declare init_peer.simps [simp del]

section \<open>Passes are runs\<close>

text \<open>A step that changes one neighbour, but not its router id, nor its state except to idle.\<close>

lemma run_quiet:
  assumes "core_inv s" and "bgp_step s s'" and "k < length (thread_q s)" and "thread_q s' = (thread_q s)[k := p]"
    and "p_bgp_id p = p_bgp_id (thread_q s ! k)" and "state p \<in> {state (thread_q s ! k), Idle}"
  shows "bgp_run s s'"
proof (rule run_step [OF run_start assms(2)])
  have same: "p_bgp_id (thread_q s' ! j) = p_bgp_id (thread_q s ! j)"
    "state (thread_q s' ! j) \<in> {state (thread_q s ! j), Idle}" if "j < length (thread_q s)" for j
    using assms(3-6) that by (cases "j = k"; simp)+
  then have "p_bgp_id (thread_q s' ! j) \<noteq> 0"
    if "j < length (thread_q s)" "state (thread_q s' ! j) \<in> {Openconfirm, Established}" for j
    using assms(1) that by (fastforce simp: core_inv_def all_set_conv_all_nth)
  with assms(1,4) same show "router_ids s s'"
    unfolding core_inv_def router_ids_def ids_unique_def by (simp add: all_set_conv_all_nth)
qed

lemma hold_timer_id: "hold_timer_expired now p = (e, p', ls) \<Longrightarrow>
    p_bgp_id p' = p_bgp_id p \<and> state p' \<in> {state p, Idle} \<and> (\<not> e \<longrightarrow> state p' = Established)
    \<and> (\<not> e \<longrightarrow> in_queue p' = in_queue p)"
  by (auto simp: hold_timer_expired_def notification_def disconnect_def split: if_splits)

lemma timer_run:
  assumes "core_inv s" and "k < length (thread_q s)" and "hold_timer_expired now (thread_q s ! k) = (e, p, ls)"
  shows "bgp_run s (add_log ls (set_peer k p s))"
  using hold_timer_id [OF assms(3)]
  by (intro run_quiet [OF assms(1) step_timer [OF assms(2,3)] assms(2), of p]) simp_all

lemma in_q_pop_eq:
  "in_q_pop now k q s = Inr s' \<Longrightarrow> \<exists>us ws. proc_packet now (p_bgp_id (thread_q s ! k)) q = Inr (us, ws)
    \<and> s' = (set_peer k ((thread_q s ! k)\<lparr>in_queue := tl (in_queue (thread_q s ! k)), in_q := in_q (thread_q s ! k) - 1\<rparr>) s)
        \<lparr>adj_rib_in_q := adj_rib_in_q s @ us, adj_rib_in_wdraw_q := adj_rib_in_wdraw_q s @ ws\<rparr>"
  by (auto simp: in_q_pop_def Let_def rbind_eq_Inr)

lemma in_q_loop_run:
  "core_inv s \<Longrightarrow> k < length (thread_q s) \<Longrightarrow> state (thread_q s ! k) = Established \<Longrightarrow>
     in_queue (thread_q s ! k) = qs \<Longrightarrow> in_q_loop now k qs s = Inr s' \<Longrightarrow>
     bgp_run s s' \<and> length (thread_q s') = length (thread_q s)"
proof (induction qs arbitrary: s)
  case Nil
  then show ?case by (simp add: run_start)
next
  case (Cons q qs)
  from Cons.prems(5) obtain s1 where s1: "in_q_pop now k q s = Inr s1" "in_q_loop now k qs s1 = Inr s'"
    by (auto simp: rbind_eq_Inr)
  from in_q_pop_eq [OF s1(1)] obtain us ws where eq: "s1 =
      (set_peer k ((thread_q s ! k)\<lparr>in_queue := tl (in_queue (thread_q s ! k)), in_q := in_q (thread_q s ! k) - 1\<rparr>) s)
        \<lparr>adj_rib_in_q := adj_rib_in_q s @ us, adj_rib_in_wdraw_q := adj_rib_in_wdraw_q s @ ws\<rparr>" by blast
  have run: "bgp_run s s1"
    by (rule run_quiet [OF Cons.prems(1) step_in_q [OF Cons.prems(2-4) s1(1)] Cons.prems(2),
        where p = "(thread_q s ! k)\<lparr>in_queue := tl (in_queue (thread_q s ! k)), in_q := in_q (thread_q s ! k) - 1\<rparr>"])
      (simp_all add: eq)
  have "bgp_run s1 s' \<and> length (thread_q s') = length (thread_q s1)"
    by (rule Cons.IH [OF core_inv_run [OF run Cons.prems(1)] _ _ _ s1(2)])
      (use Cons.prems in \<open>simp_all add: eq\<close>)
  with bgp_run_trans [OF _ run] show ?case by (simp add: eq)
qed

lemma proc_in_q_run:
  assumes "core_inv s" and "k < length (thread_q s)" and "proc_in_q now k s = Inr s'"
  shows "bgp_run s s' \<and> length (thread_q s') = length (thread_q s)"
proof -
  obtain e p ls where t: "hold_timer_expired now (thread_q s ! k) = (e, p, ls)" by (cases "hold_timer_expired now (thread_q s ! k)") auto
  let ?s = "add_log ls (set_peer k p s)"
  note run = timer_run [OF assms(1,2) t]
  show ?thesis
  proof (cases e)
    case True
    with assms(3) t run show ?thesis by (auto simp: proc_in_q_def)
  next
    case False
    with assms(3) t have "in_q_loop now k (in_queue p) ?s = Inr s'" by (simp add: proc_in_q_def)
    then have "bgp_run ?s s' \<and> length (thread_q s') = length (thread_q ?s)"
      using hold_timer_id [OF t] False assms(2) by (intro in_q_loop_run core_inv_run [OF run assms(1)]) auto
    with bgp_run_trans [OF _ run] show ?thesis by simp
  qed
qed

lemma proc_peers_run:
  "core_inv s \<Longrightarrow> \<forall>k \<in> set ks. k < length (thread_q s) \<Longrightarrow> proc_peers now ks s = Inr s' \<Longrightarrow> bgp_run s s'"
proof (induction ks arbitrary: s)
  case Nil
  then show ?case by (simp add: run_start)
next
  case (Cons k ks)
  from Cons.prems(3) obtain s1 where s1: "proc_in_q now k s = Inr s1" "proc_peers now ks s1 = Inr s'"
    by (auto simp: rbind_eq_Inr)
  from proc_in_q_run [OF Cons.prems(1) _ s1(1)] Cons.prems(2)
  have run: "bgp_run s s1" "length (thread_q s1) = length (thread_q s)" by auto
  have "bgp_run s1 s'"
    using Cons.prems(2) run(2) by (intro Cons.IH [OF core_inv_run [OF run(1) Cons.prems(1)] _ s1(2)]) auto
  from bgp_run_trans [OF this run(1)] show ?case .
qed

text \<open>The RIB operations change counters of neighbours only.\<close>

definition sessions :: "bgp \<Rightarrow> (u32 \<times> bgp_peer_state) list" where
  "sessions s = map (\<lambda>p. (p_bgp_id p, state p)) (thread_q s)"

lemma sessions_set_peer:
  "k < length (thread_q s) \<Longrightarrow> p_bgp_id p = p_bgp_id (thread_q s ! k) \<Longrightarrow> state p = state (thread_q s ! k) \<Longrightarrow>
     sessions (set_peer k p s) = sessions s"
  by (simp add: sessions_def map_update list_update_same_conv)

lemma dump_update_sessions: "dump_update now f u s = Inr s' \<Longrightarrow> thread_q s' = thread_q s"
  using dump_update_frame by fastforce

lemma peer_entry_sessions:
  assumes "peer_entry now u s = Inr s'"
  shows "sessions s' = sessions s"
proof -
  from assms obtain s1 where s1: "dump_update now Nlri_update u s = Inr s1"
    by (auto simp: peer_entry_def rbind_eq_Inr)
  note q = dump_update_sessions [OF s1]
  show ?thesis
  proof (cases "get_peer_by_bgp_id (nlri_bgp_id (nlri u)) (thread_q s)")
    case None
    with assms s1 q show ?thesis by (simp add: peer_entry_def Let_def sessions_def)
  next
    case (Some k)
    with assms s1 q by_id.look_Some [OF Some] show ?thesis
      by (auto simp: peer_entry_def Let_def rbind_eq_Inr sessions_def split_beta map_update list_update_same_conv)
  qed
qed

lemma withdraw_sessions:
  assumes "withdraw now u s = Inr s'"
  shows "sessions s' = sessions s"
proof (cases "map_find rib_sort (rib_key u) (adj_rib_in s)")
  case None
  with assms show ?thesis by (simp add: withdraw_absent)
next
  case (Some it)
  with assms obtain s1 where s1: "dump_update now Nlri_withdraw it s = Inr s1"
    by (auto simp: withdraw_def rbind_eq_Inr)
  with assms Some obtain k where "get_peer_by_bgp_id (nlri_bgp_id (nlri u)) (thread_q s) = Some k"
    by (auto simp: withdraw_def dump_update_sessions [OF s1] split: option.splits)
  with assms Some s1 dump_update_sessions [OF s1] by_id.look_Some [OF this] show ?thesis
    by (auto simp: withdraw_def sessions_def map_update list_update_same_conv)
qed

lemma rib_in_loop_run:
  "core_inv s \<Longrightarrow> adj_rib_in_q s = us \<Longrightarrow> rib_in_loop now us s = Inr s' \<Longrightarrow> bgp_run s s' \<and> sessions s' = sessions s"
proof (induction us arbitrary: s)
  case Nil
  then show ?case by (simp add: run_start)
next
  case (Cons u us)
  from Cons.prems(3) obtain s1 where s1: "rib_in_pop now u s = Inr s1" "rib_in_loop now us s1 = Inr s'"
    by (auto simp: rbind_eq_Inr)
  then obtain s2 where s2: "peer_entry now u s = Inr s2" "s1 = s2\<lparr>adj_rib_in_q := tl (adj_rib_in_q s2), table_version := table_version s2 + 1\<rparr>"
    by (auto simp: rib_in_pop_def rbind_eq_Inr)
  have q: "adj_rib_in_q s1 = us" using peer_entry_queues [OF s2(1)] Cons.prems(2) s2(2) by simp
  have ss: "sessions s1 = sessions s" using peer_entry_sessions [OF s2(1)] s2(2) by (simp add: sessions_def)
  have run: "bgp_run s s1"
    by (rule run_config [OF Cons.prems(1) step_rib_in [OF Cons.prems(2) s1(1)]]) (use ss in \<open>simp add: sessions_def\<close>)
  from Cons.IH [OF core_inv_run [OF run Cons.prems(1)] q s1(2)] bgp_run_trans [OF _ run] ss show ?case by simp
qed

lemma rib_wdraw_loop_run:
  "core_inv s \<Longrightarrow> adj_rib_in_wdraw_q s = us \<Longrightarrow> rib_wdraw_loop now us s = Inr s' \<Longrightarrow> bgp_run s s' \<and> sessions s' = sessions s"
proof (induction us arbitrary: s)
  case Nil
  then show ?case by (simp add: run_start)
next
  case (Cons u us)
  from Cons.prems(3) obtain s1 where s1: "rib_wdraw_pop now u s = Inr s1" "rib_wdraw_loop now us s1 = Inr s'"
    by (auto simp: rbind_eq_Inr)
  then obtain s2 where s2: "withdraw now u s = Inr s2"
    "s1 = s2\<lparr>adj_rib_in_wdraw_q := tl (adj_rib_in_wdraw_q s2), table_version := table_version s2 + 1\<rparr>"
    by (auto simp: rib_wdraw_pop_def rbind_eq_Inr)
  have q: "adj_rib_in_wdraw_q s1 = us" using withdraw_queues [OF s2(1)] Cons.prems(2) s2(2) by simp
  have ss: "sessions s1 = sessions s" using withdraw_sessions [OF s2(1)] s2(2) by (simp add: sessions_def)
  have run: "bgp_run s s1"
    by (rule run_config [OF Cons.prems(1) step_rib_wdraw [OF Cons.prems(2) s1(1)]]) (use ss in \<open>simp add: sessions_def\<close>)
  from Cons.IH [OF core_inv_run [OF run Cons.prems(1)] q s1(2)] bgp_run_trans [OF _ run] ss show ?case by simp
qed

lemma main_pass_run:
  assumes "core_inv s" and "main_pass now s = Inr s'"
  shows "bgp_run s s'"
proof -
  from assms(2) obtain s1 s2 where p: "proc_peers now [0..<length (thread_q s)] s = Inr s1"
    "rib_in_loop now (adj_rib_in_q s1) s1 = Inr s2" "rib_wdraw_loop now (adj_rib_in_wdraw_q s2) s2 = Inr s'"
    by (auto simp: main_pass_def rbind_eq_Inr proc_adj_rib_in_queue_def proc_adj_rib_wdraw_queue_def)
  have r1: "bgp_run s s1" by (rule proc_peers_run [OF assms(1) _ p(1)]) simp
  note i1 = core_inv_run [OF r1 assms(1)]
  from rib_in_loop_run [OF i1 refl p(2)] have r2: "bgp_run s1 s2" by simp
  from rib_wdraw_loop_run [OF core_inv_run [OF r2 i1] refl p(3)] have r3: "bgp_run s2 s'" by simp
  from bgp_run_trans [OF r3 bgp_run_trans [OF r2 r1]] show ?thesis .
qed

text \<open>
  C12: the loop of the main thread refines the step relation: whatever the other threads do while
  it waits, as long as they move between reachable states, the state in which the loop ends is
  reachable and the instance is stopped there.
\<close>

theorem main_loop_reachable:
  assumes "bgp_run (new_bgp ok as) s"
    and "\<forall>(now, others) \<in> set rounds. \<forall>t. bgp_run (new_bgp ok as) t \<longrightarrow> bgp_run (new_bgp ok as) (others t)"
    and "main_loop rounds s = Some (Inr s')"
  shows "bgp_run (new_bgp ok as) s' \<and> stop_and_exit_instance s'"
  using assms
proof (induction rounds arbitrary: s)
  case Nil
  then show ?case by (simp split: if_splits)
next
  case (Cons r rounds)
  obtain now others where r: "r = (now, others)" by fastforce
  show ?case
  proof (cases "stop_and_exit_instance s")
    case True
    with Cons.prems r show ?thesis by simp
  next
    case False
    with Cons.prems r obtain s1 where s1: "main_pass now (others s) = Inr s1" "main_loop rounds s1 = Some (Inr s')"
      by (auto split: sum.splits)
    have o: "bgp_run (new_bgp ok as) (others s)" using Cons.prems(1,2) r by simp
    have "bgp_run (new_bgp ok as) s1"
      using main_pass_run [OF core_inv_run [OF o core_inv_new] s1(1)] by (rule bgp_run_trans [OF _ o])
    with Cons.IH [OF this _ s1(2)] Cons.prems(2) r show ?thesis by simp
  qed
qed

lemma run_stop: "bgp_run s0 s \<Longrightarrow> core_inv s0 \<Longrightarrow> bgp_run s0 (s\<lparr>stop_and_exit_instance := True\<rparr>)"
  using bgp_run_trans [of s _ s0] run_same_q [of s "s\<lparr>stop_and_exit_instance := True\<rparr>"] core_inv_run step_stop by simp

theorem main_loop_reachable_witness:
  "bgp_run (new_bgp True 1) ((new_bgp True 1)\<lparr>stop_and_exit_instance := True\<rparr>)
    \<and> stop_and_exit_instance ((new_bgp True 1)\<lparr>stop_and_exit_instance := True\<rparr>)"
proof -
  let ?s = "(new_bgp True 1)\<lparr>stop_and_exit_instance := True\<rparr>"
  let ?rounds = "[(0 :: time_t, \<lambda>t :: bgp. t\<lparr>stop_and_exit_instance := True\<rparr>)]"
  have "main_loop ?rounds (new_bgp True 1) = Some (Inr ?s)"
    by (simp add: new_bgp_def main_pass_def proc_adj_rib_in_queue_def proc_adj_rib_wdraw_queue_def)
  moreover have "\<forall>(now, others) \<in> set ?rounds. \<forall>t. bgp_run (new_bgp True 1) t \<longrightarrow> bgp_run (new_bgp True 1) (others t)"
    using run_stop [OF _ core_inv_new] by simp
  ultimately show ?thesis using main_loop_reachable [where ok = True and as = 1 and s = "new_bgp True 1" and rounds = ?rounds and s' = ?s]
      run_start by blast
qed

section \<open>A session ends\<close>

text \<open>Handling a message reads nothing more, and may close the connection.\<close>

lemma handle_message_rx:
  "handle_message b now junk ty payload p = Inr (p', ls) \<Longrightarrow> rx p' \<in> {rx p, None}"
  by (auto simp: handle_message_def decode_open_def reject_open_def notification_def queue_update_def Let_def
      rbind_eq_Inr disconnect_def split: option.splits bgp_msg_type.splits if_splits)

lemma tcp_read_connected:
  "connected p \<Longrightarrow> tcp_read n p = (Some (take n (pending p)),
     p\<lparr>rx := Some \<lparr>rx_data = drop n (pending p), rx_eof = (length (pending p) < n)\<rparr>\<rparr>)"
  by (auto simp: tcp_read_def connected_def pending_def min_less_iff_disj split: option.splits)

lemma connected_rx_eof: "rx p = Some r \<Longrightarrow> rx_eof r \<Longrightarrow> \<not> connected p"
  by (simp add: connected_def)

text \<open>A pass of the loop takes at least a header off the input, or finds the end of it.\<close>

lemma established_step_shrinks:
  assumes "connected p" and "established_step b now junk p = Inr (p', ls)" and "connected p'"
  shows "length (pending p') + 19 \<le> length (pending p)"
proof (cases "length (pending p) < 19")
  case True
  with assms(1,2) have "rx_eof (the (rx p')) \<and> rx p' \<noteq> None"
    by (auto simp: established_step_def tcp_read_connected)
  with assms(3) connected_rx_eof [of p'] show ?thesis by (cases "rx p'") simp_all
next
  case False
  let ?rest = "drop 19 (pending p)" and ?head = "take 19 (pending p)"
  let ?p2 = "p\<lparr>rx := Some \<lparr>rx_data = ?rest, rx_eof = False\<rparr>, last_IO := (last_IO p)\<lparr>last_read := now\<rparr>\<rparr>"
  let ?n = "unat (be16 (pending p ! 16) (pending p ! 17))"
  have c2: "connected ?p2" using connected_rx_update [OF assms(1)] by simp
  have p2: "pending ?p2 = ?rest" by (simp add: pending_def)
  from assms(2) False have step: "(if ?n < 19 then
        rbind (guard Buffer_overflow (length ?rest \<le> ?n)) (\<lambda>_. Inr (snd (tcp_read (length ?rest + 1) ?p2), []))
      else (case tcp_read (?n - 19) ?p2 of
          (None, p3) \<Rightarrow> Inr (p3, [])
        | (Some payload, p3) \<Rightarrow>
            if length payload = ?n - 19 then handle_message b now junk (?head ! 18) payload p3 else Inr (p3, []))) = Inr (p', ls)"
    by (cases "?n < 19") (simp_all add: established_step_def tcp_read_connected [OF assms(1)] Let_def p2)
  show ?thesis
  proof (cases "?n < 19")
    case True
    with step have "rx p' = Some \<lparr>rx_data = [], rx_eof = True\<rparr>"
      by (auto simp: rbind_eq_Inr tcp_read_connected [OF c2] p2)
    with assms(3) connected_rx_eof show ?thesis by fastforce
  next
    case long: False
    let ?p3 = "?p2\<lparr>rx := Some \<lparr>rx_data = drop (?n - 19) ?rest, rx_eof = (length ?rest < ?n - 19)\<rparr>\<rparr>"
    from step long have "rx p' \<in> {rx ?p3, None}"
      by (auto simp: tcp_read_connected [OF c2] p2 split: if_splits dest: handle_message_rx)
    with assms(3) have "rx p' = rx ?p3" by (auto simp: connected_def)
    with False show ?thesis by (simp add: pending_def)
  qed
qed

lemma session_recv_eq:
  "session_recv now junk k s = Inr s' \<Longrightarrow> k < length (thread_q s) \<Longrightarrow>
     \<exists>p ls. established_step s now junk (thread_q s ! k) = Inr (p, ls) \<and> s' = add_log ls (set_peer k p s)"
  by (auto simp: session_recv_def rbind_eq_Inr)

lemma receive_loop_ends:
  assumes "k < length (thread_q s)" and "length (pending (thread_q s ! k)) div 19 < length es"
  shows "(\<exists>e. receive_loop es k s = Some (Inl e)) \<or>
    (\<exists>s'. receive_loop es k s = Some (Inr s') \<and> \<not> session_live k s' \<and> adj_rib_in s' = adj_rib_in s
       \<and> length (thread_q s') = length (thread_q s))"
  using assms
proof (induction es arbitrary: s)
  case (Cons ev es)
  obtain now junk where ev: "ev = (now, junk)" by fastforce
  show ?case
  proof (cases "session_live k s")
    case live: True
    show ?thesis
    proof (cases "session_recv now junk k s")
      case (Inl e)
      with live ev show ?thesis by simp
    next
      case (Inr s1)
      from session_recv_eq [OF Inr Cons.prems(1)] obtain p ls where
        p: "established_step s now junk (thread_q s ! k) = Inr (p, ls)" and s1: "s1 = add_log ls (set_peer k p s)" by blast
      have sel: "k < length (thread_q s1)" "thread_q s1 ! k = p" "adj_rib_in s1 = adj_rib_in s"
        "length (thread_q s1) = length (thread_q s)" using Cons.prems(1) s1 by simp_all
      have rec: "receive_loop (ev # es) k s = receive_loop es k s1" using live Inr ev by simp
      show ?thesis
      proof (cases "session_live k s1")
        case True
        then have "length (pending p) + 19 \<le> length (pending (thread_q s ! k))"
          using live p sel by (intro established_step_shrinks [OF _ p]) (simp_all add: session_live_def)
        then have "length (pending (thread_q s1 ! k)) div 19 < length es" using Cons.prems(2) sel(2) by simp
        from Cons.IH [OF sel(1) this] sel show ?thesis by (simp only: rec)
      next
        case False
        then have "receive_loop es k s1 = Some (Inr s1)" by (cases es) auto
        with False sel show ?thesis by (simp only: rec) blast
      qed
    qed
  qed (use ev in simp)
qed simp

text \<open>
  C13: a session whose neighbour sends finitely many bytes and closes, or says anything else, ends:
  the loop of \<^verbatim>\<open>peer_established\<close> takes at most one pass for each header's worth of bytes and one
  more, and unless a message leads it out of the defined behaviour the neighbour is then
  disconnected, with no route of it in the RIB and no message of it in its queue.
\<close>

theorem peer_established_ends:
  assumes "bgp_run (new_bgp ok as) s" and "k < length (thread_q s)"
    and "length (pending (thread_q s ! k)) div 19 < length es"
  shows "(\<exists>e. peer_established es k s = Some (Inl e)) \<or>
    (\<exists>s'. peer_established es k s = Some (Inr s') \<and> \<not> connected (thread_q s' ! k)
       \<and> in_queue (thread_q s' ! k) = []
       \<and> (\<forall>x \<in> set (adj_rib_in s'). x \<in> set (adj_rib_in s) \<and> snd (fst x) \<noteq> p_bgp_id (thread_q s' ! k)))"
proof -
  have inv: "rib_inv (adj_rib_in s)" using core_inv_run [OF assms(1) core_inv_new] by (simp add: core_inv_def)
  from receive_loop_ends [OF assms(2,3)] show ?thesis
  proof (elim disjE exE conjE)
    fix s' assume s': "receive_loop es k s = Some (Inr s')" "adj_rib_in s' = adj_rib_in s"
      "length (thread_q s') = length (thread_q s)"
    with inv assms(2) have down: "flush_all k s' = set_peer k
        (add_current_rx (- of_nat (rib_count (p_bgp_id (thread_q s' ! k)) (adj_rib_in s'))) (thread_q s' ! k))
        (s'\<lparr>adj_rib_in := filter (\<lambda>x. snd (fst x) \<noteq> p_bgp_id (thread_q s' ! k)) (adj_rib_in s')\<rparr>)"
      by (intro flush_all_eq) simp_all
    have "\<not> connected (thread_q (session_down k s') ! k) \<and> in_queue (thread_q (session_down k s') ! k) = []
      \<and> (\<forall>x \<in> set (adj_rib_in (session_down k s')). x \<in> set (adj_rib_in s)
           \<and> snd (fst x) \<noteq> p_bgp_id (thread_q (session_down k s') ! k))"
      using assms(2) s' by (simp add: session_down_def down disconnect_def connected_def)
    with s' show ?thesis by (auto simp: peer_established_def)
  qed (auto simp: peer_established_def)
qed

section \<open>From the wire to the RIB\<close>

lemma has_id_sessions: "sessions s' = sessions s \<Longrightarrow> has_id (thread_q s') i \<longleftrightarrow> has_id (thread_q s) i"
proof -
  assume eq: "sessions s' = sessions s"
  have "map fst (sessions t) = map p_bgp_id (thread_q t)" for t by (simp add: sessions_def)
  with eq have "map p_bgp_id (thread_q s') = map p_bgp_id (thread_q s)" by metis
  moreover have "has_id q i \<longleftrightarrow> i \<in> set (map p_bgp_id q)" for q
    unfolding has_id_def in_set_conv_nth by (metis length_map nth_map)
  ultimately show ?thesis by metis
qed

lemma peer_entry_route:
  assumes "rib_inv (adj_rib_in s)" and "update_wf u" and "has_id (thread_q s) (nlri_bgp_id (nlri u))"
    and "\<not> dumper_on_off s"
  shows "\<exists>s'. peer_entry now u s = Inr s' \<and> rib_inv (adj_rib_in s') \<and> \<not> dumper_on_off s'
    \<and> routes s' = (routes s)(rib_key u \<mapsto> copy_update u) \<and> adj_rib_in_wdraw_q s' = adj_rib_in_wdraw_q s"
proof -
  obtain k where k: "get_peer_by_bgp_id (nlri_bgp_id (nlri u)) (thread_q s) = Some k"
    using assms(3) by_id.look_None unfolding has_id_def by fastforce
  have "dump_update now Nlri_update u s = Inr (s\<lparr>dumper := dumper s\<rparr>)" using assms(4) by (simp add: dump_update_def)
  from peer_entry_known [OF assms(1) k this] obtain db where "peer_entry now u s =
    Inr ((set_peer k (count_entry (map_find rib_sort (rib_key u) (adj_rib_in s) \<noteq> None) (thread_q s ! k))
           (s\<lparr>dumper := dumper s, database := db\<rparr>))
         \<lparr>adj_rib_in := map_assign rib_sort (rib_key u) (copy_update u) (adj_rib_in s)\<rparr>)" by blast
  moreover have "rib_inv (map_assign rib_sort (rib_key u) (copy_update u) (adj_rib_in s))"
    using rib_inv_assign [OF assms(1), of "copy_update u"] assms(2) by simp
  ultimately show ?thesis
    using assms(4) routes_assign [OF assms(1)] by (simp add: set_peer_def routes_def [abs_def])
qed

text \<open>A pass over the queue in front of the RIB adds its updates to the routes, in order.\<close>

lemma rib_in_loop_routes:
  "rib_inv (adj_rib_in s) \<Longrightarrow> \<not> dumper_on_off s \<Longrightarrow>
   \<forall>u \<in> set us. update_wf u \<and> has_id (thread_q s) (nlri_bgp_id (nlri u)) \<Longrightarrow>
   \<exists>s'. rib_in_loop now us s = Inr s' \<and> routes s' = fold (\<lambda>u r. r(rib_key u \<mapsto> copy_update u)) us (routes s)
     \<and> adj_rib_in_wdraw_q s' = adj_rib_in_wdraw_q s"
proof (induction us arbitrary: s)
  case (Cons u us)
  from Cons.prems peer_entry_route [of s u now] obtain s1 where
    s1: "peer_entry now u s = Inr s1" "rib_inv (adj_rib_in s1)" "\<not> dumper_on_off s1"
      "routes s1 = (routes s)(rib_key u \<mapsto> copy_update u)" "adj_rib_in_wdraw_q s1 = adj_rib_in_wdraw_q s" by auto
  let ?s = "s1\<lparr>adj_rib_in_q := tl (adj_rib_in_q s1), table_version := table_version s1 + 1\<rparr>"
  have r: "routes ?s = routes s1" by (simp add: routes_def [abs_def])
  have "\<forall>v \<in> set us. update_wf v \<and> has_id (thread_q ?s) (nlri_bgp_id (nlri v))"
    using Cons.prems(3) has_id_sessions [OF peer_entry_sessions [OF s1(1)]] by simp
  with Cons.IH [of ?s] s1 show ?case by (simp add: rib_in_pop_def r)
qed simp

lemma proc_in_q_idle: "k < length (thread_q s) \<Longrightarrow> state (thread_q s ! k) \<noteq> Established \<Longrightarrow> proc_in_q now k s = Inr s"
  by (simp add: proc_in_q_def hold_timer_expired_def add_log_def set_peer_def)

lemma proc_peers_idle:
  "\<forall>k \<in> set ks. k < length (thread_q s) \<and> state (thread_q s ! k) \<noteq> Established \<Longrightarrow> proc_peers now ks s = Inr s"
  by (induction ks) (auto simp: proc_in_q_idle)

lemma proc_peers_append: "proc_peers now (xs @ ys) s = rbind (proc_peers now xs s) (proc_peers now ys)"
proof (induction xs arbitrary: s)
  case (Cons k xs)
  then show ?case by (cases "proc_in_q now k s") simp_all
qed simp

lemma proc_peers_one:
  assumes "k < length (thread_q s)" and "\<forall>j < length (thread_q s). j \<noteq> k \<longrightarrow> state (thread_q s ! j) \<noteq> Established"
    and "proc_in_q now k s = Inr s'"
    and "\<exists>p. thread_q s' = (thread_q s)[k := p]"
  shows "proc_peers now [0..<length (thread_q s)] s = Inr s'"
proof -
  have l: "[0..<length (thread_q s)] = [0..<k] @ k # [Suc k..<length (thread_q s)]"
    using assms(1) by (metis less_imp_add_positive upt_add_eq_append upt_conv_Cons le0 less_add_same_cancel1 add_0)
  have "proc_peers now [0..<k] s = Inr s" using assms(1,2) by (intro proc_peers_idle) auto
  moreover have "proc_peers now [Suc k..<length (thread_q s)] s' = Inr s'"
    using assms(2,4) by (intro proc_peers_idle) auto
  ultimately show ?thesis unfolding l by (simp add: proc_peers_append assms(3))
qed

lemma session_recv_update:
  assumes "k < length (thread_q s)" and "connected (thread_q s ! k)"
    and "pending (thread_q s ! k) = frame 2 payload @ rest" and "length payload \<le> 4096"
  obtains p where "session_recv now junk k s = Inr (set_peer k p s)"
    and "state p = state (thread_q s ! k)" and "p_bgp_id p = p_bgp_id (thread_q s ! k)"
    and "in_queue p = in_queue (thread_q s ! k) @ [queued payload]" and "pending p = rest"
    and "p_hold_time p = p_hold_time (thread_q s ! k)" and "last_read (last_IO p) = now"
proof -
  let ?p = "after_frame now rest (thread_q s ! k)"
  let ?q = "?p\<lparr>update_cnt := count_rx now (update_cnt ?p),
      in_queue := in_queue ?p @ [\<lparr>q_length = of_nat (length payload), q_packet = payload\<rparr>], in_q := in_q ?p + 1\<rparr>"
  have "established_step s now junk (thread_q s ! k) = Inr (?q, [])"
    using established_step_frame [OF assms(2,3)] assms(4)
    by (simp add: handle_message_def msg_type_of_def queue_update_def)
  then have "session_recv now junk k s = Inr (set_peer k ?q s)"
    by (simp add: session_recv_def add_log_def set_peer_def)
  then show thesis
    by (rule that) (simp_all add: after_frame_def queued_def pending_def)
qed

lemma update_enters_rib:
  assumes "rib_inv (adj_rib_in s)" and "\<not> dumper_on_off s" and "k < length (thread_q s)"
    and "state (thread_q s ! k) = Established" and "connected (thread_q s ! k)"
    and "pending (thread_q s ! k) = frame 2 (update_message attrs ps) @ rest"
    and "\<forall>fa \<in> set attrs. attr_ok (snd fa)" and "\<forall>lp \<in> set ps. prefix_ok lp"
    and "length (update_message attrs ps) \<le> 4096"
    and "in_queue (thread_q s ! k) = []" and "adj_rib_in_q s = []" and "adj_rib_in_wdraw_q s = []"
    and "\<forall>j < length (thread_q s). j \<noteq> k \<longrightarrow> state (thread_q s ! j) \<noteq> Established"
    and "sint (later - now) < int (unat (p_hold_time (thread_q s ! k)))"
  shows "\<exists>s1 s2. session_recv now junk k s = Inr s1 \<and> main_pass later s1 = Inr s2
    \<and> routes s2 = fold (\<lambda>lp r. r((snd lp, p_bgp_id (thread_q s ! k)) \<mapsto>
        copy_update ((update_of attrs)\<lparr>nlri := nlri_of Nlri_update later (p_bgp_id (thread_q s ! k)) lp\<rparr>))) ps (routes s)"
proof -
  let ?i = "p_bgp_id (thread_q s ! k)" and ?q = "queued (update_message attrs ps)"
  let ?us = "map (\<lambda>lp. copy_update ((update_of attrs)\<lparr>nlri := nlri_of Nlri_update later ?i lp\<rparr>)) ps"
  obtain p where recv: "session_recv now junk k s = Inr (set_peer k p s)" and p: "state p = Established" "p_bgp_id p = ?i"
    "in_queue p = [?q]" "p_hold_time p = p_hold_time (thread_q s ! k)" "last_read (last_IO p) = now"
    by (rule session_recv_update [OF assms(3,5,6,9), of now junk]) (use assms(4,10) that in simp)
  let ?s1 = "set_peer k p s"
  obtain e p' ls where t: "hold_timer_expired later p = (e, p', ls)" by (cases "hold_timer_expired later p") auto
  have e: "\<not> e" using t p assms(14) by (auto simp: hold_timer_expired_def split: if_splits)
  with hold_timer_id [OF t] p have p': "p_bgp_id p' = ?i" "in_queue p' = [?q]" by auto
  let ?p2 = "p'\<lparr>in_queue := [], in_q := in_q p' - 1\<rparr>"
  let ?s2 = "(add_log ls (set_peer k ?p2 ?s1))\<lparr>adj_rib_in_q := ?us, adj_rib_in_wdraw_q := []\<rparr>"
  have parsed: "proc_packet later ?i ?q = Inr (?us, [])" by (rule announcement_parsed [OF assms(7,8,9)])
  have "proc_in_q later k ?s1 = Inr ?s2"
    using t e p' parsed assms(3,11,12)
    by (simp add: proc_in_q_def in_q_pop_def Let_def) (simp add: set_peer_def add_log_def)
  then have peers: "proc_peers later [0..<length (thread_q ?s1)] ?s1 = Inr ?s2"
    using assms(3,13) by (intro proc_peers_one) auto
  have "has_id (thread_q ?s2) ?i" unfolding has_id_def by (intro exI [of _ k]) (use assms(3) p' in simp)
  moreover have "\<forall>u \<in> set ?us. update_wf u \<and> nlri_bgp_id (nlri u) = ?i"
    using proc_packet_pushed [OF parsed] by (simp add: nlri_ok_def)
  ultimately obtain s3 where s3: "rib_in_loop later ?us ?s2 = Inr s3" "adj_rib_in_wdraw_q s3 = []"
    "routes s3 = fold (\<lambda>u r. r(rib_key u \<mapsto> copy_update u)) ?us (routes ?s2)"
    using rib_in_loop_routes [of ?s2 ?us later] assms(1,2) by (auto simp: add_log_def set_peer_def)
  then have "main_pass later ?s1 = Inr s3"
    using peers by (simp add: main_pass_def proc_adj_rib_in_queue_def proc_adj_rib_wdraw_queue_def)
  moreover have "routes ?s2 = routes s" by (simp add: routes_def [abs_def])
  ultimately show ?thesis
    using recv s3(3) by (auto simp: fold_map comp_def rib_key_def nlri_of_def nlri_stamp_def)
qed

text \<open>
  C2: from the wire to the RIB. When an established neighbour sends an UPDATE that announces the
  prefixes \<open>ps\<close> with the attributes \<open>attrs\<close>, its thread takes the message off the connection, and
  the next pass of the main thread, if it comes before the hold time is over, puts exactly these
  routes into the RIB, each with the attributes of the message, under the id of the neighbour,
  and leaves all others as they were. The dumper is off, and nothing else is waiting.
\<close>

theorem update_reaches_rib:
  assumes "rib_inv (adj_rib_in s)" and "\<not> dumper_on_off s" and "k < length (thread_q s)"
    and "state (thread_q s ! k) = Established" and "connected (thread_q s ! k)"
    and "pending (thread_q s ! k) = frame 2 (update_message attrs ps) @ rest"
    and "\<forall>fa \<in> set attrs. attr_ok (snd fa)" and "\<forall>lp \<in> set ps. prefix_ok lp"
    and "length (update_message attrs ps) \<le> 4096"
    and "in_queue (thread_q s ! k) = []" and "adj_rib_in_q s = []" and "adj_rib_in_wdraw_q s = []"
    and "\<forall>j < length (thread_q s). j \<noteq> k \<longrightarrow> state (thread_q s ! j) \<noteq> Established"
    and "sint (later - now) < int (unat (p_hold_time (thread_q s ! k)))"
  shows "\<exists>s1 s2. session_recv now junk k s = Inr s1 \<and> main_pass later s1 = Inr s2
    \<and> routes s2 = fold (\<lambda>lp r. r((snd lp, p_bgp_id (thread_q s ! k)) \<mapsto>
        copy_update ((update_of attrs)\<lparr>nlri := nlri_of Nlri_update later (p_bgp_id (thread_q s ! k)) lp\<rparr>))) ps (routes s)"
  by (rule update_enters_rib) (rule assms)+

text \<open>An instance with one established neighbour, 0.0.0.9, for the witnesses.\<close>

definition established_bgp :: "bytes \<Rightarrow> bgp" where
  "established_bgp data = (new_bgp True 1)\<lparr>thread_q := [(sample_peer data)\<lparr>state := Established, p_bgp_id := 9\<rparr>]\<rparr>"

lemma established_bgp_sel [simp]:
  "thread_q (established_bgp data) = [(sample_peer data)\<lparr>state := Established, p_bgp_id := 9\<rparr>]"
  "adj_rib_in (established_bgp data) = []" "\<not> dumper_on_off (established_bgp data)"
  "adj_rib_in_q (established_bgp data) = []" "adj_rib_in_wdraw_q (established_bgp data) = []"
  by (simp_all add: established_bgp_def new_bgp_def)

lemma established_peer_sel [simp]:
  "connected ((sample_peer data)\<lparr>state := Established, p_bgp_id := 9\<rparr>)"
  "pending ((sample_peer data)\<lparr>state := Established, p_bgp_id := 9\<rparr>) = data"
  "in_queue (sample_peer data) = []" "p_hold_time (sample_peer data) = 180"
  by (simp_all add: sample_peer_def connected_def pending_def new_peer_def bgp_peer.defs tcp_client.defs)

theorem update_reaches_rib_witness:
  "\<exists>s1 s2. session_recv 5 [] 0 (established_bgp (frame 2 (update_message [(0x40, S_origin 2)] [(24, quad 192 0 2 0)]) @ [])) = Inr s1
     \<and> main_pass 7 s1 = Inr s2
     \<and> routes s2 = [(quad 192 0 2 0, 9) \<mapsto> copy_update ((update_of [(0x40, S_origin 2)])
         \<lparr>nlri := nlri_of Nlri_update 7 9 (24, quad 192 0 2 0)\<rparr>)]"
proof -
  let ?m = "update_message [(0x40, S_origin 2)] [(24, quad 192 0 2 0)]"
  have "prefix_ok (24, quad 192 0 2 0)"
    by (simp add: prefix_ok_def quad_def nlri_byte_length_def eval_simps)
  moreover have "length ?m \<le> 4096"
    by (simp add: update_message_def attr_bytes_def prefix_bytes_def nlri_byte_length_def)
  moreover have "routes (established_bgp data) = Map.empty" for data
    by (simp add: routes_def [abs_def])
  ultimately show ?thesis
    using update_reaches_rib [of "established_bgp (frame 2 ?m @ [])" 0 "[(0x40, S_origin 2)]" "[(24, quad 192 0 2 0)]" "[]" 7 5 "[]"]
    by (simp add: attr_ok_def rib_inv_def)
qed

section \<open>Stopping\<close>

text \<open>
  C31: stopping the instance. When the router ids are distinct, as they are in every reachable
  state, the thread of a neighbour that has one leaves its loop and takes the neighbour out of
  the table, which deletes it; the next access uses the deleted object.
\<close>

theorem init_peer_shutdown:
  assumes "ids_unique (thread_q s)" and "stop_and_exit_instance s" and "k < length (thread_q s)"
    and "length (thread_q s) \<le> 255" and "p_bgp_id (thread_q s ! k) \<noteq> 0"
  shows "init_peer todo k s = Some (Inl Use_after_free)"
proof -
  have "\<forall>j < length (thread_q s). p_bgp_id (thread_q s ! j) = p_bgp_id (thread_q s ! k) \<longrightarrow> j = k"
    using assms(1,3,5) ids_uniqueD by metis
  from delete_loop_self [OF this assms(3) refl assms(4), of 0] have
    "delete_peer (Some k) (thread_q s) = Some (Inl Use_after_free)" by (simp add: delete_peer_def)
  with assms(2) show ?thesis by (simp add: init_peer.simps)
qed

theorem init_peer_shutdown_witness:
  "init_peer [] 0 ((established_bgp [])\<lparr>stop_and_exit_instance := True\<rparr>) = Some (Inl Use_after_free)"
  by (rule init_peer_shutdown) (simp_all add: ids_unique_def)

text \<open>
  The loop of connection attempts does not look at the flag: while its neighbour does not answer,
  the thread goes on after the instance has been stopped.
\<close>

lemma connect_never_gives_up:
  "\<forall>a \<in> set attempts. env_addrs (at_connect a) = None \<Longrightarrow> init_peer_states b now attempts p = None"
proof -
  assume *: "\<forall>a \<in> set attempts. env_addrs (at_connect a) = None"
  have "state q = Idle \<Longrightarrow> init_attempts attempts q = None" for q
    using * by (induction attempts arbitrary: q) (auto simp: connect_attempt_def connect_def)
  then show ?thesis by (simp add: init_peer_states_def)
qed

end
