(* ===== verification/Cli_Behaviour.thy ===== *)
theory Cli_Behaviour
  imports Bgp_Threads
begin

text \<open>
  What single command lines do: the counters that \<^verbatim>\<open>show bgp neighbors\<close> prints, lines that lack
  words, a neighbour configured twice, and the port of a logging host.
\<close>

section \<open>Counters\<close>

text \<open>The block of a neighbour with a given number of current routes.\<close>

definition neighbor_block :: "cli_env \<Rightarrow> bgp \<Rightarrow> bgp_peer \<Rightarrow> nat \<Rightarrow> string" where
  "neighbor_block env s p n =
     neighbor_session env s p @ neighbor_messages p
     @ nl @ nl @ ''  Prefix activity:'' @ pad_left 13 (tab @ ''Sent'' @ tab @ tab @ ''Rcvd'' @ nl)
     @ ''    Prefixes Current: '' @ pad_left 10 (show_u32 (cur_tx (current (prefixes p)))) @ pad_left 16 (show_nat n) @ nl
     @ prefix_row ''Prefixes Total:   '' (cnt_tx (prefixes p)) (cnt_rx (prefixes p))
     @ prefix_row ''Implicit Withdraw:'' (cur_tx (implicit_withdraw p)) (cur_rx (implicit_withdraw p))
     @ prefix_row ''Explicit Withdraw:'' (cur_tx (explicit_withdraw p)) (cur_rx (explicit_withdraw p))
     @ socket_rows ''RCV'' (cli_rcvbuf env (tcp_socket p)) (tcp_rx_socket_buffer_size p)
     @ socket_rows ''SND'' (cli_sndbuf env (tcp_socket p)) (tcp_tx_socket_buffer_size p) @ nl"

lemma neighbor_text_block: "neighbor_text env s p = neighbor_block env s p (unat (current_rx p))"
  by (simp add: neighbor_text_def neighbor_block_def neighbor_prefixes_def prefix_row_def current_rx_def show_u32_def)

lemma show_neighbors_line:
  "ExecuteLine env ''show bgp neighbors'' s = show_bgp_neighbors env [''show'', ''bgp'', ''neighbors''] s"
proof -
  have w: "words ''show bgp neighbors'' = [''show'', ''bgp'', ''neighbors'']" by code_simp
  show ?thesis unfolding instance_lines(5) [OF w] w ..
qed

text \<open>
  C27: in every reachable state \<^verbatim>\<open>show bgp neighbors\<close> prints, for each neighbour in the order of the
  table, the number of routes the RIB has from it as the received current prefixes, as long as a
  neighbour has fewer than \<open>2 ^ 32\<close> routes.
\<close>

theorem show_neighbors_counts:
  assumes "bgp_run (new_bgp ok as) s" and "thread_q s \<noteq> []" and "length (adj_rib_in s) < 2 ^ 32"
  shows "ExecuteLine env ''show bgp neighbors'' s =
    Some (Inr (concat (map (\<lambda>p. neighbor_block env s p (rib_count (p_bgp_id p) (adj_rib_in s))) (thread_q s)) @ nl @ nl, s))"
proof -
  have inv: "core_inv s" using core_inv_run [OF assms(1) core_inv_new] .
  have "neighbor_text env s p = neighbor_block env s p (rib_count (p_bgp_id p) (adj_rib_in s))" if "p \<in> set (thread_q s)" for p
  proof -
    have "rib_count (p_bgp_id p) (adj_rib_in s) < 2 ^ 32"
      using assms(3) by (simp add: rib_count_def le_less_trans [OF length_filter_le])
    then have "unat (of_nat (rib_count (p_bgp_id p) (adj_rib_in s)) :: u32) = rib_count (p_bgp_id p) (adj_rib_in s)"
      by (simp add: unsigned_of_nat take_bit_nat_eq_self)
    with inv that show ?thesis by (simp add: neighbor_text_block core_inv_def)
  qed
  then have "map (neighbor_text env s) (thread_q s) =
      map (\<lambda>p. neighbor_block env s p (rib_count (p_bgp_id p) (adj_rib_in s))) (thread_q s)" by simp
  with assms(2) show ?thesis
    by (simp only: show_neighbors_line show_bgp_neighbors_def) (simp add: peer_count_def)
qed

theorem show_neighbors_counts_witness:
  "ExecuteLine plain_env ''show bgp neighbors'' (neighbor_start [] (new_peer [] []) (new_bgp True 1)) =
    Some (Inr (neighbor_block plain_env (neighbor_start [] (new_peer [] []) (new_bgp True 1)) (copy_peer [] (new_peer [] [])) 0 @ nl @ nl,
      neighbor_start [] (new_peer [] []) (new_bgp True 1)))"
  using show_neighbors_counts [OF run_neighbor [of True 1 "[]" "new_peer [] []"], of plain_env]
  by (simp add: neighbor_start_def start_peer_def new_bgp_def)

section \<open>Lines that lack words\<close>

text \<open>
  A command that is typed without its last words is found all the same, and its function reads
  past the words of the line.
\<close>

theorem missing_words:
  "ExecuteLine env ''bgp-id'' s = Some (Inl Out_of_bounds)
   \<and> ExecuteLine env ''dumper'' s = Some (Inl Out_of_bounds)
   \<and> ExecuteLine env ''neighbor'' s = Some (Inl Out_of_bounds)
   \<and> ExecuteLine env ''show bgp ipv4'' s = Some (Inl Out_of_bounds)
   \<and> ExecuteLine env (''neighbor '' @ inet_ntoa a) (new_bgp ok as) = Some (Inl Out_of_bounds)"
proof -
  have w: "words ''bgp-id'' = [''bgp-id'']" "words ''dumper'' = [''dumper'']" "words ''neighbor'' = [''neighbor'']"
    "words ''show bgp ipv4'' = [''show'', ''bgp'', ''ipv4'']" by code_simp+
  have wn: "words (''neighbor '' @ inet_ntoa a) = [''neighbor'', inet_ntoa a]" by (simp only: line_words)
  have "ExecuteLine env ''bgp-id'' s = run_command Set_bgp_id env [''bgp-id''] s"
    "ExecuteLine env ''dumper'' s = run_command Proto_bgp_toggle_update_dump env [''dumper''] s"
    "ExecuteLine env ''neighbor'' s = run_command Proto_bgp_neighbor env [''neighbor''] s"
    "ExecuteLine env ''show bgp ipv4'' s = run_command Show_bgp_prefix env [''show'', ''bgp'', ''ipv4''] s"
    using ExecuteLine_leads [OF root_commands(2), where f = Set_bgp_id and line = "''bgp-id''" and toks = "[]"]
      ExecuteLine_leads [OF root_commands(3), where f = Proto_bgp_toggle_update_dump and line = "''dumper''" and toks = "[]"]
      ExecuteLine_leads [OF root_commands(1), where f = Proto_bgp_neighbor and line = "''neighbor''" and toks = "[]"]
      ExecuteLine_leads [OF root_commands(6), where f = Show_bgp_prefix and line = "''show bgp ipv4''" and toks = "[''bgp'', ''ipv4'']"]
    by (simp_all add: w tree_simps)
  moreover have "ExecuteLine env (''neighbor '' @ inet_ntoa a) (new_bgp ok as) = Some (Inl Out_of_bounds)"
    unfolding neighbor_lines(5) [OF wn] wn
    by (simp add: proto_bgp_neighbor_def token_def peer_exists_def new_bgp_def)
  ultimately show ?thesis
    by (simp only: run_command.simps)
      (simp add: set_bgp_id_def proto_bgp_toggle_update_dump_def proto_bgp_neighbor_def show_bgp_prefix_def token_def)
qed

section \<open>The binary address of a neighbour\<close>

text \<open>Nothing sets it once the neighbour is in the table, where the copy constructor has left it 0.\<close>

lemma send_packet_ipv4 [simp]: "ipv4 (snd (send_packet now p payload ty)) = ipv4 p"
proof -
  have w: "ipv4 (tcp_write bs q) = ipv4 q" for bs q by (simp add: tcp_write_def)
  have f: "ipv4 (tx_flush q) = ipv4 q" for q :: bgp_peer by (simp add: tx_flush_def split: option.split)
  show ?thesis
    by (auto simp: send_packet_def write_formated_def count_sent_def Let_def w f split: bgp_msg_type.split)
qed

lemma tcp_read_ipv4: "tcp_read n p = (r, p') \<Longrightarrow> ipv4 p' = ipv4 p"
  by (auto simp: tcp_read_def Let_def split: if_splits option.splits)

lemma snd_tcp_read_ipv4 [simp]: "ipv4 (snd (tcp_read n p)) = ipv4 p"
  by (cases "tcp_read n p") (simp add: tcp_read_ipv4)

lemma decode_open_ipv4: "decode_open b now p packet = Inr p' \<Longrightarrow> ipv4 p' = ipv4 p"
  by (auto simp: decode_open_def reject_open_def notification_def disconnect_def rbind_eq_Inr Let_def split: if_splits)

lemma handle_message_ipv4: "handle_message b now junk ty payload p = Inr (p', ls) \<Longrightarrow> ipv4 p' = ipv4 p"
  by (auto simp: handle_message_def queue_update_def rbind_eq_Inr Let_def
      split: option.splits bgp_msg_type.splits if_splits dest!: decode_open_ipv4)

lemma established_step_ipv4: "established_step b now junk p = Inr (p', ls) \<Longrightarrow> ipv4 p' = ipv4 p"
  by (auto simp: established_step_def rbind_eq_Inr Let_def split: option.splits prod.splits if_splits
      dest!: tcp_read_ipv4 handle_message_ipv4)

lemma hold_timer_ipv4: "hold_timer_expired now p = (e, p', ls) \<Longrightarrow> ipv4 p' = ipv4 p"
  by (auto simp: hold_timer_expired_def notification_def disconnect_def split: if_splits)

lemma connect_ipv4: "connect env p = (rc, p') \<Longrightarrow> ipv4 p' = ipv4 p"
  by (auto simp: connect_def Let_def split: option.splits if_splits prod.splits)

lemma connect_attempt_ipv4: "connect_attempt a p = Inr p' \<Longrightarrow> ipv4 p' = ipv4 p"
  by (auto simp: connect_attempt_def rbind_eq_Inr Let_def set_bgp_rx_buffer_size_def set_bgp_tx_buffer_size_def
      set_tcp_rx_buffer_size_def set_tcp_tx_buffer_size_def disconnect_def drop_to_idle_def
      split: prod.splits bool.splits if_splits dest!: connect_ipv4)

lemma send_open_ipv4: "ipv4 (send_open b now p) = ipv4 p"
  by (simp add: send_open_def Let_def)

definition addresses_unset :: "bgp \<Rightarrow> bool" where
  "addresses_unset s \<longleftrightarrow> (\<forall>x \<in> set (thread_q s). ipv4 x = 0)"

lemma unset_peer:
  assumes "thread_q s' = (thread_q s)[k := p]" and "addresses_unset s" and "k < length (thread_q s)"
    and "ipv4 p = ipv4 (thread_q s ! k)"
  shows "addresses_unset s'"
  using assms set_update_subset_insert [of "thread_q s" k p] by (force simp: addresses_unset_def)

lemma count_ipv4 [simp]: "ipv4 (count_entry known p) = ipv4 p" "ipv4 (count_withdraw p) = ipv4 p"
    "ipv4 (add_current_rx d p) = ipv4 p"
  by (simp_all add: count_entry_def count_withdraw_def add_current_rx_def Let_def)

lemma set_translation_ipv4: "set_translation code v new p = Inr p' \<Longrightarrow> ipv4 p' = ipv4 p"
  by (auto simp: set_translation_def rbind_eq_Inr Let_def)

lemma peer_entry_unset:
  assumes "addresses_unset s" and "peer_entry now u s = Inr s'"
  shows "addresses_unset s'"
proof -
  from assms(2) obtain s1 where s1: "dump_update now Nlri_update u s = Inr s1"
    by (auto simp: peer_entry_def rbind_eq_Inr)
  note q = dump_update_sessions [OF s1]
  show ?thesis
  proof (cases "get_peer_by_bgp_id (nlri_bgp_id (nlri u)) (thread_q s)")
    case None
    with assms s1 q show ?thesis by (simp add: peer_entry_def Let_def addresses_unset_def)
  next
    case (Some k)
    with assms(2) s1 q have "\<exists>known. thread_q s' = (thread_q s)[k := count_entry known (thread_q s ! k)]"
      by (auto simp: peer_entry_def Let_def rbind_eq_Inr split_beta)
    then obtain known where "thread_q s' = (thread_q s)[k := count_entry known (thread_q s ! k)]" ..
    from unset_peer [OF this assms(1)] by_id.look_Some [OF Some] show ?thesis by simp
  qed
qed

lemma withdraw_unset:
  assumes "addresses_unset s" and "withdraw now u s = Inr s'"
  shows "addresses_unset s'"
proof (cases "map_find rib_sort (rib_key u) (adj_rib_in s)")
  case None
  with assms show ?thesis by (simp add: withdraw_absent)
next
  case (Some it)
  with assms(2) obtain s1 where s1: "dump_update now Nlri_withdraw it s = Inr s1"
    by (auto simp: withdraw_def rbind_eq_Inr)
  with assms(2) Some obtain k where k: "get_peer_by_bgp_id (nlri_bgp_id (nlri u)) (thread_q s) = Some k"
    by (auto simp: withdraw_def dump_update_sessions [OF s1] split: option.splits)
  with assms(2) Some s1 dump_update_sessions [OF s1]
  have "thread_q s' = (thread_q s)[k := count_withdraw (thread_q s ! k)]" by (auto simp: withdraw_def)
  from unset_peer [OF this assms(1)] by_id.look_Some [OF k] show ?thesis by simp
qed

lemma addresses_unset_same: "thread_q s' = thread_q s \<Longrightarrow> addresses_unset s \<Longrightarrow> addresses_unset s'"
  by (simp add: addresses_unset_def)

lemma addresses_unset_step: "bgp_step s s' \<Longrightarrow> addresses_unset s \<Longrightarrow> addresses_unset s'"
proof (induction rule: bgp_step.induct)
  case (step_timer k s now e p ls)
  show ?case by (rule unset_peer [of _ s k p]) (use step_timer hold_timer_ipv4 [OF step_timer.hyps(2)] in simp_all)
next
  case (step_in_q k s q qs now s')
  let ?p = "(thread_q s ! k)\<lparr>in_queue := tl (in_queue (thread_q s ! k)), in_q := in_q (thread_q s ! k) - 1\<rparr>"
  have "thread_q s' = (thread_q s)[k := ?p]" using in_q_pop_eq [OF step_in_q.hyps(4)] by auto
  from unset_peer [OF this step_in_q.prems step_in_q.hyps(1)] show ?case by simp
next
  case (step_rib_in s u us now s')
  then obtain s1 where s1: "peer_entry now u s = Inr s1" "thread_q s' = thread_q s1"
    by (auto simp: rib_in_pop_def rbind_eq_Inr)
  from addresses_unset_same [OF s1(2) peer_entry_unset [OF step_rib_in.prems s1(1)]] show ?case .
next
  case (step_rib_wdraw s u us now s')
  then obtain s1 where s1: "withdraw now u s = Inr s1" "thread_q s' = thread_q s1"
    by (auto simp: rib_wdraw_pop_def rbind_eq_Inr)
  from addresses_unset_same [OF s1(2) withdraw_unset [OF step_rib_wdraw.prems s1(1)]] show ?case .
next
  case (step_recv k s now junk s')
  from session_recv_eq [OF step_recv.hyps(3,1)] obtain p ls where
    p: "established_step s now junk (thread_q s ! k) = Inr (p, ls)" "s' = add_log ls (set_peer k p s)" by blast
  then have "thread_q s' = (thread_q s)[k := p]" by simp
  from unset_peer [OF this step_recv.prems step_recv.hyps(1)] established_step_ipv4 [OF p(1)] show ?case by simp
next
  case (step_flush k s s')
  then have "thread_q s' = (thread_q s)[k := add_current_rx (-1) (thread_q s ! k)]"
    by (auto simp: flush_one_def flush_peer_def split: option.splits if_splits)
  from unset_peer [OF this step_flush.prems step_flush.hyps(1)] show ?case by simp
next
  case (step_end k s)
  from unset_peer [OF session_end_sel(4) step_end.prems step_end.hyps] show ?case by (simp add: disconnect_def)
next
  case (step_attempt k s a s')
  then obtain p where p: "connect_attempt a ((thread_q s ! k)\<lparr>state := Idle\<rparr>) = Inr p" "s' = set_peer k p s"
    by (auto simp: session_attempt_def rbind_eq_Inr)
  then have "thread_q s' = (thread_q s)[k := p]" by simp
  from unset_peer [OF this step_attempt.prems step_attempt.hyps(1)] connect_attempt_ipv4 [OF p(1)] show ?case by simp
next
  case (step_open k s now)
  have "thread_q (session_open now k s) = (thread_q s)[k := send_open s now (thread_q s ! k)]" by (simp add: session_open_def)
  from unset_peer [OF this step_open.prems step_open.hyps] show ?case by (simp add: send_open_ipv4)
next
  case (step_neighbor s bip params)
  have "ipv4 (copy_peer bip params) = 0"
    by (simp add: copy_peer_def new_peer_def bgp_peer.defs tcp_client.defs new_tcp_client_def)
  with step_neighbor show ?case by (simp add: addresses_unset_def neighbor_start_def start_peer_def)
next
  case (step_alias k s code v new p)
  show ?case by (rule unset_peer [of _ s k p]) (use step_alias set_translation_ipv4 [OF step_alias.hyps(2)] in simp_all)
next
  case (step_rx_buffer k s b a)
  show ?case
    by (rule unset_peer [of _ s k "(thread_q s ! k)\<lparr>tcp_rx_socket_buffer_size := a, bgp_rx_buffer_size := b\<rparr>"])
       (use step_rx_buffer in simp_all)
next
  case (step_tx_buffer k s b a)
  show ?case
    by (rule unset_peer [of _ s k "(thread_q s ! k)\<lparr>tcp_tx_socket_buffer_size := a, bgp_tx_buffer_size := b\<rparr>"])
       (use step_tx_buffer in simp_all)
qed (simp_all add: addresses_unset_def set_id_def)

lemma addresses_unset_run: "bgp_run (new_bgp ok as) s \<Longrightarrow> addresses_unset s"
proof (induction rule: bgp_run.induct)
  case run_start
  then show ?case by (simp add: addresses_unset_def new_bgp_def)
qed (rule addresses_unset_step)

section \<open>A neighbour twice\<close>

text \<open>
  C28: the check for an existing neighbour never succeeds for an address other than 0.0.0.0: typing
  the line of a neighbour twice, in any reachable state with at most 254 neighbours, starts two
  neighbours with the same address, because the binary address the check compares is never stored
  in the table.
\<close>

theorem neighbor_twice:
  assumes "a \<noteq> 0" and "bgp_run (new_bgp ok my_as) s" and "length (thread_q s) \<le> 254"
  shows "\<exists>s1 s2. ExecuteLine env (''  neighbor '' @ inet_ntoa a @ '' remote-as '' @ show_nat (unat (as :: u16))) s = Some (Inr ([], s1))
    \<and> ExecuteLine env (''  neighbor '' @ inet_ntoa a @ '' remote-as '' @ show_nat (unat as)) s1 = Some (Inr ([], s2))
    \<and> map p_ip (thread_q s2) = map p_ip (thread_q s) @ [inet_ntoa a, inet_ntoa a]"
proof -
  let ?p = "(new_peer [] (cli_b_ip env))\<lparr>p_AS := as, p_addr_family := AF_INET, p_ip := inet_ntoa a\<rparr>"
  let ?s1 = "with_last s (thread_q s) ?p"
  have unset: "\<forall>x \<in> set (thread_q s). ipv4 x = 0"
    using addresses_unset_run [OF assms(2)] by (simp add: addresses_unset_def)
  have "proto_bgp_neighbor env [''neighbor'', inet_ntoa a, ''remote-as'', show_nat (unat as)] s = Some (Inr ([], ?s1))"
    using assms unset by (intro neighbor_started) auto
  moreover have "proto_bgp_neighbor env [''neighbor'', inet_ntoa a, ''remote-as'', show_nat (unat as)] ?s1 =
      Some (Inr ([], with_last ?s1 (thread_q ?s1) ?p))"
    using assms unset by (intro neighbor_started) auto
  ultimately show ?thesis
    by (simp only: neighbor_lines(1) [OF as_words] as_words sum.inject option.inject prod.inject) simp
qed

theorem neighbor_twice_witness:
  "\<exists>s1 s2. ExecuteLine plain_env (''  neighbor '' @ inet_ntoa 1 @ '' remote-as '' @ show_nat (unat (65001 :: u16))) (new_bgp True 1) = Some (Inr ([], s1))
    \<and> ExecuteLine plain_env (''  neighbor '' @ inet_ntoa 1 @ '' remote-as '' @ show_nat (unat (65001 :: u16))) s1 = Some (Inr ([], s2))
    \<and> map p_ip (thread_q s2) = [inet_ntoa 1, inet_ntoa 1]"
proof -
  have "thread_q (new_bgp True 1) = []" by (simp add: new_bgp_def)
  with neighbor_twice [of 1, OF _ run_start, of True 1 plain_env 65001] show ?thesis
    by (simp only: list.map append_Nil list.size simp_thms zero_le one_neq_zero not_False_eq_True)
qed

section \<open>The port of a logging host\<close>

lemma htons_htons: "htons (htons w) = w"
  using le_bytes_word_of_le [of "be_bytes 2 w", where 'a = 16]
  by (simp add: htons_def be_bytes_def [of 2 "word_of_le _"] be_bytes_def word_of_le_bytes)

text \<open>
  The port of \<^verbatim>\<open>logging host\<close> is converted to network byte order by the command and again by the
  sender, so the datagrams are sent to the port with the two bytes exchanged, and \<^verbatim>\<open>write\<close> stores
  it exchanged, too.
\<close>

lemma logging_port:
  assumes "get_peer_by_str_ip ip (thread_q s) = Some k" and "h \<noteq> 0" and "0 \<le> cli_udp_socket env"
    and sorted: "map_sorted udp_sort (udp_map (dumper s))"
  shows "\<exists>s' u. set_peer_logging env [''neighbor'', ip, ''logging'', ''host'', inet_ntoa h, show_nat (unat port)] s = Some (Inr ([], s'))
    \<and> map_find udp_sort (p_bgp_id (thread_q s ! k)) (udp_map (dumper s')) = Some u
    \<and> us_dest_addr u = h \<and> us_port u = htons port \<and> us_dest_port u = port"
  using assms
  by (auto simp: set_peer_logging_def on_peer_def token_def string_to_ip_def add_dest_host_look(2) [OF sorted]
      udp_config_def Let_def htons_htons)

end
