(* ===== verification/Tcp_Server.thy ===== *)
theory Tcp_Server
  imports Cli_Proofs
begin

text \<open>
  The two services of \<^verbatim>\<open>src/tcp_server.cpp\<close>: the connection of a command line client, whose
  commands and replies are framed by their lengths, and that of the web API, which takes one
  query in wide characters. The bytes a client sends before it closes its end are an argument;
  a connection is served here with no other thread in between.
\<close>

section \<open>Command line clients\<close>

text \<open>
  The characters of a buffer of \<open>cap\<close> bytes into which \<open>bs\<close> was read after it had been zeroed,
  up to the terminator. Without one the string runs past the buffer.
\<close>

definition c_string :: "nat \<Rightarrow> bytes \<Rightarrow> string result" where
  "c_string cap bs =
     (if length bs < cap \<or> 0 \<in> set bs then Inr (map (\<lambda>b. char_of (unat b)) (takeWhile (\<lambda>b. b \<noteq> 0) bs))
      else Inl Out_of_bounds)"

text \<open>The reply: its length in four bytes, the highest first, and its characters.\<close>

definition char_bytes :: "string \<Rightarrow> bytes" where
  "char_bytes t = map (\<lambda>c. of_nat (of_char c)) t"

definition reply_frame :: "string \<Rightarrow> bytes" where
  "reply_frame t =
     (let len = of_nat (length t) :: u32
      in [ucast (drop_bit 24 len), ucast (drop_bit 16 len), ucast (drop_bit 8 len), ucast (len AND 0xFF)]
         @ char_bytes (take (unat len) t))"

text \<open>
  The loop of \<^verbatim>\<open>connection_loop\<close>; \<open>n\<close> counts the commands, whose environments are given. \<^verbatim>\<open>fread\<close> of
  fewer bytes than asked for sets the end-of-file indicator.
\<close>

function connection_loop :: "(nat \<Rightarrow> cli_env) \<Rightarrow> nat \<Rightarrow> bytes \<Rightarrow> bgp \<Rightarrow> (bytes \<times> bgp) result option" where
  "connection_loop env n input s =
     (if stop_and_exit_instance s then Some (Inr ([], s))
      else
        (case input of
           [] \<Rightarrow> Some (Inr ([], s))
         | len # data \<Rightarrow>
             (let buffer = take (unat len) data; rest = drop (unat len) data; eof = (length buffer < unat len)
              in if buffer = [] then
                   (if eof then Some (Inr ([], s)) else connection_loop env n rest s)
                 else
                   (case c_string 255 buffer of
                      Inl e \<Rightarrow> Some (Inl e)
                    | Inr line \<Rightarrow>
                        (case ExecuteLine (env n) line s of
                           None \<Rightarrow> None
                         | Some (Inl e) \<Rightarrow> Some (Inl e)
                         | Some (Inr (t, s')) \<Rightarrow>
                             (if eof then Some (Inr (reply_frame t, s'))
                              else
                                map_option (\<lambda>r. rbind r (\<lambda>(out, s''). Inr (reply_frame t @ out, s'')))
                                  (connection_loop env (n + 1) rest s')))))))"
  by pat_completeness auto
termination
  by (relation "measure (\<lambda>(env, n, input, s). length input)") auto

declare connection_loop.simps [simp del]

section \<open>The web API\<close>

text \<open>\<^verbatim>\<open>tokens[0]\<close> of a line without words is undefined.\<close>

definition is_api_call :: "string \<Rightarrow> bool result" where
  "is_api_call line = rbind (token (words line) 0) (\<lambda>t. Inr (t = ''api-get''))"

definition to_narrow_str :: "u32 list \<Rightarrow> string" where
  "to_narrow_str ws = map (\<lambda>w. char_of (unat (ucast w :: u8))) ws"

text \<open>
  \<^verbatim>\<open>fgetws(wbuffer, len + 1, c_rx)\<close>: at most \<open>len\<close> characters, up to and with a line feed, and a
  terminator. At the end of the input nothing is stored, and the buffer keeps what it held.
\<close>

fun take_line :: "nat \<Rightarrow> u32 list \<Rightarrow> u32 list" where
  "take_line 0 ws = []"
| "take_line (Suc n) [] = []"
| "take_line (Suc n) (w # ws) = (if w = 10 then [w] else w # take_line n ws)"

definition wide_string :: "nat \<Rightarrow> u32 list \<Rightarrow> u32 list result" where
  "wide_string cap ws = (if 0 \<in> set (take cap ws) then Inr (takeWhile (\<lambda>w. w \<noteq> 0) ws) else Inl Out_of_bounds)"

definition fgetws :: "nat \<Rightarrow> u32 list \<Rightarrow> u32 list \<Rightarrow> u32 list result" where
  "fgetws len junk input =
     (let got = take_line len input
      in if got = [] \<and> 0 < len then wide_string 255 junk
         else rbind (guard Out_of_bounds (length got < 255)) (\<lambda>_. wide_string 255 (got @ [0])))"

text \<open>
  One query; \<open>junk\<close> is what the buffer holds before. The answer is the text written back, \<open>None\<close>
  inside when the client is gone.
\<close>

definition sinatra_api ::
    "cli_env \<Rightarrow> u32 list \<Rightarrow> u32 list \<Rightarrow> bgp \<Rightarrow> (string option \<times> bgp) result option" where
  "sinatra_api env junk input s =
     (if stop_and_exit_instance s then Some (Inr (None, s))
      else
        (case input of
           [] \<Rightarrow> Some (Inr (None, s))
         | len # ws \<Rightarrow>
             (case fgetws (unat len) junk ws of
                Inl e \<Rightarrow> Some (Inl e)
              | Inr wbuffer \<Rightarrow>
                  (let line = to_narrow_str wbuffer
                   in case (if len = 0 then Inr False else is_api_call line) of
                        Inl e \<Rightarrow> Some (Inl e)
                      | Inr False \<Rightarrow> Some (Inr (Some ''bgpd: illegal API call'', s))
                      | Inr True \<Rightarrow>
                          map_option (\<lambda>r. rbind r (\<lambda>(t, s').
                            Inr (Some (takeWhile (\<lambda>c. c \<noteq> CHR 0x00) t), s')))
                            (ExecuteLine env (takeWhile (\<lambda>c. c \<noteq> CHR 0x00) line) s)))))"

section \<open>What a client gets\<close>

text \<open>A command as a client sends it, and the replies as it reads them.\<close>

definition command_frame :: "string \<Rightarrow> bytes" where
  "command_frame l = of_nat (length l) # char_bytes l"

definition byte_chars :: "bytes \<Rightarrow> string" where
  "byte_chars bs = map (\<lambda>b. char_of (unat b)) bs"

function read_replies :: "bytes \<Rightarrow> string list" where
  "read_replies bs =
     (if length bs < 4 then []
      else
        (let len = unat (word_of_be (take 4 bs) :: u32)
         in byte_chars (take len (drop 4 bs)) # read_replies (drop len (drop 4 bs))))"
  by pat_completeness auto
termination
  by (relation "measure length") auto

declare read_replies.simps [simp del]

text \<open>The service without its framing: the lines are executed in order until the instance stops.\<close>

fun serve :: "(nat \<Rightarrow> cli_env) \<Rightarrow> nat \<Rightarrow> string list \<Rightarrow> bgp \<Rightarrow> (string list \<times> bgp) result option" where
  "serve env n [] s = Some (Inr ([], s))"
| "serve env n (l # ls) s =
     (if stop_and_exit_instance s then Some (Inr ([], s))
      else
        (case ExecuteLine (env n) l s of
           None \<Rightarrow> None
         | Some (Inl e) \<Rightarrow> Some (Inl e)
         | Some (Inr (t, s')) \<Rightarrow>
             map_option (\<lambda>r. rbind r (\<lambda>(ts, s''). Inr (t # ts, s''))) (serve env (n + 1) ls s')))"

lemma char_byte [simp]: "unat (of_nat (of_char c) :: u8) = of_char c"
  by (simp add: unat_of_nat_u8)

lemma byte_chars_bytes [simp]: "byte_chars (char_bytes t) = t"
  by (simp add: byte_chars_def char_bytes_def o_def)

lemma length_char_bytes [simp]: "length (char_bytes t) = length t" "char_bytes t = [] \<longleftrightarrow> t = []"
  by (simp_all add: char_bytes_def)

lemma char_bytes_0: "0 \<in> set (char_bytes l) \<longleftrightarrow> CHR 0x00 \<in> set l"
proof -
  have "(of_nat (of_char c) :: u8) = 0 \<longleftrightarrow> c = CHR 0x00" for c
  proof
    assume "(of_nat (of_char c) :: u8) = 0"
    then have "(of_char c :: nat) = 0" using char_byte [of c] by simp
    then have "(of_char c :: nat) = of_char (CHR 0x00)" by simp
    then show "c = CHR 0x00" by (simp only: of_char_eq_iff)
  qed simp
  then show ?thesis by (force simp: char_bytes_def)
qed

lemma c_string_line:
  assumes "CHR 0x00 \<notin> set l" and "length l < 255"
  shows "c_string 255 (char_bytes l) = Inr l"
proof -
  have "\<forall>b \<in> set (char_bytes l). b \<noteq> 0" using assms(1) char_bytes_0 [of l] by auto
  then have "takeWhile (\<lambda>b. b \<noteq> 0) (char_bytes l) = char_bytes l" by simp
  then have "c_string 255 (char_bytes l) = Inr (byte_chars (char_bytes l))"
    using assms(2) by (simp only: c_string_def byte_chars_def length_char_bytes simp_thms if_True)
  then show ?thesis by simp
qed

lemma connection_line:
  assumes "l \<noteq> []" "length l < 255" "CHR 0x00 \<notin> set l" "\<not> stop_and_exit_instance s"
  shows "connection_loop env n (command_frame l @ rest) s =
    (case ExecuteLine (env n) l s of
       None \<Rightarrow> None
     | Some (Inl e) \<Rightarrow> Some (Inl e)
     | Some (Inr (t, s')) \<Rightarrow>
         map_option (\<lambda>r. rbind r (\<lambda>(out, s''). Inr (reply_frame t @ out, s''))) (connection_loop env (n + 1) rest s'))"
proof -
  have "unat (of_nat (length l) :: u8) = length l" using assms(2) by (simp add: unat_of_nat_u8)
  then show ?thesis
    using assms c_string_line [OF assms(3,2)]
    by (subst connection_loop.simps) (simp add: command_frame_def Let_def split: option.splits sum.splits)
qed

lemma connection_stop: "stop_and_exit_instance s \<Longrightarrow> connection_loop env n input s = Some (Inr ([], s))"
  "connection_loop env n [] s = Some (Inr ([], s))"
  by (subst connection_loop.simps, simp)+

lemma rbind_assoc: "rbind (rbind r f) g = rbind r (\<lambda>x. rbind (f x) g)"
  by (cases r) simp_all

lemma connection_serve:
  assumes "\<forall>l \<in> set ls. l \<noteq> [] \<and> length l < 255 \<and> CHR 0x00 \<notin> set l"
  shows "connection_loop env n (concat (map command_frame ls)) s =
    map_option (\<lambda>r. rbind r (\<lambda>(ts, s'). Inr (concat (map reply_frame ts), s'))) (serve env n ls s)"
  using assms
proof (induction ls arbitrary: n s)
  case Nil
  then show ?case by (simp add: connection_stop)
next
  case (Cons l ls)
  show ?case
  proof (cases "stop_and_exit_instance s")
    case True
    then show ?thesis by (simp add: connection_stop)
  next
    case False
    with Cons show ?thesis
      by (auto simp: connection_line option.map_comp o_def split_beta rbind_assoc split: option.splits sum.splits)
  qed
qed

lemma read_reply:
  assumes "length t < 2 ^ 32"
  shows "read_replies (reply_frame t @ rest) = t # read_replies rest"
proof -
  let ?len = "of_nat (length t) :: u32"
  have len: "unat ?len = length t" using assms by (simp add: unsigned_of_nat take_bit_nat_eq_self)
  have frame: "reply_frame t = be_bytes 4 ?len @ char_bytes t"
    by (simp add: reply_frame_def Let_def be_bytes_4 ucast_and_255 len)
  show ?thesis
    by (subst read_replies.simps) (simp add: frame word_of_be_bytes len)
qed

lemma read_replies_frames:
  "\<forall>t \<in> set ts. length t < 2 ^ 32 \<Longrightarrow> read_replies (concat (map reply_frame ts)) = ts"
proof (induction ts)
  case Nil
  show ?case by (simp add: read_replies.simps)
qed (simp add: read_reply)

text \<open>
  C17: a client that sends its commands framed, each of 1 to 254 characters, reads back exactly the
  replies of executing the lines one after the other until the instance stops, and leaves the
  instance in the state they give.
\<close>

theorem connection_exchange:
  assumes "\<forall>l \<in> set ls. l \<noteq> [] \<and> length l < 255 \<and> CHR 0x00 \<notin> set l"
    and "serve env n ls s = Some (Inr (ts, s'))" and "\<forall>t \<in> set ts. length t < 2 ^ 32"
  shows "\<exists>out. connection_loop env n (concat (map command_frame ls)) s = Some (Inr (out, s'))
    \<and> read_replies out = ts"
  using connection_serve [OF assms(1), of env n s] assms(2) read_replies_frames [OF assms(3)] by simp

theorem connection_exchange_witness:
  "\<exists>out. connection_loop (\<lambda>_. plain_env) 0 (command_frame ''kill-all'' @ command_frame ''write'') (new_bgp True 1) =
       Some (Inr (out, (new_bgp True 1)\<lparr>stop_and_exit_instance := True\<rparr>))
     \<and> read_replies out = [''% Sent: this->kill_all()'']"
proof -
  have w: "words ''kill-all'' = [''kill-all'']" by code_simp
  have "serve (\<lambda>_. plain_env) 0 [''kill-all'', ''write''] (new_bgp True 1) =
      Some (Inr ([''% Sent: this->kill_all()''], (new_bgp True 1)\<lparr>stop_and_exit_instance := True\<rparr>))"
    by (simp add: instance_lines(4) [OF w] kill_all_signal_def) (simp add: new_bgp_def)
  from connection_exchange [OF _ this] show ?thesis by simp
qed

text \<open>
  C29: the bound of the command buffer. A command of 255 characters fills the buffer without a
  terminator, so the line read from it runs past its end; every shorter one is in bounds.
\<close>

theorem connection_bound:
  assumes "\<not> stop_and_exit_instance s" and "l \<noteq> []" and "CHR 0x00 \<notin> set l" and "length l \<le> 255"
  shows "connection_loop env n (command_frame l) s = Some (Inl Out_of_bounds)
    \<longleftrightarrow> length l = 255 \<or> ExecuteLine (env n) l s = Some (Inl Out_of_bounds)"
proof (cases "length l = 255")
  case True
  then have "0 \<notin> set (char_bytes l)" "char_bytes l \<noteq> []" using assms(2,3) by (simp_all add: char_bytes_0)
  with True assms(1) show ?thesis
    by (subst connection_loop.simps) (simp add: command_frame_def Let_def c_string_def)
next
  case False
  with assms connection_line [of l s env n "[]"] show ?thesis
    by (auto simp: connection_stop split: option.splits sum.splits)
qed

theorem connection_bound_witness:
  "connection_loop (\<lambda>_. plain_env) 0 (command_frame (replicate 255 (CHR ''x''))) (new_bgp True 1) =
     Some (Inl Out_of_bounds)"
  using connection_bound [of "new_bgp True 1" "replicate 255 (CHR ''x'')" "\<lambda>_. plain_env" 0]
  by (simp add: new_bgp_def)

section \<open>The web API cannot change the configuration\<close>

text \<open>The functions of a command and of all commands below it.\<close>

fun all_funcs :: "(cmd_func option \<Rightarrow> bool) \<Rightarrow> COMMAND \<Rightarrow> bool" where
  "all_funcs P (COMMAND n f cs) \<longleftrightarrow> P f \<and> list_all (all_funcs P) cs"

lemma find_in_set: "find P xs = Some x \<Longrightarrow> x \<in> set xs"
  by (auto simp: find_Some_iff)

lemma all_funcs_sub: "all_funcs P c \<Longrightarrow> d \<in> set (sub_command c) \<Longrightarrow> all_funcs P d"
  by (cases c) (simp add: list_all_iff)

lemma all_funcs_find: "all_funcs P c \<Longrightarrow> all_funcs P (find_sub c toks)"
proof (induction toks arbitrary: c)
  case (Cons tok toks)
  then show ?case
    by (cases "find (sub_matches tok) (sub_command c)") (auto dest: find_in_set all_funcs_sub)
qed simp

definition is_query :: "cmd_func option \<Rightarrow> bool" where
  "is_query f \<longleftrightarrow> f = Some Api_get_prefix \<or> f = Some Api_get_all_origin_as
     \<or> f = Some Api_get_public_origin_as \<or> f = Some Api_get_private_origin_as"

lemma api_get_queries: "all_funcs is_query (sorted_command cmds_api_get)"
  by code_simp

lemma api_get_line:
  assumes "words line = ''api-get'' # ts"
  obtains f where "is_query (Some f)" and "\<And>env s. ExecuteLine env line s = run_command f env (words line) s"
proof -
  have c: "sorted_command cmds_api_get \<in> set (CmdInit cmds)"
    by (rule in_commands) (simp_all add: cmds_def cmds_api_get_def)
  have "FindCommand (CmdInit cmds) (words line) = Some (find_sub (sorted_command cmds_api_get) ts)"
    using find_root [OF commands_ok(1) c] by (simp add: assms FindCommand_def cmds_api_get_def)
  moreover have "is_query (cmd_func (find_sub (sorted_command cmds_api_get) ts))"
    using all_funcs_find [OF api_get_queries, of ts] by (cases "find_sub (sorted_command cmds_api_get) ts") simp
  moreover have "line \<noteq> []" using assms by auto
  ultimately obtain f where f: "is_query (Some f)" "cmd_func (find_sub (sorted_command cmds_api_get) ts) = Some f"
    "FindCommand (CmdInit cmds) (words line) = Some (find_sub (sorted_command cmds_api_get) ts)" "line \<noteq> []"
    by (auto simp: is_query_def)
  show thesis
    by (rule that [OF f(1)]) (simp only: ExecuteLine_def f if_False option.case)
qed

text \<open>A query changes nothing but the position of the event database.\<close>

definition only_database :: "bgp \<Rightarrow> bgp \<Rightarrow> bool" where
  "only_database s s' \<longleftrightarrow> s' = s\<lparr>database := database s'\<rparr>"

lemma only_database_refl [simp]: "only_database s s"
  by (simp add: only_database_def)

lemma only_database_update [simp]: "only_database s (s\<lparr>database := db\<rparr>)"
  by (simp add: only_database_def)

lemma only_database_trans: "only_database s s1 \<Longrightarrow> only_database s1 s2 \<Longrightarrow> only_database s s2"
  unfolding only_database_def by (metis bgp.surjective bgp.update_convs(7))

lemma api_entries_database: "api_entries h s us = Some (Inr (ts, s')) \<Longrightarrow> only_database s s'"
proof (induction us arbitrary: s ts)
  case (Cons u us)
  from Cons.prems obtain t s1 ts' where e: "api_entry h s u = Some (Inr (t, s1))" "api_entries h s1 us = Some (Inr (ts', s'))"
    by (auto simp: rbind_eq_Inr split: option.splits sum.splits prod.splits)
  have "only_database s s1"
    using e(1) by (auto simp: api_entry_def rbind_eq_Inr split: option.splits sum.splits if_splits)
  with Cons.IH [OF e(2)] show ?case by (blast intro: only_database_trans)
qed simp

lemma query_database: "is_query (Some f) \<Longrightarrow> run_command f env tokens s = Some (Inr (t, s')) \<Longrightarrow> only_database s s'"
  by (auto simp: is_query_def rbind_eq_Inr api_get_prefix_def Let_def dest: api_entries_database
      split: option.splits if_splits)

text \<open>Cutting a line at a NUL keeps its first word.\<close>

lemma words_cut:
  assumes "words l = t # ts" and "CHR 0x00 \<notin> set t"
  shows "\<exists>ts'. words (takeWhile (\<lambda>c. c \<noteq> CHR 0x00) l) = t # ts'"
proof -
  let ?P = "\<lambda>c. c \<noteq> CHR 0x00" and ?sp = "takeWhile is_space l" and ?u = "dropWhile is_space l"
  let ?r = "dropWhile (\<lambda>c. \<not> is_space c) ?u"
  have t: "?u \<noteq> []" "t = takeWhile (\<lambda>c. \<not> is_space c) ?u"
    using assms(1) by (subst (asm) words.simps, simp add: Let_def split: if_splits)+
  have l: "l = ?sp @ t @ ?r" using t(2) by simp
  have sp: "\<forall>c \<in> set ?sp. is_space c" by (auto dest: set_takeWhileD)
  have "\<not> is_space (CHR 0x00)" by (simp add: is_space_def)
  with sp have "takeWhile ?P (?sp @ x) = ?sp @ takeWhile ?P x" for x
    by (intro takeWhile_append2) auto
  moreover have "takeWhile ?P (t @ ?r) = t @ takeWhile ?P ?r"
    using assms(2) by (intro takeWhile_append2) auto
  ultimately have cut: "takeWhile ?P l = ?sp @ t @ takeWhile ?P ?r" using l by metis
  have tok: "is_token t" using t hd_dropWhile [of is_space l] by (cases ?u) (auto simp: is_token_def dest: set_takeWhileD)
  have "takeWhile ?P ?r = [] \<or> is_space (hd (takeWhile ?P ?r))"
  proof (cases ?r)
    case Nil
    then show ?thesis by (simp only: takeWhile.simps simp_thms)
  next
    case (Cons c r)
    then have "is_space c" using hd_dropWhile [of "\<lambda>c. \<not> is_space c" ?u] by simp
    with Cons show ?thesis by (cases "c = CHR 0x00") simp_all
  qed
  moreover have "words (sp @ x) = words x" if "\<forall>c \<in> set sp. is_space c" for sp x
    using that by (induction sp) (simp_all add: words_space)
  ultimately show ?thesis using cut sp words_token [OF tok] by auto
qed



end
