(* ===== verification/Bgp_Main.thy ===== *)
theory Bgp_Main
  imports Bgp_Threads Tcp_Server
begin

text \<open>
  The program from its start: \<^verbatim>\<open>src/bgp_main.cpp\<close>, \<^verbatim>\<open>init_BGP\<close> of \<^verbatim>\<open>src/bgp.cpp\<close> and the listening
  sockets of \<^verbatim>\<open>src/tcp_server.cpp\<close>. What the operating system answers is an argument.
\<close>

section \<open>Listening\<close>

text \<open>
  \<^verbatim>\<open>tcp_server::bind\<close>: for each address the descriptor \<^verbatim>\<open>socket\<close> returns and whether \<^verbatim>\<open>::bind\<close>
  succeeds; the last value of \<^verbatim>\<open>tcp_socket\<close> and whether one was bound.
\<close>

fun bind_loop :: "(int \<times> bool) list \<Rightarrow> int \<Rightarrow> int \<times> bool" where
  "bind_loop [] sock = (sock, False)"
| "bind_loop ((fd, ok) # addrs) sock =
     (if fd = -1 then bind_loop addrs fd
      else if ok then (fd, True)
      else bind_loop addrs fd)"

text \<open>
  \<^verbatim>\<open>listen_for_cli\<close> and \<^verbatim>\<open>listen_for_api\<close>: the socket whose connections are served. When
  \<^verbatim>\<open>getaddrinfo\<close> fails (\<open>None\<close>) there is no address to bind.
\<close>

definition listen_for :: "(int \<times> bool) list option \<Rightarrow> int option" where
  "listen_for addrs =
     (case addrs of
        None \<Rightarrow> None
      | Some as \<Rightarrow> (case bind_loop as 0 of (fd, ok) \<Rightarrow> if ok then Some fd else None))"

text \<open>\<^verbatim>\<open>while (!this->listen_for_cli(...));\<close> -- \<open>None\<close> is that it is still trying.\<close>

fun listen_retry :: "(int \<times> bool) list option list \<Rightarrow> int option" where
  "listen_retry [] = None"
| "listen_retry (a # as) = (case listen_for a of None \<Rightarrow> listen_retry as | Some fd \<Rightarrow> Some fd)"

text \<open>
  \<^verbatim>\<open>listen_loop\<close>: one round has whether the instance was stopped, whether \<^verbatim>\<open>listen\<close> succeeds and
  what \<^verbatim>\<open>accept\<close> returns. The result is the connections that got a thread, in order, and how
  the loop ended; an exception leaves the thread and with it ends the program.
\<close>

record accept_env =
  acc_stop :: bool
  acc_listen :: bool
  acc_fd :: int

datatype listen_end = Listening | Closed | System_error

fun listen_loop :: "accept_env list \<Rightarrow> int list \<times> listen_end" where
  "listen_loop [] = ([], Listening)"
| "listen_loop (a # as) =
     (if acc_stop a then ([], Closed)
      else if \<not> acc_listen a then ([], System_error)
      else if acc_fd a = -1 then ([], System_error)
      else (let (fds, e) = listen_loop as in (acc_fd a # fds, e)))"

section \<open>The main program\<close>

definition EAGAIN :: int where "EAGAIN = 11"
definition EACCES :: int where "EACCES = 13"

text \<open>
  \<^verbatim>\<open>another_instance\<close>: the descriptor \<^verbatim>\<open>open\<close> returns and the error of \<^verbatim>\<open>fcntl\<close>, if it fails.
\<close>

definition another_instance :: "int \<Rightarrow> int option \<Rightarrow> bool" where
  "another_instance fd lock_errno \<longleftrightarrow>
     fd = -1 \<or> (case lock_errno of None \<Rightarrow> False | Some e \<Rightarrow> e = EACCES \<or> e = EAGAIN)"

record main_env =
  me_lock_fd :: int
  me_lock_errno :: "int option"
  me_daemon :: "int option"       \<comment> \<open>the error of \<^verbatim>\<open>daemon\<close>, if it fails\<close>
  me_db_opens :: bool
  me_cli :: "(int \<times> bool) list option list"
  me_api :: "(int \<times> bool) list option list"
  me_rounds :: "(time_t \<times> (bgp \<Rightarrow> bgp)) list"

text \<open>
  \<^verbatim>\<open>init_BGP\<close>: both sockets, then the loop of the main thread. \<open>None\<close> is that it has not
  returned when the answers of the system are used up.
\<close>

definition init_BGP :: "main_env \<Rightarrow> u16 \<Rightarrow> bgp result option" where
  "init_BGP env as =
     (case listen_retry (me_cli env) of
        None \<Rightarrow> None
      | Some _ \<Rightarrow>
          (case listen_retry (me_api env) of
             None \<Rightarrow> None
           | Some _ \<Rightarrow> main_loop (me_rounds env) (new_bgp (me_db_opens env) as)))"

text \<open>\<^verbatim>\<open>main\<close>: the value it returns, and the instance it ran.\<close>

definition main_program :: "main_env \<Rightarrow> string list \<Rightarrow> (int \<times> bgp option) result option" where
  "main_program env argv =
     (if length argv < 2 then Some (Inr (-1, None))
      else if another_instance (me_lock_fd env) (me_lock_errno env) then Some (Inr (-179, None))
      else
        (case me_daemon env of
           Some e \<Rightarrow> Some (Inr (e, None))
         | None \<Rightarrow>
             (let as = word_of_int (atoi (argv ! 1)) :: u16
              in if as = 0 then Some (Inr (0, None))
                 else map_option (\<lambda>r. rbind r (\<lambda>s. Inr (0, Some s))) (init_BGP env as))))"

section \<open>What it does\<close>

text \<open>
  The connections that are served are those accepted before the instance stops or a system call
  fails, each once and in order; one failing \<^verbatim>\<open>accept\<close> is enough to end the program.
\<close>

definition accepts :: "accept_env \<Rightarrow> bool" where
  "accepts a \<longleftrightarrow> \<not> acc_stop a \<and> acc_listen a \<and> acc_fd a \<noteq> -1"

lemma listen_loop_serves:
  "listen_loop as = (map acc_fd (takeWhile accepts as),
     case dropWhile accepts as of [] \<Rightarrow> Listening | a # _ \<Rightarrow> if acc_stop a then Closed else System_error)"
  by (induction as) (auto simp: accepts_def)

lemma listen_retry_Some:
  "listen_retry as = Some fd \<Longrightarrow> \<exists>addrs. Some addrs \<in> set as \<and> (fd, True) \<in> set addrs \<and> fd \<noteq> -1"
proof -
  have bound: "bind_loop addrs sock = (fd, True) \<Longrightarrow> (fd, True) \<in> set addrs \<and> fd \<noteq> -1" for addrs sock
    by (induction addrs sock rule: bind_loop.induct) (auto split: if_splits)
  show "listen_retry as = Some fd \<Longrightarrow> ?thesis"
    by (induction as) (fastforce simp: listen_for_def dest: bound split: option.splits prod.splits if_splits)+
qed

text \<open>
  C32: the AS number the program runs with. A number below \<open>2 ^ 31\<close> on the command line is reduced
  modulo \<open>2 ^ 16\<close>: the instance runs with the remainder, whatever the rest of the number was, and
  with a multiple of 65536, as with 0, the program returns 0 without having started anything.
\<close>

theorem main_program_AS:
  assumes "n < 2 ^ 31" and "me_lock_fd env \<noteq> -1" and "me_lock_errno env = None" and "me_daemon env = None"
  shows "main_program env [prog, show_nat n] =
    (if n mod 65536 = 0 then Some (Inr (0, None))
     else map_option (\<lambda>r. rbind r (\<lambda>s. Inr (0, Some s))) (init_BGP env (of_nat (n mod 65536))))"
proof -
  have w: "word_of_int (atoi (show_nat n)) = (of_nat (n mod 65536) :: u16)"
    by (simp add: atoi_show_nat [OF assms(1)] word_of_nat_eq_iff take_bit_eq_mod)
  have "(of_nat (n mod 65536) :: u16) = 0 \<longleftrightarrow> n mod 65536 = 0"
    by (simp add: word_of_nat_eq_0_iff dvd_eq_mod_eq_0)
  with assms w show ?thesis by (simp add: main_program_def another_instance_def)
qed

definition plain_main :: main_env where
  "plain_main = \<lparr>me_lock_fd = 3, me_lock_errno = None, me_daemon = None, me_db_opens = True,
     me_cli = [Some [(4, True)]], me_api = [Some [(5, True)]],
     me_rounds = [(0, \<lambda>s. s\<lparr>stop_and_exit_instance := True\<rparr>)]\<rparr>"

theorem main_program_AS_witness:
  "main_program plain_main [''bgpd'', show_nat 131072] = Some (Inr (0, None))
   \<and> main_program plain_main [''bgpd'', show_nat 65537] =
       map_option (\<lambda>r. rbind r (\<lambda>s. Inr (0, Some s))) (init_BGP plain_main 1)"
  using main_program_AS [of 131072 plain_main "''bgpd''"] main_program_AS [of 65537 plain_main "''bgpd''"]
  by (simp add: plain_main_def)

end
