(* ===== verification/First_Session.thy ===== *)
theory First_Session
  imports Bgp_Threads
begin

text \<open>
  A session from its very start: a neighbour is configured, its thread connects, the OPEN and
  KEEPALIVE messages are exchanged, and an UPDATE arrives. Everything the neighbour sends is on the
  connection from the beginning; the theorem follows it through each of the steps into the RIB.
\<close>

section \<open>Connecting\<close>

text \<open>
  The system accepts the connection: one of the addresses answers, the streams open, the buffer
  sizes are set, and \<open>data\<close> is what the neighbour sends.
\<close>

definition accepts :: "attempt \<Rightarrow> bytes \<Rightarrow> bool" where
  "accepts a data \<longleftrightarrow>
     (case env_addrs (at_connect a) of
        None \<Rightarrow> False
      | Some addrs \<Rightarrow> snd (connect_loop addrs 0) \<and> 0 < fst (connect_loop addrs 0))
     \<and> env_fdopen_tx (at_connect a) \<and> env_fdopen_rx (at_connect a) \<and> env_data (at_connect a) = data
     \<and> at_rx_buf a \<and> at_tx_buf a \<and> at_rx_sock a \<and> at_tx_sock a"

lemma attempt_accepted:
  assumes "accepts a data" and "tcp_socket p = 0"
  obtains p' where "connect_attempt a p = Inr p'" and "ready p'" and "pending p' = data" and "state p' = Connect"
    and "sent p' = sent p" and "p_AS p' = p_AS p" and "p_bgp_id p' = p_bgp_id p" and "in_queue p' = in_queue p"
    and "p_version p' = p_version p"
proof -
  from assms(1) obtain addrs sock where a: "env_addrs (at_connect a) = Some addrs"
    "connect_loop addrs 0 = (sock, True)" "0 < sock"
    by (auto simp: accepts_def split: option.splits prod.splits) (metis prod.collapse)
  then have "addrs \<noteq> []" by auto
  with a assms have "connect_attempt a p = Inr (p\<lparr>state := Connect, tcp_socket := sock, tx := Some [],
      rx := Some \<lparr>rx_data = data, rx_eof = False\<rparr>\<rparr>)"
    by (simp add: accepts_def connect_attempt_def connect_def Let_def guard_def drop_to_idle_def
        set_bgp_rx_buffer_size_def set_bgp_tx_buffer_size_def set_tcp_rx_buffer_size_def set_tcp_tx_buffer_size_def)
  then show thesis
    by (rule that) (use a in \<open>simp_all add: ready_def connected_def pending_def\<close>)
qed

section \<open>Receiving\<close>

lemma after_frame_peer:
  "ready p \<Longrightarrow> ready (after_frame now rest p)" "pending (after_frame now rest p) = rest"
  "sent (after_frame now rest p) = sent p" "state (after_frame now rest p) = state p"
  "p_AS (after_frame now rest p) = p_AS p" "p_bgp_id (after_frame now rest p) = p_bgp_id p"
  "p_hold_time (after_frame now rest p) = p_hold_time p" "in_queue (after_frame now rest p) = in_queue p"
  by (auto simp: after_frame_def ready_def connected_def pending_def split: option.splits)

lemma recv_open:
  assumes "ready p" and "pending p = frame 1 (open_payload (my_version b) (p_AS p) hold bid) @ rest"
  obtains p' where "established_step b now junk p = Inr (p', [])" and "ready p'" and "pending p' = rest"
    and "state p' = Openconfirm" and "sent p' = sent p @ frame 4 []" and "p_bgp_id p' = bid"
    and "unat (p_hold_time p') = unat hold div 256 + unat hold mod 256" and "in_queue p' = in_queue p"
proof -
  let ?p0 = "(after_frame now rest p)\<lparr>opens := count_rx now (opens (after_frame now rest p))\<rparr>"
  let ?sum = "ucast (ucast hold :: u8) + ucast (ucast (drop_bit 8 hold) :: u8) :: u16"
  let ?p1 = "?p0\<lparr>p_version := word_of_le (my_version b # drop 1 (le_bytes 2 (p_version ?p0))), p_AS := p_AS p,
     p_bgp_id := bid, p_b_ip := inet_ntoa bid, p_hold_time := ?sum,
     keep_alive := ?sum div 3, opt_param_len := 0, state := Openconfirm\<rparr>"
  let ?p2 = "snd (send_packet now ?p1 [] Msg_keepalive)"
  have c: "connected p" using assms(1) by (simp add: ready_def)
  have "length (open_payload (my_version b) (p_AS p) hold bid) \<le> 65516" by (simp add: open_payload_def)
  then have "established_step b now junk p = Inr (?p2, [])"
    by (simp add: established_step_frame [OF c assms(2)] handle_message_def msg_type_of_def decode_open_payload
        after_frame_peer)
  moreover have ready: "ready ?p1"
    using after_frame_peer(1) [OF assms(1), of now rest] by (simp add: ready_def connected_def split: option.splits)
  moreover have "pending ?p2 = rest" by (simp add: pending_def after_frame_def)
  ultimately show thesis
    using send_packet_sent [OF ready, of Msg_keepalive now "[]"] hold_sum [of hold]
    by (intro that [of ?p2]) (simp_all add: after_frame_peer)
qed

lemma recv_keepalive:
  assumes "ready p" and "pending p = frame 4 [] @ rest" and "state p = Openconfirm"
  obtains p' where "established_step b now junk p = Inr (p', [Adjchange (p_ip p) ''Up''])" and "ready p'"
    and "pending p' = rest" and "state p' = Established" and "sent p' = sent p @ frame 4 []"
    and "p_bgp_id p' = p_bgp_id p" and "p_hold_time p' = p_hold_time p" and "in_queue p' = in_queue p"
proof -
  let ?p0 = "after_frame now rest p"
  let ?p1 = "?p0\<lparr>keepaliv := count_rx now (keepaliv ?p0), state := Established, up_since := now\<rparr>"
  let ?p2 = "snd (send_packet now ?p1 [] Msg_keepalive)"
  have c: "connected p" using assms(1) by (simp add: ready_def)
  have "p_ip ?p0 = p_ip p" by (simp add: after_frame_def)
  then have "established_step b now junk p = Inr (?p2, [Adjchange (p_ip p) ''Up''])"
    using assms(3) by (subst established_step_frame [OF c assms(2)])
      (simp_all add: handle_message_def msg_type_of_def after_frame_peer Let_def)
  moreover have ready: "ready ?p1"
    using after_frame_peer(1) [OF assms(1), of now rest] by (simp add: ready_def connected_def split: option.splits)
  moreover have "pending ?p2 = rest" by (simp add: pending_def after_frame_def)
  ultimately show thesis
    using send_packet_sent [OF ready, of Msg_keepalive now "[]"]
    by (intro that [of ?p2]) (simp_all add: after_frame_peer)
qed

section \<open>The whole session\<close>

text \<open>A reachable state with this one neighbour and nothing in the RIB or its queues.\<close>

definition lone :: "bool \<Rightarrow> u16 \<Rightarrow> bgp \<Rightarrow> bgp_peer \<Rightarrow> bool" where
  "lone ok as s p \<longleftrightarrow> thread_q s = [p] \<and> adj_rib_in s = [] \<and> adj_rib_in_q s = [] \<and> adj_rib_in_wdraw_q s = []
     \<and> \<not> dumper_on_off s \<and> \<not> stop_and_exit_instance s \<and> my_version s = 4 \<and> my_AS s = as \<and> my_hold_time s = 180
     \<and> my_bgp_id s = 0 \<and> bgp_run (new_bgp ok as) s"

lemma lone_start: "lone ok as (neighbor_start bip params (new_bgp ok as)) (copy_peer bip params)"
  unfolding lone_def by (intro conjI run_neighbor) (simp_all add: neighbor_start_def start_peer_def new_bgp_def)

lemma lone_step:
  assumes "lone ok as s p" and "bgp_step s s'" and "s' = add_log ls (set_peer 0 p' s)"
    and "state p' \<in> {Openconfirm, Established} \<longrightarrow> p_bgp_id p' \<noteq> 0"
  shows "lone ok as s' p'"
proof -
  have "router_ids s s'" using assms(1,3,4) by (simp add: lone_def router_ids_def ids_unique_def)
  with assms(1,2) have "bgp_run (new_bgp ok as) s'" by (auto simp: lone_def intro: run_step)
  moreover have "dumper_on_off s' = dumper_on_off s" "stop_and_exit_instance s' = stop_and_exit_instance s"
    "my_version s' = my_version s" "my_AS s' = my_AS s" "my_hold_time s' = my_hold_time s" "my_bgp_id s' = my_bgp_id s"
    using assms(3) by (simp_all add: set_peer_def add_log_def)
  ultimately show ?thesis using assms(1,3) by (simp add: lone_def)
qed

lemma set_peer_log: "set_peer k p s = add_log [] (set_peer k p s)"
  by (simp add: add_log_def)

lemma lone_recv:
  assumes "lone ok as s p" and "ready p" and "state p \<noteq> Idle" and "established_step s now junk p = Inr (p', ls)"
    and "state p' \<in> {Openconfirm, Established} \<longrightarrow> p_bgp_id p' \<noteq> 0"
  obtains s' where "session_recv now junk 0 s = Inr s'" and "lone ok as s' p'"
proof -
  have recv: "session_recv now junk 0 s = Inr (add_log ls (set_peer 0 p' s))"
    using assms(1,4) by (simp add: session_recv_def lone_def)
  have "bgp_step s (add_log ls (set_peer 0 p' s))"
    using assms(1-3) by (intro step_recv [OF _ _ recv]) (simp_all add: lone_def session_live_def ready_def)
  from that [OF recv lone_step [OF assms(1) this refl assms(5)]] show thesis .
qed

lemma lone_attempt:
  assumes "lone ok as s p" and "accepts a data" and "tcp_socket p = 0"
  obtains s' p' where "session_attempt a 0 s = Inr s'" and "lone ok as s' p'" and "ready p'" and "pending p' = data"
    and "state p' = Connect" and "sent p' = sent p" and "p_AS p' = p_AS p" and "in_queue p' = in_queue p"
proof -
  from assms(3) have "tcp_socket (p\<lparr>state := Idle\<rparr>) = 0" by simp
  from attempt_accepted [OF assms(2) this] obtain p' where
    p': "connect_attempt a (p\<lparr>state := Idle\<rparr>) = Inr p'" "ready p'" "pending p' = data" "state p' = Connect"
      "sent p' = sent p" "p_AS p' = p_AS p" "in_queue p' = in_queue p"
    by auto
  with assms(1) have att: "session_attempt a 0 s = Inr (set_peer 0 p' s)" by (simp add: session_attempt_def lone_def)
  have "bgp_step s (set_peer 0 p' s)" using assms(1) by (intro step_attempt [OF _ att]) (simp add: lone_def)
  from lone_step [OF assms(1) this set_peer_log] p' that [OF att] show thesis by simp
qed

lemma lone_open:
  assumes "lone ok as s p" and "ready p" and "state p \<noteq> Idle"
  obtains p' where "lone ok as (session_open now 0 s) p'" and "ready p'" and "pending p' = pending p"
    and "state p' = Opensent" and "sent p' = sent p @ frame 1 (open_payload 4 as 180 0)" and "p_AS p' = p_AS p"
    and "in_queue p' = in_queue p"
proof -
  let ?q = "snd (send_packet now p (open_payload 4 as 180 0) Msg_open)"
  let ?p' = "?q\<lparr>state := Opensent\<rparr>"
  have o: "session_open now 0 s = set_peer 0 ?p' s"
    using assms(1) by (simp add: session_open_def send_open_eq lone_def)
  have "bgp_step s (session_open now 0 s)" using assms(1) by (intro step_open) (simp add: lone_def)
  from lone_step [OF assms(1) this trans [OF o set_peer_log]] have l: "lone ok as (session_open now 0 s) ?p'" by simp
  note sent = send_packet_sent [OF assms(2,3), of Msg_open now "open_payload 4 as 180 0"]
  have "ready ?p'" using sent(2) by (simp add: ready_def connected_def split: option.splits)
  with sent show thesis by (intro that [OF l]) (simp_all add: pending_def)
qed

lemma lone_recv_update:
  assumes "lone ok as s p" and "ready p" and "state p = Established" and "pending p = frame 2 payload @ rest"
    and "length payload \<le> 4096" and "p_bgp_id p \<noteq> 0" and "session_recv now junk 0 s = Inr s'"
  shows "\<exists>p'. lone ok as s' p' \<and> state p' = Established \<and> p_bgp_id p' = p_bgp_id p
    \<and> in_queue p' = in_queue p @ [queued payload]"
proof -
  have q: "thread_q s = [p]" using assms(1) by (simp add: lone_def)
  then have "0 < length (thread_q s)" "connected (thread_q s ! 0)" "pending (thread_q s ! 0) = frame 2 payload @ rest"
    using assms(2,4) by (simp_all add: ready_def)
  from session_recv_update [OF this assms(5), of now junk] assms(7) q obtain p' where
    p': "s' = set_peer 0 p' s" "p_bgp_id p' = p_bgp_id p" "state p' = state p"
      "in_queue p' = in_queue p @ [queued payload]" by auto
  have "bgp_step s s'"
    using assms(1-3,7) by (intro step_recv [of 0 s now junk]) (simp_all add: lone_def session_live_def ready_def)
  from lone_step [OF assms(1) this trans [OF p'(1) set_peer_log]] p' assms(3,6) show ?thesis by auto
qed

text \<open>The session up to the point where it is established.\<close>

lemma lone_established:
  assumes "accepts a (frame 1 (open_payload 4 (p_AS params) hold bid) @ frame 4 [] @ rest)" and "bid \<noteq> 0"
  obtains s1 s2 s3 p where "session_attempt a 0 (neighbor_start bip params (new_bgp ok as)) = Inr s1"
    and "session_recv now junk 0 (session_open now 0 s1) = Inr s2" and "session_recv now junk 0 s2 = Inr s3"
    and "lone ok as s3 p" and "ready p" and "state p = Established" and "pending p = rest" and "p_bgp_id p = bid"
    and "in_queue p = []" and "unat (p_hold_time p) = unat hold div 256 + unat hold mod 256"
    and "sent p = frame 1 (open_payload 4 as 180 0) @ frame 4 [] @ frame 4 []"
proof -
  let ?s0 = "neighbor_start bip params (new_bgp ok as)" and ?p0 = "copy_peer bip params"
  have p0: "tcp_socket ?p0 = 0" "sent ?p0 = []" "p_AS ?p0 = p_AS params" "in_queue ?p0 = []"
    by (simp_all add: copy_peer_def new_peer_def bgp_peer.defs tcp_client.defs new_tcp_client_def)
  from lone_attempt [OF lone_start assms(1) p0(1)] p0 obtain s1 p1 where
    1: "session_attempt a 0 ?s0 = Inr s1" "lone ok as s1 p1" "ready p1" "state p1 \<noteq> Idle" "sent p1 = []"
      "p_AS p1 = p_AS params" "in_queue p1 = []"
      "pending p1 = frame 1 (open_payload 4 (p_AS params) hold bid) @ frame 4 [] @ rest"
    by (metis bgp_peer_state.distinct(1))
  from lone_open [OF 1(2-4), of now] obtain p2 where
    2: "lone ok as (session_open now 0 s1) p2" "ready p2" "pending p2 = pending p1" "state p2 = Opensent"
      "sent p2 = sent p1 @ frame 1 (open_payload 4 as 180 0)" "p_AS p2 = p_AS p1" "in_queue p2 = in_queue p1" .
  have v: "my_version (session_open now 0 s1) = 4" using 2(1) by (simp only: lone_def)
  have "pending p2 = frame 1 (open_payload (my_version (session_open now 0 s1)) (p_AS p2) hold bid) @ frame 4 [] @ rest"
    by (simp only: v 2(3,6) 1(6,8))
  from recv_open [OF 2(2) this, of now junk] obtain p3 where
    3: "established_step (session_open now 0 s1) now junk p2 = Inr (p3, [])" "ready p3" "pending p3 = frame 4 [] @ rest"
      "state p3 = Openconfirm" "sent p3 = sent p2 @ frame 4 []" "p_bgp_id p3 = bid"
      "unat (p_hold_time p3) = unat hold div 256 + unat hold mod 256" "in_queue p3 = in_queue p2" .
  from lone_recv [OF 2(1,2) _ 3(1)] 2(4) 3(6) assms(2) obtain s2 where
    s2: "session_recv now junk 0 (session_open now 0 s1) = Inr s2" "lone ok as s2 p3" by auto
  from recv_keepalive [OF 3(2-4), of s2 now junk] obtain p4 where
    4: "established_step s2 now junk p3 = Inr (p4, [Adjchange (p_ip p3) ''Up''])" "ready p4" "pending p4 = rest"
      "state p4 = Established" "sent p4 = sent p3 @ frame 4 []" "p_bgp_id p4 = p_bgp_id p3"
      "p_hold_time p4 = p_hold_time p3" "in_queue p4 = in_queue p3" .
  from lone_recv [OF s2(2) 3(2) _ 4(1)] 3(4,6) 4(6) assms(2) obtain s3 where
    s3: "session_recv now junk 0 s2 = Inr s3" "lone ok as s3 p4" by auto
  show thesis
    by (rule that [OF 1(1) s2(1) s3 4(2,4,3)])
      (simp_all only: 4(5-8) 3(5-8) 2(5,7) 1(5,7) append_Nil append_assoc)
qed

lemma first_session_run:
  assumes "accepts a (frame 1 (open_payload 4 (p_AS params) hold bid) @ frame 4 []
      @ frame 2 (update_message attrs ps) @ rest)"
    and "\<forall>fa \<in> set attrs. attr_ok (snd fa)" and "\<forall>lp \<in> set ps. prefix_ok lp"
    and "length (update_message attrs ps) \<le> 4096" and "bid \<noteq> 0"
    and "sint (later - now) < int (unat hold div 256 + unat hold mod 256)"
  shows "\<exists>s1 s2 s3 s4 s5. session_attempt a 0 (neighbor_start bip params (new_bgp ok as)) = Inr s1
    \<and> session_recv now junk 0 (session_open now 0 s1) = Inr s2
    \<and> session_recv now junk 0 s2 = Inr s3 \<and> session_recv now junk 0 s3 = Inr s4 \<and> main_pass later s4 = Inr s5
    \<and> map state (thread_q s3) = [Established]
    \<and> map sent (thread_q s3) = [frame 1 (open_payload 4 as 180 0) @ frame 4 [] @ frame 4 []]
    \<and> routes s5 = fold (\<lambda>lp r. r((snd lp, bid) \<mapsto>
        copy_update ((update_of attrs)\<lparr>nlri := nlri_of Nlri_update later bid lp\<rparr>))) ps Map.empty
    \<and> bgp_run (new_bgp ok as) s5"
proof -
  from assms(1) have "accepts a (frame 1 (open_payload 4 (p_AS params) hold bid) @ frame 4 [] @
      (frame 2 (update_message attrs ps) @ rest))" by simp
  from lone_established [OF this assms(5), of bip ok as now junk] obtain s1 s2 s3 p where
    up: "session_attempt a 0 (neighbor_start bip params (new_bgp ok as)) = Inr s1"
      "session_recv now junk 0 (session_open now 0 s1) = Inr s2" "session_recv now junk 0 s2 = Inr s3"
    and p: "lone ok as s3 p" "ready p" "state p = Established" "pending p = frame 2 (update_message attrs ps) @ rest"
      "p_bgp_id p = bid" "in_queue p = []" "unat (p_hold_time p) = unat hold div 256 + unat hold mod 256"
      "sent p = frame 1 (open_payload 4 as 180 0) @ frame 4 [] @ frame 4 []" .
  have l: "thread_q s3 = [p]" "adj_rib_in s3 = []" "adj_rib_in_q s3 = []" "adj_rib_in_wdraw_q s3 = []"
    "\<not> dumper_on_off s3" "bgp_run (new_bgp ok as) s3" "\<not> stop_and_exit_instance s3"
    using p(1) by (simp_all add: lone_def)
  have "connected p" "rib_inv (adj_rib_in s3)" "routes s3 = Map.empty"
    using p(2) l(2) by (simp_all add: ready_def rib_inv_def routes_def [abs_def])
  with l p assms obtain s4 s5 where
    s: "session_recv now junk 0 s3 = Inr s4" "main_pass later s4 = Inr s5"
      "routes s5 = fold (\<lambda>lp r. r((snd lp, bid) \<mapsto>
        copy_update ((update_of attrs)\<lparr>nlri := nlri_of Nlri_update later bid lp\<rparr>))) ps Map.empty"
    using update_enters_rib [of s3 0 attrs ps rest later now junk] by auto
  from lone_recv_update [OF p(1-4) assms(4) _ s(1)] p(5) assms(5) have "bgp_run (new_bgp ok as) s4"
    by (auto simp: lone_def)
  from bgp_run_trans [OF main_pass_run [OF core_inv_run [OF this core_inv_new] s(2)] this]
  have "bgp_run (new_bgp ok as) s5" .
  with up s l(1) p(3,8) show ?thesis by auto
qed

text \<open>
  C3: from the configuration of a neighbour to its routes. A fresh instance is given one neighbour;
  its thread connects, and the neighbour sends its OPEN, with the AS it is configured with, a
  KEEPALIVE, and an UPDATE. Then every step succeeds: our side answers with its OPEN and two
  KEEPALIVE, the session is established, and the next pass of the main thread, unless it comes
  after the hold time, leaves exactly the announced routes in the RIB. All this is a run of the
  step relation, when the neighbour has a router id.
\<close>

theorem first_session:
  assumes "accepts a (frame 1 (open_payload 4 (p_AS params) hold bid) @ frame 4 []
      @ frame 2 (update_message attrs ps) @ rest)"
    and "\<forall>fa \<in> set attrs. attr_ok (snd fa)" and "\<forall>lp \<in> set ps. prefix_ok lp"
    and "length (update_message attrs ps) \<le> 4096" and "bid \<noteq> 0"
    and "sint (later - now) < int (unat hold div 256 + unat hold mod 256)"
  shows "\<exists>s1 s2 s3 s4 s5. session_attempt a 0 (neighbor_start bip params (new_bgp ok as)) = Inr s1
    \<and> session_recv now junk 0 (session_open now 0 s1) = Inr s2
    \<and> session_recv now junk 0 s2 = Inr s3 \<and> session_recv now junk 0 s3 = Inr s4 \<and> main_pass later s4 = Inr s5
    \<and> map state (thread_q s3) = [Established]
    \<and> map sent (thread_q s3) = [frame 1 (open_payload 4 as 180 0) @ frame 4 [] @ frame 4 []]
    \<and> routes s5 = fold (\<lambda>lp r. r((snd lp, bid) \<mapsto>
        copy_update ((update_of attrs)\<lparr>nlri := nlri_of Nlri_update later bid lp\<rparr>))) ps Map.empty
    \<and> bgp_run (new_bgp ok as) s5"
  by (rule first_session_run) (rule assms)+

text \<open>An address that answers, for the witness.\<close>

definition sample_attempt :: "bytes \<Rightarrow> attempt" where
  "sample_attempt data = \<lparr>at_connect = \<lparr>env_addrs = Some [(3, False), (4, True)], env_fdopen_tx = True, env_fdopen_rx = True,
     env_data = data\<rparr>, at_rx_buf = True, at_tx_buf = True, at_rx_sock = True, at_tx_sock = True\<rparr>"

theorem first_session_witness:
  "\<exists>s. bgp_run (new_bgp True 1) s \<and> routes s = [(quad 192 0 2 0, 9) \<mapsto> copy_update ((update_of [(0x40, S_origin 2)])
         \<lparr>nlri := nlri_of Nlri_update 7 9 (24, quad 192 0 2 0)\<rparr>)]"
proof -
  let ?m = "update_message [(0x40, S_origin 2)] [(24, quad 192 0 2 0)]" and ?params = "(new_peer [] [])\<lparr>p_AS := 65001\<rparr>"
  let ?data = "frame 1 (open_payload 4 (p_AS ?params) 180 9) @ frame 4 [] @ frame 2 ?m @ []"
  have "accepts (sample_attempt ?data) ?data" by (simp only: accepts_def sample_attempt_def) simp
  moreover have "prefix_ok (24, quad 192 0 2 0)"
    by (simp add: prefix_ok_def quad_def nlri_byte_length_def eval_simps)
  moreover have "length ?m \<le> 4096"
    by (simp add: update_message_def attr_bytes_def prefix_bytes_def nlri_byte_length_def)
  ultimately show ?thesis
    using first_session [of "sample_attempt ?data" ?params 180 9 "[(0x40, S_origin 2)]" "[(24, quad 192 0 2 0)]" "[]" 7 5
        "[]" True 1 "[]"]
    by (auto simp: attr_ok_def)
qed

text \<open>The session of \<open>peer_established_ends\<close> in an instance whose one session is established.\<close>

theorem peer_established_ends_witness:
  "\<exists>s. map state (thread_q s) = [Established]
    \<and> ((\<exists>e. peer_established [(7, [])] 0 s = Some (Inl e))
      \<or> (\<exists>s'. peer_established [(7, [])] 0 s = Some (Inr s') \<and> \<not> connected (thread_q s' ! 0)))"
proof -
  let ?params = "(new_peer [] [])\<lparr>p_AS := 65001\<rparr>"
  let ?data = "frame 1 (open_payload 4 (p_AS ?params) 180 9) @ frame 4 [] @ []"
  have "accepts (sample_attempt ?data) ?data" by (simp only: accepts_def sample_attempt_def) simp
  moreover have "(9 :: u32) \<noteq> 0" by simp
  ultimately obtain s p where p: "lone True 1 s p" "state p = Established" "pending p = []"
    by (rule lone_established [where ok = True and as = 1 and bip = "[]" and now = 0 and junk = "[]"]) (rule that)
  then have s: "bgp_run (new_bgp True 1) s" "0 < length (thread_q s)"
      "length (pending (thread_q s ! 0)) div 19 < length [(7 :: time_t, [] :: bytes)]" "map state (thread_q s) = [Established]"
    by (simp_all add: lone_def)
  from peer_established_ends [OF s(1-3)] s(4) show ?thesis by (intro exI [of _ s]) auto
qed

text \<open>A reachable state with a route, and one with an update that waits to be inserted.\<close>

abbreviation (input) sample_message :: bytes where
  "sample_message \<equiv> update_message [(0x40, S_origin 2)] [(24, quad 192 0 2 0)]"

lemma sample_message_ok: "prefix_ok (24, quad 192 0 2 0)" "length sample_message \<le> 4096" "attr_ok (S_origin 2)"
  by (simp_all add: prefix_ok_def quad_def nlri_byte_length_def eval_simps update_message_def attr_bytes_def
      prefix_bytes_def attr_ok_def)

lemma sample_accepts: "accepts (sample_attempt data) data"
  by (simp add: accepts_def sample_attempt_def)

lemma run_with_route:
  obtains s u where "bgp_run (new_bgp True 1) s" and "routes s (quad 192 0 2 0, 9) = Some u"
proof -
  let ?params = "(new_peer [] [])\<lparr>p_AS := 65001\<rparr>"
  from first_session_run [OF sample_accepts [of "frame 1 (open_payload 4 (p_AS ?params) 180 9) @ frame 4 [] @
      frame 2 sample_message @ []"], of 7 5 "[]" True 1 "[]"] sample_message_ok
  obtain s where run: "bgp_run (new_bgp True 1) s" and "routes s = [(quad 192 0 2 0, 9) \<mapsto> copy_update ((update_of [(0x40, S_origin 2)])
         \<lparr>nlri := nlri_of Nlri_update 7 9 (24, quad 192 0 2 0)\<rparr>)]" by auto
  then have "\<exists>u. routes s (quad 192 0 2 0, 9) = Some u" by simp
  with run that show thesis by blast
qed

theorem reachable_counts_witness:
  "\<exists>s p. bgp_run (new_bgp True 1) s \<and> routes s (quad 192 0 2 0, 9) \<noteq> None \<and> p \<in> set (thread_q s)
    \<and> p_bgp_id p = 9 \<and> current_rx p = of_nat (rib_count 9 (adj_rib_in s)) \<and> 0 < rib_count 9 (adj_rib_in s)"
proof -
  obtain s u where run: "bgp_run (new_bgp True 1) s" and u: "routes s (quad 192 0 2 0, 9) = Some u" by (rule run_with_route)
  note inv = reachable_counts [OF run]
  then have "((quad 192 0 2 0, 9), u) \<in> set (adj_rib_in s)"
    using u rib.find_iff_mem [OF rib_inv_sorted] by (simp add: routes_def)
  then have "\<exists>x \<in> set (adj_rib_in s). snd (fst x) = 9" by force
  moreover from this inv obtain p where "p \<in> set (thread_q s)" "p_bgp_id p = 9" by auto
  ultimately show ?thesis
    using run u inv by (intro exI [of _ s] exI [of _ p]) (auto simp: rib_count_def filter_empty_conv)
qed

lemma lone_in_q:
  assumes "lone ok as s p" and "state p = Established" and "in_queue p = [q]" and "p_bgp_id p \<noteq> 0"
    and "proc_packet now (p_bgp_id p) q = Inr ([u], [])"
  shows "\<exists>t. bgp_run (new_bgp ok as) t \<and> \<not> dumper_on_off t \<and> adj_rib_in_q t = [u]"
proof -
  let ?p = "p\<lparr>in_queue := [], in_q := in_q p - 1\<rparr>"
  let ?t = "(set_peer 0 ?p s)\<lparr>adj_rib_in_q := [u], adj_rib_in_wdraw_q := []\<rparr>"
  have q: "thread_q s = [p]" "adj_rib_in_q s = []" "adj_rib_in_wdraw_q s = []" "adj_rib_in s = []" "\<not> dumper_on_off s"
    "bgp_run (new_bgp ok as) s"
    using assms(1) by (simp_all add: lone_def)
  have t: "in_q_pop now 0 q s = Inr ?t" using q assms(3,5) by (simp add: in_q_pop_def Let_def)
  have "bgp_step s ?t" using q assms(2,3) by (intro step_in_q [OF _ _ _ t]) simp_all
  moreover have "router_ids s ?t" using q(1,4) assms(4) by (simp add: router_ids_def ids_unique_def)
  ultimately have "bgp_run (new_bgp ok as) ?t" by (rule run_step [OF q(6)])
  moreover have "\<not> dumper_on_off ?t" using q(5) by (simp add: set_peer_def)
  ultimately show ?thesis by (intro exI [of _ ?t]) simp
qed

lemma run_with_update:
  obtains s u where "bgp_run (new_bgp True 1) s" and "\<not> dumper_on_off s" and "adj_rib_in_q s = [u]"
proof -
  let ?params = "(new_peer [] [])\<lparr>p_AS := 65001\<rparr>"
  have nine: "(9 :: u32) \<noteq> 0" by simp
  obtain s p where p: "lone True 1 s p" "ready p" "state p = Established" "pending p = frame 2 sample_message @ []"
    "p_bgp_id p = 9" "in_queue p = []"
    by (rule lone_established [OF sample_accepts nine, of ?params 180 "frame 2 sample_message @ []" "[]" True 1 0 "[]"]) (rule that)
  then have q: "thread_q s = [p]" by (simp add: lone_def)
  obtain x where x: "session_recv 0 [] 0 s = Inr (set_peer 0 x s)"
    by (rule session_recv_update [of 0 s sample_message "[]" 0 "[]"]) (use p q sample_message_ok that in \<open>simp_all add: ready_def\<close>)
  from lone_recv_update [OF p(1-4) sample_message_ok(2) _ x] p(5,6) obtain s' p' where
    p': "lone True 1 s' p'" "state p' = Established" "p_bgp_id p' = 9" "in_queue p' = [queued sample_message]" by auto
  have "\<forall>fa \<in> set [(0x40 :: u8, S_origin 2)]. attr_ok (snd fa)" "\<forall>lp \<in> set [(24, quad 192 0 2 0)]. prefix_ok lp"
    using sample_message_ok(1,3) by auto
  from announcement_parsed [OF this sample_message_ok(2), of 0 9] obtain u where
    u: "proc_packet 0 (p_bgp_id p') (queued sample_message) = Inr ([u], [])" by (simp only: list.map p'(3))
  from lone_in_q [OF p'(1,2,4) _ u] p'(3) that show thesis by auto
qed


end
