(* ===== verification/Lock_Order.thy ===== *)
theory Lock_Order
  imports Main
begin

text \<open>
  Threads that take and release mutexes. A thread is the locks it holds and the actions it still
  has to do; any thread whose next action is possible may go on. When every thread takes its
  locks in the order of a rank and gives all of them back, some thread can always go on until
  all are done.
\<close>

section \<open>Threads and locks\<close>

datatype 'l action = Acquire 'l | Release 'l

type_synonym 'l thread = "'l list \<times> 'l action list"

text \<open>
  \<^verbatim>\<open>while (!mutex.try_lock()) sleep;\<close> leaves its loop when no thread holds the mutex; a mutex is
  unlocked by the thread that holds it.
\<close>

inductive lock_step :: "'l thread list \<Rightarrow> 'l thread list \<Rightarrow> bool" where
  step_acquire: "i < length c \<Longrightarrow> c ! i = (hs, Acquire l # as) \<Longrightarrow> \<forall>t \<in> set c. l \<notin> set (fst t) \<Longrightarrow>
    lock_step c (c[i := (l # hs, as)])"
| step_release: "i < length c \<Longrightarrow> c ! i = (hs, Release l # as) \<Longrightarrow> l \<in> set hs \<Longrightarrow>
    lock_step c (c[i := (remove1 l hs, as)])"

definition finished :: "'l thread list \<Rightarrow> bool" where
  "finished c \<longleftrightarrow> (\<forall>t \<in> set c. t = ([], []))"

definition todo :: "'l thread list \<Rightarrow> nat" where
  "todo c = sum_list (map (length \<circ> snd) c)"

text \<open>No lock is held twice, by one thread or by two.\<close>

definition exclusive :: "'l thread list \<Rightarrow> bool" where
  "exclusive c \<longleftrightarrow> (\<forall>i < length c. distinct (fst (c ! i)))
     \<and> (\<forall>i < length c. \<forall>j < length c. i \<noteq> j \<longrightarrow> set (fst (c ! i)) \<inter> set (fst (c ! j)) = {})"

text \<open>
  A path that, holding \<open>hs\<close>, takes only locks above those it holds, releases what it holds, and
  ends with none.
\<close>

fun ordered :: "('l \<Rightarrow> nat) \<Rightarrow> 'l list \<Rightarrow> 'l action list \<Rightarrow> bool" where
  "ordered rank hs [] \<longleftrightarrow> hs = []"
| "ordered rank hs (Acquire l # as) \<longleftrightarrow> (\<forall>h \<in> set hs. rank h < rank l) \<and> ordered rank (l # hs) as"
| "ordered rank hs (Release l # as) \<longleftrightarrow> l \<in> set hs \<and> ordered rank (remove1 l hs) as"

lemma ordered_append: "ordered rank hs as \<Longrightarrow> ordered rank [] bs \<Longrightarrow> ordered rank hs (as @ bs)"
  by (induction rank hs as rule: ordered.induct) auto

lemma ordered_concat: "\<forall>p \<in> set ps. ordered rank [] p \<Longrightarrow> ordered rank [] (concat ps)"
  by (induction ps) (auto intro: ordered_append)

lemma todo_update: "i < length c \<Longrightarrow> todo (c[i := t]) + length (snd (c ! i)) = todo c + length (snd t)"
  using elem_le_sum_list [of i "map (length \<circ> snd) c"] by (simp add: todo_def map_update sum_list_update)

lemma todo_step: "lock_step c c' \<Longrightarrow> todo c = Suc (todo c')"
proof (induction rule: lock_step.induct)
  case (step_acquire i c hs l as)
  then show ?case using todo_update [of i c "(l # hs, as)"] by simp
next
  case (step_release i c hs l as)
  then show ?case using todo_update [of i c "(remove1 l hs, as)"] by simp
qed

lemma exclusive_update:
  assumes "exclusive c" and "i < length c" and "distinct hs"
    and "\<And>j. j < length c \<Longrightarrow> j \<noteq> i \<Longrightarrow> set hs \<inter> set (fst (c ! j)) = {}"
  shows "exclusive (c[i := (hs, as)])"
proof -
  have "set (fst (c[i := (hs, as)] ! j)) \<inter> set (fst (c[i := (hs, as)] ! k)) = {}"
    if "j < length c" "k < length c" "j \<noteq> k" for j k
    using that assms(1,2) assms(4) [of j] assms(4) [of k]
    by (cases "j = i"; cases "k = i") (auto simp: exclusive_def)
  with assms(1-3) show ?thesis by (simp add: exclusive_def nth_list_update)
qed

section \<open>The discipline\<close>

locale lock_discipline =
  fixes rank :: "'l \<Rightarrow> nat" and path :: "'l action list \<Rightarrow> bool"
  assumes path_ordered: "path p \<Longrightarrow> ordered rank [] p"
begin

definition disciplined :: "'l thread list \<Rightarrow> bool" where
  "disciplined c \<longleftrightarrow> (\<forall>t \<in> set c. ordered rank (fst t) (snd t)) \<and> exclusive c"

lemma disciplined_start: "\<forall>ps \<in> set pss. \<forall>p \<in> set ps. path p \<Longrightarrow> disciplined (map (\<lambda>ps. ([], concat ps)) pss)"
  using path_ordered by (auto simp: disciplined_def exclusive_def intro: ordered_concat)

lemma disciplined_thread:
  assumes "disciplined c" and "i < length c" and "c ! i = (hs, as)"
  shows "ordered rank hs as" and "distinct hs" and "exclusive c"
    and "j < length c \<Longrightarrow> j \<noteq> i \<Longrightarrow> set hs \<inter> set (fst (c ! j)) = {}"
proof -
  show ex: "exclusive c" using assms(1) by (simp add: disciplined_def)
  have "c ! i \<in> set c" using assms(2) by simp
  with assms(1) have "ordered rank (fst (c ! i)) (snd (c ! i))" unfolding disciplined_def by blast
  with assms(3) show "ordered rank hs as" by simp
  from ex assms(2) have "distinct (fst (c ! i))" unfolding exclusive_def by blast
  with assms(3) show "distinct hs" by simp
  assume "j < length c" "j \<noteq> i"
  with ex assms(2) have "set (fst (c ! i)) \<inter> set (fst (c ! j)) = {}" unfolding exclusive_def by metis
  with assms(3) show "set hs \<inter> set (fst (c ! j)) = {}" by simp
qed

lemma disciplined_update:
  assumes "disciplined c" and "ordered rank hs as" and "exclusive (c[i := (hs, as)])"
  shows "disciplined (c[i := (hs, as)])"
  using assms set_update_subset_insert [of c i "(hs, as)"] by (auto simp: disciplined_def)

lemma disciplined_step: "lock_step c c' \<Longrightarrow> disciplined c \<Longrightarrow> disciplined c'"
proof (induction rule: lock_step.induct)
  case (step_acquire i c hs l as)
  note t = disciplined_thread [OF step_acquire.prems step_acquire.hyps(1,2)]
  have new: "l \<notin> set (fst (c ! j))" if "j < length c" for j using step_acquire.hyps(3) that by simp
  with t(2,4) new [OF step_acquire.hyps(1)] step_acquire.hyps(1,2) have "exclusive (c[i := (l # hs, as)])"
    by (intro exclusive_update [OF t(3)]) auto
  with t(1) step_acquire.prems show ?case by (intro disciplined_update) auto
next
  case (step_release i c hs l as)
  note t = disciplined_thread [OF step_release.prems step_release.hyps(1,2)]
  have "set (remove1 l hs) \<inter> set (fst (c ! j)) = {}" if "j < length c" "j \<noteq> i" for j
    using t(4) [OF that] set_remove1_subset [of l hs] by blast
  with t(2) step_release.hyps(1) have "exclusive (c[i := (remove1 l hs, as)])"
    by (intro exclusive_update [OF t(3)]) auto
  with t(1) step_release.prems show ?case by (intro disciplined_update) auto
qed

text \<open>Among the waiting threads, the one that waits for the highest lock waits for nobody.\<close>

lemma disciplined_progress:
  assumes "disciplined c" and "\<not> finished c"
  shows "\<exists>c'. lock_step c c'"
proof (rule ccontr)
  assume stuck: "\<nexists>c'. lock_step c c'"
  let ?W = "{i. i < length c \<and> snd (c ! i) \<noteq> []}"
  have ord: "ordered rank (fst (c ! i)) (snd (c ! i))" if "i < length c" for i
    using assms(1) that by (simp add: disciplined_def)
  have waits: "\<exists>l as j. snd (c ! i) = Acquire l # as \<and> j \<in> ?W \<and> l \<in> set (fst (c ! j))" if "i \<in> ?W" for i
  proof -
    from that obtain a as where a: "snd (c ! i) = a # as" "i < length c" by (cases "snd (c ! i)") auto
    then have ci: "c ! i = (fst (c ! i), a # as)" by (metis prod.collapse)
    obtain l where l: "a = Acquire l"
    proof (cases a)
      case (Release l)
      with ord [OF a(2)] a have "l \<in> set (fst (c ! i))" by simp
      with step_release [OF a(2) ci [unfolded Release]] stuck show thesis by blast
    qed (rule that)
    with stuck step_acquire [OF a(2)] ci obtain t where "t \<in> set c" "l \<in> set (fst t)" by metis
    then obtain j where j: "j < length c" "l \<in> set (fst (c ! j))" by (auto simp: in_set_conv_nth)
    then have "snd (c ! j) \<noteq> []" using ord [OF j(1)] by (cases "snd (c ! j)") auto
    with j a l show ?thesis by auto
  qed
  define want where "want i = (case snd (c ! i) of Acquire l # _ \<Rightarrow> rank l | _ \<Rightarrow> 0)" for i
  have "?W \<noteq> {}"
  proof -
    from assms(2) obtain i where i: "i < length c" "c ! i \<noteq> ([], [])"
      unfolding finished_def by (metis in_set_conv_nth)
    with ord [OF i(1)] have "snd (c ! i) \<noteq> []" by (cases "c ! i") auto
    with i(1) show ?thesis by auto
  qed
  then obtain i where "i \<in> ?W" "want i = Max (want ` ?W)"
    using Max_in [of "want ` ?W"] by fastforce
  then have i: "i \<in> ?W" "\<forall>j \<in> ?W. want j \<le> want i" by simp_all
  from waits [OF i(1)] obtain l as j where l: "snd (c ! i) = Acquire l # as" "j \<in> ?W" "l \<in> set (fst (c ! j))" by auto
  from waits [OF l(2)] obtain l' as' where "snd (c ! j) = Acquire l' # as'" by auto
  with ord [of j] l have "want i < want j" by (auto simp: want_def)
  with i(2) l(2) show False by (meson leD)
qed

lemma disciplined_steps: "lock_step\<^sup>*\<^sup>* c c' \<Longrightarrow> disciplined c \<Longrightarrow> disciplined c'"
  by (induction rule: rtranclp_induct) (auto intro: disciplined_step)

text \<open>So from every state that is reached all threads can finish, and no run is longer than the actions.\<close>

lemma disciplined_finish: "disciplined c \<Longrightarrow> \<exists>c'. lock_step\<^sup>*\<^sup>* c c' \<and> finished c'"
proof (induction "todo c" arbitrary: c rule: less_induct)
  case less
  show ?case
  proof (cases "finished c")
    case False
    with disciplined_progress [OF less.prems] obtain d where d: "lock_step c d" by blast
    with less.hyps [of d] disciplined_step [OF d less.prems] todo_step [OF d] obtain c' where
      "lock_step\<^sup>*\<^sup>* d c'" "finished c'" by auto
    with d show ?thesis by (meson converse_rtranclp_into_rtranclp)
  qed auto
qed

end

end
