(* ===== verification/Bgp_Locks.thy ===== *)
theory Bgp_Locks
  imports Bgp_Threads Lock_Order
begin

text \<open>
  The mutexes of the program. Every operation that takes one is given by the locks it takes and
  releases, on each of its branches; any number of threads that run any operations in any order
  never lock each other out, and no mutex has two owners. What the mutexes do not protect is the
  order of the pieces of a message, which two threads of a session can mix up.
\<close>

section \<open>The mutexes\<close>

text \<open>Those of a neighbour, its connection included, are numbered by its place in the table.\<close>

datatype bgp_lock =
    L_bgp                \<comment> \<open>\<^verbatim>\<open>bgp_mutex\<close>\<close>
  | L_adj_rib_in         \<comment> \<open>\<^verbatim>\<open>adj_rib_in_mutex\<close>\<close>
  | L_adj_rib_in_q       \<comment> \<open>\<^verbatim>\<open>adj_rib_in_q_mutex\<close>\<close>
  | L_adj_rib_in_wdraw_q \<comment> \<open>\<^verbatim>\<open>adj_rib_in_wdraw_q_mutex\<close>\<close>
  | L_peer nat           \<comment> \<open>\<^verbatim>\<open>peer_mutex\<close>\<close>
  | L_in_queue nat       \<comment> \<open>\<^verbatim>\<open>in_queue_mutex\<close>\<close>
  | L_write nat          \<comment> \<open>\<^verbatim>\<open>write_mutex\<close>\<close>
  | L_db                 \<comment> \<open>\<^verbatim>\<open>db_mutex\<close>\<close>

type_synonym bgp_path = "bgp_lock action list"

definition critical :: "bgp_lock \<Rightarrow> bgp_path" where
  "critical l = [Acquire l, Release l]"

section \<open>Operations\<close>

text \<open>Each \<^verbatim>\<open>write\<close> to a connection that is up, and each flush, has a critical section of its own.\<close>

definition tcp_write_path :: "nat \<Rightarrow> bgp_peer \<Rightarrow> bgp_path" where
  "tcp_write_path k p = (if connected p then critical (L_write k) else [])"

definition tx_flush_path :: "nat \<Rightarrow> bgp_path" where
  "tx_flush_path k = critical (L_write k)"

definition send_packet_path :: "nat \<Rightarrow> bgp_peer \<Rightarrow> bgp_msg_type \<Rightarrow> bgp_path" where
  "send_packet_path k p ty =
     (if state p = Idle \<or> ty = Msg_update then []
      else tcp_write_path k p @ tcp_write_path k p @ tcp_write_path k p @ tcp_write_path k p @ tx_flush_path k)"

definition decode_open_path :: "'a bgp_params_scheme \<Rightarrow> nat \<Rightarrow> bgp_peer \<Rightarrow> u8 \<Rightarrow> u16 \<Rightarrow> bgp_path" where
  "decode_open_path b k p ver as =
     (if ver \<noteq> my_version b then send_packet_path k p Msg_notification
      else critical (L_peer k) @
        (if as \<noteq> p_AS p then send_packet_path k p Msg_notification
         else critical (L_peer k) @ critical (L_peer k) @ critical (L_peer k)
              @ send_packet_path k (p\<lparr>state := Openconfirm\<rparr>) Msg_keepalive))"

definition queue_update_path :: "nat \<Rightarrow> bgp_path" where
  "queue_update_path k = critical (L_in_queue k)"

text \<open>\<^verbatim>\<open>flush_peer\<close> until it finds nothing, then the queue; \<open>n\<close> is the number of routes.\<close>

definition session_down_path :: "nat \<Rightarrow> nat \<Rightarrow> bgp_path" where
  "session_down_path n k = concat (replicate (n + 1) (critical L_adj_rib_in)) @ critical (L_in_queue k)"

definition push_adj_rib_in_q_path :: bgp_path where
  "push_adj_rib_in_q_path = critical L_adj_rib_in_q"

definition push_adj_rib_in_wdraw_q_path :: bgp_path where
  "push_adj_rib_in_wdraw_q_path = critical L_adj_rib_in_wdraw_q"

text \<open>A message is taken off the queue, and each update it gives is pushed.\<close>

definition in_q_pop_path :: "nat \<Rightarrow> bgp_update list \<Rightarrow> bgp_update list \<Rightarrow> bgp_path" where
  "in_q_pop_path k us ws = critical (L_in_queue k)
     @ concat (replicate (length us) push_adj_rib_in_q_path)
     @ concat (replicate (length ws) push_adj_rib_in_wdraw_q_path)"

definition db_insert_path :: "bgp_database \<Rightarrow> bgp_path" where
  "db_insert_path db = (if fs_open (dbase db) then critical L_db else [])"

definition peer_entry_path :: "bgp_update \<Rightarrow> bgp \<Rightarrow> bgp_path" where
  "peer_entry_path u s = Acquire L_adj_rib_in #
     (case get_peer_by_bgp_id (nlri_bgp_id (nlri u)) (thread_q s) of
        None \<Rightarrow> [Release L_adj_rib_in]
      | Some k \<Rightarrow>
          Acquire (L_peer k)
          # (if map_find rib_sort (rib_key u) (adj_rib_in s) \<noteq> None then db_insert_path (database s) else [])
          @ [Release (L_peer k), Release L_adj_rib_in])"

text \<open>Without a neighbour the lock of the null pointer is taken, and the RIB stays locked.\<close>

definition withdraw_path :: "bgp_update \<Rightarrow> bgp \<Rightarrow> bgp_path" where
  "withdraw_path u s = Acquire L_adj_rib_in #
     (if map_find rib_sort (rib_key u) (adj_rib_in s) = None then [Release L_adj_rib_in]
      else
        (case get_peer_by_bgp_id (nlri_bgp_id (nlri u)) (thread_q s) of
           None \<Rightarrow> []
         | Some k \<Rightarrow> [Acquire (L_peer k), Release (L_peer k), Release L_adj_rib_in]))"

definition rib_in_pop_path :: "bgp_update \<Rightarrow> bgp \<Rightarrow> bgp_path" where
  "rib_in_pop_path u s = peer_entry_path u s @ critical L_adj_rib_in_q"

definition rib_wdraw_pop_path :: "bgp_update \<Rightarrow> bgp \<Rightarrow> bgp_path" where
  "rib_wdraw_pop_path u s = withdraw_path u s @ critical L_adj_rib_in_wdraw_q"

text \<open>Queries of the command line and the API: the RIB, then for each match its history.\<close>

definition db_get_entries_path :: bgp_path where
  "db_get_entries_path = critical L_db"

definition rib_query_path :: "bool \<Rightarrow> nat \<Rightarrow> bgp_path" where
  "rib_query_path dump_history n = critical L_adj_rib_in @ (if dump_history then concat (replicate n db_get_entries_path) else [])"

definition set_translation_path :: "nat \<Rightarrow> bgp_path" where
  "set_translation_path k = critical (L_peer k)"

definition write_configs_path :: "bgp \<Rightarrow> bgp_path" where
  "write_configs_path s = concat (map (\<lambda>k. critical (L_peer k)) [0..<length (thread_q s)])"

definition set_id_path :: bgp_path where
  "set_id_path = critical L_bgp"

text \<open>What a thread does between two points where it holds nothing, as long as it is defined.\<close>

inductive code_path :: "bgp_path \<Rightarrow> bool" where
  path_send: "code_path (send_packet_path k p ty)"
| path_open: "code_path (decode_open_path (b :: bgp) k p ver as)"
| path_queue: "code_path (queue_update_path k)"
| path_down: "code_path (session_down_path n k)"
| path_in_q: "code_path (in_q_pop_path k us ws)"
| path_rib_in: "rib_in_pop now u s = Inr s' \<Longrightarrow> code_path (rib_in_pop_path u s)"
| path_rib_wdraw: "rib_wdraw_pop now u s = Inr s' \<Longrightarrow> code_path (rib_wdraw_pop_path u s)"
| path_query: "code_path (rib_query_path h n)"
| path_alias: "code_path (set_translation_path k)"
| path_write: "code_path (write_configs_path s)"
| path_id: "code_path set_id_path"

section \<open>No deadlock\<close>

text \<open>The RIB before a neighbour, a neighbour before the event database; the others alone.\<close>

fun lock_rank :: "bgp_lock \<Rightarrow> nat" where
  "lock_rank L_adj_rib_in = 0"
| "lock_rank (L_peer k) = 1"
| "lock_rank L_db = 2"
| "lock_rank l = 3"

abbreviation in_order :: "bgp_path \<Rightarrow> bool" where
  "in_order \<equiv> ordered lock_rank []"

lemma in_order_critical [simp]: "in_order (critical l)"
  by (simp add: critical_def)

lemma in_order_Nil [simp]: "in_order []"
  by simp

lemma in_order_replicate [simp]: "in_order (concat (replicate n (critical l)))"
  by (rule ordered_concat) simp

lemmas path_defs = tcp_write_path_def tx_flush_path_def send_packet_path_def decode_open_path_def
  queue_update_path_def session_down_path_def in_q_pop_path_def rib_query_path_def
  set_translation_path_def set_id_path_def push_adj_rib_in_q_path_def push_adj_rib_in_wdraw_q_path_def
  db_get_entries_path_def

lemma withdraw_in_order: "withdraw now u s = Inr s' \<Longrightarrow> in_order (withdraw_path u s)"
proof (cases "map_find rib_sort (rib_key u) (adj_rib_in s)")
  case (Some it)
  assume run: "withdraw now u s = Inr s'"
  with Some obtain s1 where s1: "dump_update now Nlri_withdraw it s = Inr s1"
    by (auto simp: withdraw_def rbind_eq_Inr)
  with run Some obtain k where "get_peer_by_bgp_id (nlri_bgp_id (nlri u)) (thread_q s) = Some k"
    by (auto simp: withdraw_def dump_update_sessions [OF s1] split: option.splits)
  with Some show ?thesis by (simp add: withdraw_path_def)
qed (simp add: withdraw_path_def)

lemma peer_entry_in_order: "in_order (peer_entry_path u s)"
  by (simp add: peer_entry_path_def db_insert_path_def critical_def split: option.split)

lemma code_path_in_order: "code_path p \<Longrightarrow> in_order p"
proof (induction rule: code_path.induct)
  case (path_rib_in now u s s')
  then show ?case by (simp add: rib_in_pop_path_def peer_entry_in_order ordered_append)
next
  case (path_rib_wdraw now u s s')
  then obtain s1 where "withdraw now u s = Inr s1" by (auto simp: rib_wdraw_pop_def rbind_eq_Inr)
  then show ?case by (simp add: rib_wdraw_pop_path_def withdraw_in_order ordered_append)
next
  case (path_write s)
  then show ?case unfolding write_configs_path_def by (rule ordered_concat) auto
qed (auto simp: path_defs intro!: ordered_append)

interpretation bgp_locks: lock_discipline lock_rank code_path
  by unfold_locales (rule code_path_in_order)



section \<open>Torn messages\<close>

text \<open>The pieces that \<^verbatim>\<open>send_packet\<close> writes, each in a critical section of its own.\<close>

definition send_chunks :: "u8 \<Rightarrow> bytes \<Rightarrow> bytes list" where
  "send_chunks ty payload =
     (let len = of_nat (length payload) + 19 :: u16
      in [replicate 16 0xFF, [ucast (drop_bit 8 len), ucast (len AND 0xFF)], [ty], payload])"

lemma concat_send_chunks: "concat (send_chunks ty payload) = frame ty payload"
  by (simp add: send_chunks_def frame_def Let_def be_bytes_2 ucast_and_255)

text \<open>
  C21: two threads write to the connection of a neighbour, its own and, for the hold timer, the
  main thread. When both send a KEEPALIVE their pieces can be mixed so that the neighbour takes
  the second marker for a header: it reads a message of 65535 bytes, waits for the rest of it
  until the connection ends, and has received neither KEEPALIVE.
\<close>

theorem keepalives_torn:
  assumes "connected r"
    and "mixed = [replicate 16 0xFF, replicate 16 0xFF, [0, 19], [4], [], [0, 19], [4], []]"
    and "pending r = concat mixed"
  shows "mixed \<in> shuffles (send_chunks 4 []) (send_chunks 4 [])
    \<and> (\<exists>r'. established_step b now junk r = Inr (r', []) \<and> \<not> connected r' \<and> keepaliv r' = keepaliv r)"
proof
  have "send_chunks 4 [] = [replicate 16 0xFF, [0, 19], [4], []]"
    by (simp add: send_chunks_def)
  then show "mixed \<in> shuffles (send_chunks 4 []) (send_chunks 4 [])"
    unfolding assms(2) by (simp add: Cons_in_shuffles_iff)
  let ?rest = "drop 19 (concat mixed)"
  let ?p2 = "r\<lparr>rx := Some \<lparr>rx_data = ?rest, rx_eof = False\<rparr>, last_IO := (last_IO r)\<lparr>last_read := now\<rparr>\<rparr>"
  have len: "length (concat mixed) = 38" and n: "length ?rest < 65516"
    using assms(2) by simp_all
  have hd: "take 19 (concat mixed) ! 16 = 0xFF" "take 19 (concat mixed) ! 17 = 0xFF"
    using assms(2) by (simp_all add: nth_append)
  have c2: "connected ?p2" using connected_rx_update [OF assms(1)] by simp
  have p2: "pending ?p2 = ?rest" by (simp add: pending_def)
  have big: "unat (be16 0xFF 0xFF) = 65535" by (simp add: be16_def)
  have "\<exists>r'. established_step b now junk r = Inr (r', []) \<and> rx r' = Some \<lparr>rx_data = [], rx_eof = True\<rparr> \<and> keepaliv r' = keepaliv r"
    using n by (simp add: established_step_def tcp_read_connected [OF assms(1)] assms(3) len hd big
        tcp_read_connected [OF c2] p2)
  then show "\<exists>r'. established_step b now junk r = Inr (r', []) \<and> \<not> connected r' \<and> keepaliv r' = keepaliv r"
    using connected_rx_eof by fastforce
qed

theorem keepalives_torn_witness:
  "\<exists>mixed \<in> shuffles (send_chunks 4 []) (send_chunks 4 []).
     \<exists>r'. established_step (new_bgp True 1) 0 [] (sample_peer (concat mixed)) = Inr (r', []) \<and> \<not> connected r'"
  using keepalives_torn [of "sample_peer (concat [replicate 16 0xFF, replicate 16 0xFF, [0, 19], [4], [], [0, 19], [4], []])"
      _ "new_bgp True 1" 0 "[]"]
  by (simp only: sample_peer_sel simp_thms) blast

end
