(* ===== verification/Bgp_Timer.thy ===== *)
theory Bgp_Timer
  imports Prelude
begin

text \<open>
  The timer of \<^verbatim>\<open>include/bgp_timer.h\<close> and \<^verbatim>\<open>src/bgp_timer.cpp\<close>: a thread that sleeps and calls a
  function of the instance or of a neighbour. A neighbour allocates one; nothing in the program
  sets or starts it. A callback is here what it does to the state of the program.
\<close>

text \<open>\<^verbatim>\<open>timer_thread\<close>, and what may go wrong with a thread object and a callback.\<close>

datatype thread_object =
    No_thread    \<comment> \<open>the null pointer\<close>
  | Joinable
  | Detached
  | Deleted      \<comment> \<open>the pointer still has its value\<close>

datatype timer_error =
    Thread_terminate      \<comment> \<open>a joinable thread is destroyed, which ends the program\<close>
  | Thread_not_joinable   \<comment> \<open>the exception of a second \<^verbatim>\<open>detach\<close>\<close>
  | Thread_freed          \<comment> \<open>a deleted thread object is used or deleted again\<close>
  | Callback_null

record 's timer =
  tm_stop :: bool
  tm_bgp_function :: bool
  tm_intval :: int
  tm_func :: "('s \<Rightarrow> 's) option"        \<comment> \<open>\<^verbatim>\<open>func\<close> with its \<^verbatim>\<open>bgp\<close> and \<^verbatim>\<open>peer\<close>\<close>
  tm_bgp_func :: "('s \<Rightarrow> 's) option"    \<comment> \<open>\<^verbatim>\<open>bgp_func\<close> with its \<^verbatim>\<open>bgp\<close>\<close>
  tm_thread :: thread_object

definition new_timer :: "'s timer" where
  "new_timer = \<lparr>tm_stop = False, tm_bgp_function = False, tm_intval = 0, tm_func = None, tm_bgp_func = None,
     tm_thread = No_thread\<rparr>"

text \<open>
  The three forms of \<^verbatim>\<open>Set\<close>. The first statement, \<^verbatim>\<open>Timer();\<close>, makes another timer and drops it:
  it resets nothing. The thread starts here.
\<close>

definition timer_set_peer :: "('s \<Rightarrow> 's) \<Rightarrow> int \<Rightarrow> 's timer \<Rightarrow> 's timer" where
  "timer_set_peer f interval t =
     t\<lparr>tm_bgp_function := False, tm_func := Some f, tm_intval := interval, tm_thread := Joinable\<rparr>"

definition timer_set_peer_u16 :: "('s \<Rightarrow> 's) \<Rightarrow> u16 \<Rightarrow> 's timer \<Rightarrow> 's timer" where
  "timer_set_peer_u16 f interval t =
     t\<lparr>tm_bgp_function := False, tm_func := Some f, tm_intval := uint interval, tm_thread := Joinable\<rparr>"

definition timer_set_queue :: "('s \<Rightarrow> 's) \<Rightarrow> int \<Rightarrow> 's timer \<Rightarrow> 's timer" where
  "timer_set_queue f interval t =
     t\<lparr>tm_bgp_function := True, tm_intval := interval, tm_bgp_func := Some f, tm_thread := Joinable\<rparr>"

definition timer_interval :: "int \<Rightarrow> 's timer \<Rightarrow> 's timer" where
  "timer_interval n t = t\<lparr>tm_intval := n\<rparr>"

definition timer_start :: "'s timer \<Rightarrow> timer_error + 's timer" where
  "timer_start t =
     (case tm_thread t of
        No_thread \<Rightarrow> Inr (t\<lparr>tm_stop := False\<rparr>)
      | Joinable \<Rightarrow> Inr (t\<lparr>tm_stop := False, tm_thread := Detached\<rparr>)
      | Detached \<Rightarrow> Inl Thread_not_joinable
      | Deleted \<Rightarrow> Inl Thread_freed)"

definition timer_stop :: "'s timer \<Rightarrow> 's timer" where
  "timer_stop t = t\<lparr>tm_stop := True\<rparr>"

definition timer_callback :: "'s timer \<Rightarrow> ('s \<Rightarrow> 's) option" where
  "timer_callback t = (if tm_bgp_function t then tm_bgp_func t else tm_func t)"

text \<open>\<^verbatim>\<open>delete timer_thread\<close>, at the end of the loop and in the destructor.\<close>

definition delete_thread :: "thread_object \<Rightarrow> timer_error + thread_object" where
  "delete_thread th =
     (case th of
        No_thread \<Rightarrow> Inr No_thread
      | Joinable \<Rightarrow> Inl Thread_terminate
      | Detached \<Rightarrow> Inr Deleted
      | Deleted \<Rightarrow> Inl Thread_freed)"

definition timer_end :: "'s timer \<Rightarrow> timer_error + 's timer" where
  "timer_end t = (case delete_thread (tm_thread t) of Inl e \<Rightarrow> Inl e | Inr th \<Rightarrow> Inr (t\<lparr>tm_thread := th\<rparr>))"

definition delete_timer :: "'s timer \<Rightarrow> timer_error + 's timer" where
  "delete_timer t =
     (case delete_thread (tm_thread t) of
        Inl e \<Rightarrow> Inl e
      | Inr th \<Rightarrow> Inr (t\<lparr>tm_thread := No_thread, tm_func := None, tm_bgp_func := None\<rparr>))"

text \<open>
  \<^verbatim>\<open>TimerLoop\<close>: the timer itself may be changed by other threads while this one sleeps; \<open>changes\<close>
  are these changes, one for each round. \<open>None\<close> is that it still runs when they are used up.
\<close>

fun timer_loop :: "('s timer \<Rightarrow> 's timer) list \<Rightarrow> 's timer \<Rightarrow> 's \<Rightarrow> (timer_error + 's timer) option \<times> 's" where
  "timer_loop changes t s =
     (if tm_stop t then (Some (timer_end t), s)
      else
        (case changes of
           [] \<Rightarrow> (None, s)
         | change # rest \<Rightarrow>
             (let t' = change t
              in case timer_callback t' of
                   None \<Rightarrow> (Some (Inl Callback_null), s)
                 | Some f \<Rightarrow> timer_loop rest t' (f s))))"

declare timer_loop.simps [simp del]

section \<open>What it does\<close>

text \<open>
  The thread runs from \<^verbatim>\<open>Set\<close> on, before any \<^verbatim>\<open>Start\<close>: its function is called once for every round
  of sleep, the one in which it is stopped included. Without a \<^verbatim>\<open>Start\<close> its end is the end of the
  program.
\<close>

lemma timer_loop_calls:
  assumes "\<not> tm_stop t" and "timer_callback t = Some f"
  shows "timer_loop (replicate n id @ [timer_stop]) t s = (Some (timer_end (timer_stop t)), (f ^^ Suc n) s)"
proof (induction n arbitrary: s)
  case 0
  have "timer_callback (timer_stop t) = Some f" "tm_stop (timer_stop t)"
    using assms(2) by (simp_all add: timer_stop_def timer_callback_def split: if_splits)
  with assms(1) show ?case by (simp add: timer_loop.simps)
next
  case (Suc n)
  have "timer_loop (replicate (Suc n) id @ [timer_stop]) t s = timer_loop (replicate n id @ [timer_stop]) t (f s)"
    using assms by (subst timer_loop.simps) simp
  also have "\<dots> = (Some (timer_end (timer_stop t)), (f ^^ Suc n) (f s))" by (rule Suc.IH)
  finally show ?case by (simp only: funpow_Suc_right comp_apply)
qed

lemma timer_set_only:
  assumes "\<not> tm_stop t"
  shows "timer_loop (replicate n id @ [timer_stop]) (timer_set_peer f i t) s = (Some (Inl Thread_terminate), (f ^^ Suc n) s)"
  using assms by (subst timer_loop_calls [of _ f])
    (simp_all add: timer_set_peer_def timer_callback_def timer_stop_def timer_end_def delete_thread_def)

text \<open>
  After a \<^verbatim>\<open>Start\<close> the loop ends by itself, but then the thread object is deleted twice: by the loop
  and with the timer.
\<close>

lemma timer_started:
  assumes "timer_start (timer_set_peer f i t) = Inr u"
  shows "\<exists>v. timer_loop (replicate n id @ [timer_stop]) u s = (Some (Inr v), (f ^^ Suc n) s)
    \<and> delete_timer v = Inl Thread_freed"
proof -
  have u: "\<not> tm_stop u" "timer_callback u = Some f" "tm_thread u = Detached"
    using assms by (auto simp: timer_start_def timer_set_peer_def timer_callback_def)
  then show ?thesis
    by (subst timer_loop_calls [of _ f]) (simp_all add: timer_stop_def timer_end_def delete_thread_def delete_timer_def)
qed

text \<open>
  A timer that was stopped and is set again does not call its function before it is started:
  \<^verbatim>\<open>Set\<close> leaves the flag.
\<close>

lemma timer_set_stopped:
  "timer_loop changes (timer_set_peer f i (timer_stop t)) s = (Some (Inl Thread_terminate), s)"
  by (simp add: timer_loop.simps timer_set_peer_def timer_stop_def timer_end_def delete_thread_def)

text \<open>What a neighbour does with its timer, from its constructor to its destructor, is harmless.\<close>

lemma unused_timer: "delete_timer (timer_stop new_timer) = Inr (timer_stop new_timer)"
  by (simp add: delete_timer_def timer_stop_def new_timer_def delete_thread_def)

end
