(* ===== verification/Spec2Isabelle.thy ===== *)
theory Spec2Isabelle
  imports Api_Proofs Cli_Behaviour Bgp_Main First_Session Bgp_Locks Bgp_Timer
begin

text \<open>
  A verification development for log2BGP (\<^verbatim>\<open>bgpd\<close>), a daemon that peers with BGP routers, keeps
  what they announce in a routing information base (RIB), logs it, and answers queries about it
  on a command line and a web API.

  \<^bold>\<open>The program.\<close> \<^verbatim>\<open>main\<close> takes an AS number and runs \<^verbatim>\<open>init_BGP\<close>, which opens the two listening
  sockets and then loops: for every neighbour it checks the hold timer and parses the queued
  UPDATE messages into two queues, and then works these off, inserting and withdrawing routes. Each
  neighbour has a thread, which connects, exchanges OPEN messages, receives, and at the end of a
  session flushes the routes of the neighbour. Each client of the sockets has a thread, which
  executes command lines. All of them share one object of the class \<^verbatim>\<open>BGP\<close>.

  \<^bold>\<open>The model\<close> follows this structure; the state is a record \<open>bgp\<close>, every operation a function from
  it to a result, in which \<open>Inl\<close> is behaviour that C++ leaves undefined (a read out of bounds, a
  copy past its destination, a null pointer, a use after free, a bad shift) and \<open>Inr\<close> the value; a
  loop that may not end gives an option, with \<open>None\<close> for not ending. Integers are words of their
  width, an \<^verbatim>\<open>in_addr\<close> is the word whose little-endian memory image is the four octets. Answers of
  the operating system (connections, sockets, time, files) and uninitialised memory are arguments.
  The threads are the relation \<open>bgp_step\<close>: any of their actions, in any order, each of them at once.
  The mutexes are a second, independent view of the same operations: the locks that each takes and
  releases.

  \<^bold>\<open>Theories.\<close>
  \<^item> \<^theory_text>\<open>Prelude\<close>, \<^theory_text>\<open>Libc\<close>, \<^theory_text>\<open>Std_Map\<close>: results, bytes and byte order; numbers, addresses and dates
    as text; \<^verbatim>\<open>std::map\<close> as an ordered association list. The locale \<open>comparator\<close> gives the laws of
    a map (\<open>map_contract\<close>) from an order; it is interpreted on the comparators of the RIB, the
    event database and the logging hosts.
  \<^item> \<^theory_text>\<open>Misc\<close>, \<^theory_text>\<open>Ipv4\<close>, \<^theory_text>\<open>Bgp_Msg\<close>, \<^theory_text>\<open>Adj_Rib\<close>: \<^verbatim>\<open>src/misc.cpp\<close>, the prefix ranges of
    \<^verbatim>\<open>src/bgp_update.cpp\<close>, \<^verbatim>\<open>include/bgp_msg.h\<close> with deep copy and comparison, \<^verbatim>\<open>include/bgp_adj_rib.h\<close>.
  \<^item> \<^theory_text>\<open>Bgp_Update\<close>, \<^theory_text>\<open>Update_Codec\<close>, \<^theory_text>\<open>Update_Safety\<close>: the UPDATE parser. Against a wire format of
    messages as lists of attributes and prefixes it is right; on arbitrary bytes its results are
    well formed and its faults are listed.
  \<^item> \<^theory_text>\<open>Tcp_Client\<close>, \<^theory_text>\<open>Bgp_Peer\<close>, \<^theory_text>\<open>Thread_Mgr\<close>, \<^theory_text>\<open>Bgp_Session\<close>, \<^theory_text>\<open>Session_Proofs\<close>: the connection, the
    neighbour with its aliases, the table of neighbours (the locale \<open>peer_table\<close>, interpreted on
    both lookups), and the session: framing, OPEN, KEEPALIVE, NOTIFICATION and the hold timer, with
    the transitions between session states.
  \<^item> \<^theory_text>\<open>Attrib_Alias\<close>, \<^theory_text>\<open>Bgp_Syslog\<close>: the texts of attributes and the line that is logged.
  \<^item> \<^theory_text>\<open>Bgp_Database\<close>, \<^theory_text>\<open>Database_Proofs\<close>: the file of replaced routes; a query after insertions
    gives the last \<^verbatim>\<open>max_records\<close> of a key, newest first.
  \<^item> \<^theory_text>\<open>Bgp_Core\<close>, \<^theory_text>\<open>Core_Proofs\<close>: \<^verbatim>\<open>src/bgp.cpp\<close>, queues and RIB. Insertion, withdraw and flush refine
    the updates of a finite map; \<open>core_inv\<close> holds in every reachable state (\<open>bgp_run\<close>), under the
    condition \<open>router_ids\<close> that routers have distinct ids which they keep.
  \<^item> \<^theory_text>\<open>Bgp_Threads\<close>: the loops of the threads. The passes of the main thread are runs of
    \<open>bgp_step\<close>, a session ends, an UPDATE reaches the RIB, and what stopping does.
  \<^item> \<^theory_text>\<open>First_Session\<close>: one neighbour from its configuration over connect, OPEN and KEEPALIVE to its
    routes in the RIB, every step of it executed.
  \<^item> \<^theory_text>\<open>Bgp_Api\<close>, \<^theory_text>\<open>Api_Proofs\<close>: \<^verbatim>\<open>api/bgp_api.cpp\<close>, the queries and their JSON.
  \<^item> \<^theory_text>\<open>Cmd_Parser\<close>, \<^theory_text>\<open>Bgp_Cli\<close>, \<^theory_text>\<open>Cli_Proofs\<close>, \<^theory_text>\<open>Cli_Behaviour\<close>: the command tree and its search, all
    commands of \<^verbatim>\<open>cli/bgp_cli.cpp\<close>; each is a run of \<open>bgp_step\<close>, and the configuration that \<^verbatim>\<open>write\<close>
    stores restores the neighbours.
  \<^item> \<^theory_text>\<open>Tcp_Server\<close>, \<^theory_text>\<open>Bgp_Main\<close>: \<^verbatim>\<open>src/tcp_server.cpp\<close>, the framing of commands and the read-only web
    API, the listening sockets; \<^verbatim>\<open>src/bgp_main.cpp\<close>.
  \<^item> \<^theory_text>\<open>Lock_Order\<close>, \<^theory_text>\<open>Bgp_Locks\<close>: threads that spin on mutexes, and the paths that the operations
    take through them. The locale \<open>lock_discipline\<close> shows that paths in the order of a rank never
    block each other; it is interpreted on the paths of the program. The pieces of a message are
    written in critical sections of their own, and two threads can mix them up.
  \<^item> \<^theory_text>\<open>Bgp_Timer\<close>: \<^verbatim>\<open>src/bgp_timer.cpp\<close>. Every neighbour has a timer, and nothing sets or starts it.

  \<^bold>\<open>Bounds.\<close> No fuel is hidden in a definition. Loops that end by themselves are total functions
  with a measure; the loop of the database reader and of \<^verbatim>\<open>delete_peer\<close>, which need not end, are
  partial functions into an option; the loops of threads run over a list of what the environment
  answers, one element for each round, and give \<open>None\<close> when it is used up before they end. A
  session needs one element for each 19 bytes of input and one more (\<open>peer_established_ends\<close>).

  \<^bold>\<open>Not modelled.\<close>
  \<^item> Interleavings inside an operation: in \<open>bgp_step\<close> an operation is one step, also where the source
    reads shared data without a lock (the table of neighbours, the front of a queue). A connection
    of a client is served with no other thread in between. \<open>feof_mutex\<close> is never taken.
  \<^item> The address list that \<^verbatim>\<open>accept\<close> writes to after it was freed, the thread objects, and failing
    allocations (\<^verbatim>\<open>new (std::nothrow)\<close>).
  \<^item> \<^verbatim>\<open>include/bgp_adj_rib_wdrawn.h\<close> (unused), the code under the debug and unit-test macros, the
    hex dump and terminal helpers of \<^verbatim>\<open>src/misc.cpp\<close> under \<^verbatim>\<open>USE_CLI\<close>, the two \<^verbatim>\<open>getsockopt\<close> readers, the
    tests, and the Ruby front end.
\<close>

end
